(* ===== verification/Prelude.thy ===== *)
theory Prelude
  imports Main "HOL-Library.Word" "HOL-Library.Sublist"
begin

text \<open>
  Shared vocabulary of the development: the Rust types and standard-library operations the
  modelled code uses, and generic lemmas on lists, options and words.

  \<^item> Integers: \<open>u32\<close>, \<open>u64\<close> are words (unsigned order, wrap-around \<open>+\<close> and \<open>-\<close>); signed
    integers are \<open>int\<close> with \<open>i32_wrap\<close> and \<open>i64_wrap\<close> written out where arithmetic can leave
    the range.
  \<^item> Strings: a Rust \<^verbatim>\<open>&str\<close> is its UTF-8 byte sequence, a \<open>char list\<close>; \<^verbatim>\<open>len()\<close> counts bytes.
    \<open>trim\<close> strips the encodings of every code point with the Unicode property White_Space.
  \<^item> Results: a Rust \<^verbatim>\<open>Result<T, E>\<close> is \<open>'e + 'a\<close> with \<open>Inl\<close> the error.
\<close>

named_theorems dusk_eval \<open>equations that evaluate the library on concrete arguments\<close>

section \<open>Integers\<close>

type_synonym u8 = "8 word"
type_synonym u16 = "16 word"
type_synonym u32 = "32 word"
type_synonym u64 = "64 word"
type_synonym uuid = "128 word"

abbreviation (input) u32_MAX :: u32 where "u32_MAX \<equiv> 4294967295"
abbreviation (input) u64_MAX :: u64 where "u64_MAX \<equiv> 18446744073709551615"

definition saturating_add :: "'a::len word \<Rightarrow> 'a word \<Rightarrow> 'a word" where
  "saturating_add a b = (if unat a + unat b < 2 ^ LENGTH('a) then a + b else - 1)"

definition saturating_sub :: "'a::len word \<Rightarrow> 'a word \<Rightarrow> 'a word" where
  "saturating_sub a b = (if b \<le> a then a - b else 0)"

definition i32_wrap :: "int \<Rightarrow> int" where
  "i32_wrap x = (x + 2 ^ 31) mod 2 ^ 32 - 2 ^ 31"

definition i64_wrap :: "int \<Rightarrow> int" where
  "i64_wrap x = (x + 2 ^ 63) mod 2 ^ 64 - 2 ^ 63"

text \<open>Division of signed integers truncates towards zero.\<close>

definition quot :: "int \<Rightarrow> int \<Rightarrow> int" where
  "quot a b = (if a < 0 then - (- a div b) else a div b)"

definition is_i32 :: "int \<Rightarrow> bool" where
  "is_i32 x \<longleftrightarrow> - (2 ^ 31) \<le> x \<and> x < 2 ^ 31"

definition is_i64 :: "int \<Rightarrow> bool" where
  "is_i64 x \<longleftrightarrow> - (2 ^ 63) \<le> x \<and> x < 2 ^ 63"

lemma i32_wrap_id: "is_i32 x \<Longrightarrow> i32_wrap x = x"
  by (simp add: is_i32_def i32_wrap_def)

lemma i64_wrap_id: "is_i64 x \<Longrightarrow> i64_wrap x = x"
  by (simp add: is_i64_def i64_wrap_def)

lemma unat_saturating_add:
  fixes a b :: "'a::len word"
  shows "unat (saturating_add a b) = min (unat a + unat b) (2 ^ LENGTH('a) - 1)"
  by (auto simp: saturating_add_def unat_word_ariths unsigned_minus_1_eq_mask mask_eq_exp_minus_1)

lemma unat_saturating_sub:
  fixes a b :: "'a::len word"
  shows "unat (saturating_sub a b) = unat a - unat b"
  by (auto simp: saturating_sub_def word_le_nat_alt unat_sub)

lemma word_pred_less: "(n :: 'a::len word) \<noteq> 0 \<Longrightarrow> n - 1 < n"
  by (metis measure_unat word_less_nat_alt)

lemma word_le_pred:
  assumes "(x :: 'a::len word) < n"
  shows "x \<le> n - 1"
proof -
  have "n \<noteq> 0" using assms by auto
  then have "unat (n - 1) = unat n - 1" by (rule unat_minus_one)
  with assms show ?thesis by (simp add: word_le_nat_alt word_less_nat_alt)
qed

section \<open>Strings\<close>

subsection \<open>Case\<close>

definition ascii_lower_char :: "char \<Rightarrow> char" where
  "ascii_lower_char c =
     (let n = (of_char c :: nat) in if 65 \<le> n \<and> n \<le> 90 then char_of (n + 32) else c)"

definition to_ascii_lowercase :: "string \<Rightarrow> string" where
  "to_ascii_lowercase s = map ascii_lower_char s"

definition eq_ignore_ascii_case :: "string \<Rightarrow> string \<Rightarrow> bool" where
  "eq_ignore_ascii_case a b \<longleftrightarrow> to_ascii_lowercase a = to_ascii_lowercase b"

lemma ascii_lower_char_idem [simp]: "ascii_lower_char (ascii_lower_char c) = ascii_lower_char c"
  by (auto simp: ascii_lower_char_def Let_def)

lemma to_ascii_lowercase_idem [simp]:
  "to_ascii_lowercase (to_ascii_lowercase s) = to_ascii_lowercase s"
  by (simp add: to_ascii_lowercase_def)

lemma length_to_ascii_lowercase [simp]: "length (to_ascii_lowercase s) = length s"
  by (simp add: to_ascii_lowercase_def)

lemma to_ascii_lowercase_Nil [simp]: "to_ascii_lowercase s = [] \<longleftrightarrow> s = []"
  by (simp add: to_ascii_lowercase_def)

lemma eq_ignore_ascii_case_refl [simp]: "eq_ignore_ascii_case s s"
  by (simp add: eq_ignore_ascii_case_def)

lemma eq_ignore_ascii_case_sym: "eq_ignore_ascii_case a b = eq_ignore_ascii_case b a"
  by (auto simp: eq_ignore_ascii_case_def)

lemma eq_ignore_ascii_case_trans:
  "eq_ignore_ascii_case a b \<Longrightarrow> eq_ignore_ascii_case b c \<Longrightarrow> eq_ignore_ascii_case a c"
  by (simp add: eq_ignore_ascii_case_def)

subsection \<open>Prefixes, splitting\<close>

definition starts_with :: "string \<Rightarrow> string \<Rightarrow> bool" where
  "starts_with s p \<longleftrightarrow> take (length p) s = p"

fun split_on :: "char \<Rightarrow> string \<Rightarrow> string list" where
  "split_on c [] = [[]]"
| "split_on c (x # xs) =
     (if x = c then [] # split_on c xs
      else case split_on c xs of [] \<Rightarrow> [[x]] | f # fs \<Rightarrow> (x # f) # fs)"

fun split_once :: "char \<Rightarrow> string \<Rightarrow> (string \<times> string) option" where
  "split_once c [] = None"
| "split_once c (x # xs) =
     (if x = c then Some ([], xs)
      else map_option (\<lambda>(a, b). (x # a, b)) (split_once c xs))"

lemma split_on_not_Nil [simp]: "split_on c s \<noteq> []"
  by (induction s) (auto split: list.splits)

lemma split_on_no_sep: "c \<notin> set s \<Longrightarrow> split_on c s = [s]"
  by (induction s) auto

lemma split_on_single:
  assumes "c \<notin> set a" and "c \<notin> set b"
  shows "split_on c (a @ c # b) = [a, b]"
  using assms by (induction a) (auto simp: split_on_no_sep)

lemma split_on_fields: "f \<in> set (split_on c s) \<Longrightarrow> c \<notin> set f"
  by (induction s arbitrary: f) (auto split: if_splits list.splits)

lemma split_once_Some:
  "split_once c s = Some (a, b) \<longleftrightarrow> s = a @ c # b \<and> c \<notin> set a"
proof (induction s arbitrary: a)
  case Nil
  then show ?case by simp
next
  case (Cons x xs)
  show ?case
  proof (cases "x = c")
    case True
    then show ?thesis by (cases a) auto
  next
    case False
    with Cons.IH show ?thesis by (cases a) auto
  qed
qed

lemma split_once_at: "c \<notin> set a \<Longrightarrow> split_once c (a @ c # b) = Some (a, b)"
  by (induction a) auto

lemma append_sep_inject:
  fixes c :: char
  assumes "c \<notin> set a" and "c \<notin> set a'"
  shows "a @ c # b = a' @ c # b' \<longleftrightarrow> a = a' \<and> b = b'"
proof -
  have "split_once c (a @ c # b) = Some (a, b)"
    and "split_once c (a' @ c # b') = Some (a', b')"
    using assms by (simp_all add: split_once_Some)
  then show ?thesis by (metis option.inject prod.inject)
qed

lemma split_once_None: "split_once c s = None \<longleftrightarrow> c \<notin> set s"
  by (induction s) auto

subsection \<open>Whitespace\<close>

text \<open>The UTF-8 encodings of the code points with the property White_Space.\<close>

definition ascii_ws :: "char \<Rightarrow> bool" where
  "ascii_ws c \<longleftrightarrow> (let n = (of_char c :: nat) in (9 \<le> n \<and> n \<le> 13) \<or> n = 32)"

definition ws2 :: "char \<Rightarrow> char \<Rightarrow> bool" where
  "ws2 a b \<longleftrightarrow> (of_char a :: nat) = 194 \<and> (of_char b :: nat) \<in> {133, 160}"

definition ws3 :: "char \<Rightarrow> char \<Rightarrow> char \<Rightarrow> bool" where
  "ws3 a b c \<longleftrightarrow>
     (let x = (of_char a :: nat); y = (of_char b :: nat); z = (of_char c :: nat) in
        (x = 225 \<and> y = 154 \<and> z = 128)
        \<or> (x = 226 \<and> y = 128 \<and> (128 \<le> z \<and> z \<le> 138 \<or> z = 168 \<or> z = 169 \<or> z = 175))
        \<or> (x = 226 \<and> y = 129 \<and> z = 159)
        \<or> (x = 227 \<and> y = 128 \<and> z = 128))"

text \<open>
  \<open>trim_with\<close> strips leading white space given the multi-byte tests; the trailing side reads
  the reversed bytes, so its tests take their arguments the other way round.
\<close>

function trim_with ::
  "(char \<Rightarrow> char \<Rightarrow> bool) \<Rightarrow> (char \<Rightarrow> char \<Rightarrow> char \<Rightarrow> bool) \<Rightarrow> string \<Rightarrow> string" where
  "trim_with two three s =
     (case s of
        [] \<Rightarrow> []
      | a # as \<Rightarrow>
          (if ascii_ws a then trim_with two three as
           else case as of
               [] \<Rightarrow> s
             | b # bs \<Rightarrow>
                 (if two a b then trim_with two three bs
                  else case bs of
                      [] \<Rightarrow> s
                    | c # cs \<Rightarrow> (if three a b c then trim_with two three cs else s))))"
  by pat_completeness auto
termination
  by (relation "measure (\<lambda>(two, three, s). length s)") auto

declare trim_with.simps [simp del]

definition trim_start :: "string \<Rightarrow> string" where
  "trim_start = trim_with ws2 ws3"

definition trim_end :: "string \<Rightarrow> string" where
  "trim_end s = rev (trim_with (\<lambda>a b. ws2 b a) (\<lambda>a b c. ws3 c b a) (rev s))"

definition trim :: "string \<Rightarrow> string" where
  "trim s = trim_end (trim_start s)"

text \<open>A string starts with white space when one of the three tests accepts its first bytes.\<close>

fun ws_head :: "(char \<Rightarrow> char \<Rightarrow> bool) \<Rightarrow> (char \<Rightarrow> char \<Rightarrow> char \<Rightarrow> bool) \<Rightarrow> string \<Rightarrow> bool" where
  "ws_head two three (a # b # c # cs) \<longleftrightarrow> ascii_ws a \<or> two a b \<or> three a b c"
| "ws_head two three [a, b] \<longleftrightarrow> ascii_ws a \<or> two a b"
| "ws_head two three [a] \<longleftrightarrow> ascii_ws a"
| "ws_head two three [] \<longleftrightarrow> False"

lemma trim_with_no_ws: "\<not> ws_head two three s \<Longrightarrow> trim_with two three s = s"
  by (subst trim_with.simps) (auto split: list.splits)

lemma ws_head_trim_with: "\<not> ws_head two three (trim_with two three s)"
proof (induction two three s rule: trim_with.induct)
  case (1 two three s)
  show ?case
    by (subst trim_with.simps) (use 1 in \<open>auto split: list.splits\<close>)
qed

lemma ws_head_append: "ws_head two three s \<Longrightarrow> ws_head two three (s @ t)"
  by (induction two three s rule: ws_head.induct) (cases t; auto; cases "tl t"; auto)+

lemma trim_with_suffix: "suffix (trim_with two three s) s"
proof (induction s rule: length_induct)
  case (1 s)
  then have IH: "length t < length s \<Longrightarrow> suffix (trim_with two three t) t" for t by blast
  show ?case
    by (subst trim_with.simps) (auto split: list.splits intro!: suffix_ConsI IH)
qed

lemma trim_end_prefix: "prefix (trim_end s) s"
proof -
  have "suffix (rev (trim_end s)) (rev s)" by (simp add: trim_end_def trim_with_suffix)
  then show ?thesis by (simp add: suffix_to_prefix)
qed

lemma trim_no_ws_head: "\<not> ws_head ws2 ws3 (trim s)"
proof
  assume "ws_head ws2 ws3 (trim s)"
  moreover obtain p where "trim_start s = trim s @ p"
    using trim_end_prefix [of "trim_start s"] by (auto simp: trim_def prefix_def)
  ultimately have "ws_head ws2 ws3 (trim_start s)" by (simp add: ws_head_append)
  then show False unfolding trim_start_def by (simp add: ws_head_trim_with)
qed

lemma trim_id:
  assumes "\<not> ws_head ws2 ws3 s" and "\<not> ws_head (\<lambda>a b. ws2 b a) (\<lambda>a b c. ws3 c b a) (rev s)"
  shows "trim s = s"
  using assms by (simp add: trim_def trim_start_def trim_end_def trim_with_no_ws)

lemma trim_no_ws_last: "\<not> ws_head (\<lambda>a b. ws2 b a) (\<lambda>a b c. ws3 c b a) (rev (trim s))"
  by (simp add: trim_def trim_end_def ws_head_trim_with)

lemma trim_idem [simp]: "trim (trim s) = trim s"
  by (rule trim_id [OF trim_no_ws_head trim_no_ws_last])

lemma ascii_lower_char_ws [simp]:
  "ascii_ws (ascii_lower_char a) = ascii_ws a"
  "ws2 (ascii_lower_char a) (ascii_lower_char b) = ws2 a b"
  "ws3 (ascii_lower_char a) (ascii_lower_char b) (ascii_lower_char c) = ws3 a b c"
  by (auto simp: ascii_ws_def ws2_def ws3_def ascii_lower_char_def Let_def)

lemma ws_head_lower [simp]:
  "ws_head ws2 ws3 (map ascii_lower_char s) = ws_head ws2 ws3 s"
  "ws_head (\<lambda>a b. ws2 b a) (\<lambda>a b c. ws3 c b a) (map ascii_lower_char s)
     = ws_head (\<lambda>a b. ws2 b a) (\<lambda>a b c. ws3 c b a) s"
  by (induction ws2 ws3 s rule: ws_head.induct) auto

lemma trim_lower_trim [simp]:
  "trim (to_ascii_lowercase (trim s)) = to_ascii_lowercase (trim s)"
  by (rule trim_id)
    (simp_all add: to_ascii_lowercase_def rev_map trim_no_ws_head trim_no_ws_last)

subsection \<open>Decimal numbers\<close>

definition digit_char :: "nat \<Rightarrow> char" where
  "digit_char d = char_of (48 + d)"

definition is_digit :: "char \<Rightarrow> bool" where
  "is_digit c \<longleftrightarrow> (let n = (of_char c :: nat) in 48 \<le> n \<and> n \<le> 57)"

definition digit_val :: "char \<Rightarrow> nat" where
  "digit_val c = of_char c - 48"

fun show_nat :: "nat \<Rightarrow> string" where
  "show_nat n = (if n < 10 then [digit_char n] else show_nat (n div 10) @ [digit_char (n mod 10)])"

declare show_nat.simps [simp del]

definition nat_of_digits :: "string \<Rightarrow> nat" where
  "nat_of_digits s = foldl (\<lambda>acc c. 10 * acc + digit_val c) 0 s"

definition show_u :: "'a::len word \<Rightarrow> string" where
  "show_u w = show_nat (unat w)"

definition show_int :: "int \<Rightarrow> string" where
  "show_int i = (if i < 0 then CHR ''-'' # show_nat (nat (- i)) else show_nat (nat i))"

text \<open>Rust's \<^verbatim>\<open>str::parse\<close> into \<open>i64\<close>: an optional sign, at least one digit, in range.\<close>

definition all_digits :: "string \<Rightarrow> bool" where
  "all_digits s \<longleftrightarrow> s \<noteq> [] \<and> list_all is_digit s"

definition parse_i64 :: "string \<Rightarrow> int option" where
  "parse_i64 s =
     (let (neg, ds) = (case s of
            [] \<Rightarrow> (False, s)
          | c # cs \<Rightarrow> (if c = CHR ''-'' then (True, cs) else if c = CHR ''+'' then (False, cs) else (False, s)));
          v = (if neg then - int (nat_of_digits ds) else int (nat_of_digits ds))
      in if all_digits ds \<and> is_i64 v then Some v else None)"

text \<open>Rust's \<^verbatim>\<open>str::parse\<close> into \<open>u64\<close>: an optional plus sign, at least one digit, in range.\<close>

definition parse_u64 :: "string \<Rightarrow> u64 option" where
  "parse_u64 s =
     (let ds = (case s of [] \<Rightarrow> s | c # cs \<Rightarrow> (if c = CHR ''+'' then cs else s))
      in if all_digits ds \<and> nat_of_digits ds < 2 ^ 64
         then Some (word_of_nat (nat_of_digits ds)) else None)"

definition strip_prefix :: "string \<Rightarrow> string \<Rightarrow> string option" where
  "strip_prefix p s = (if starts_with s p then Some (drop (length p) s) else None)"

definition strip_suffix_char :: "char \<Rightarrow> string \<Rightarrow> string option" where
  "strip_suffix_char c s = (if s \<noteq> [] \<and> last s = c then Some (butlast s) else None)"

lemma of_char_digit_char [simp]: "d < 10 \<Longrightarrow> (of_char (digit_char d) :: nat) = 48 + d"
  by (simp add: digit_char_def)

lemma digit_val_digit_char [simp]: "d < 10 \<Longrightarrow> digit_val (digit_char d) = d"
  by (simp add: digit_val_def)

lemma is_digit_digit_char [simp]: "d < 10 \<Longrightarrow> is_digit (digit_char d)"
  by (simp add: is_digit_def)

lemma nat_of_digits_snoc [simp]: "nat_of_digits (s @ [c]) = 10 * nat_of_digits s + digit_val c"
  by (simp add: nat_of_digits_def)

lemma nat_of_digits_show_nat [simp]: "nat_of_digits (show_nat n) = n"
proof (induction n rule: show_nat.induct)
  case (1 n)
  show ?case
  proof (cases "n < 10")
    case True
    then show ?thesis by (subst show_nat.simps) (simp add: nat_of_digits_def)
  next
    case False
    with 1 show ?thesis by (subst show_nat.simps) simp
  qed
qed

lemma all_digits_show_nat [simp]: "all_digits (show_nat n)"
proof (induction n rule: show_nat.induct)
  case (1 n)
  show ?case
  proof (cases "n < 10")
    case True
    then show ?thesis by (subst show_nat.simps) (simp add: all_digits_def)
  next
    case False
    with 1 show ?thesis by (subst show_nat.simps) (simp add: all_digits_def)
  qed
qed

lemma digits_no_char:
  assumes "all_digits s" and "\<not> is_digit c"
  shows "c \<notin> set s"
  using assms by (auto simp: all_digits_def list_all_iff)

lemma show_nat_no_char [simp]: "\<not> is_digit c \<Longrightarrow> c \<notin> set (show_nat n)"
  using all_digits_show_nat digits_no_char by blast

lemma show_nat_not_Nil [simp]: "show_nat n \<noteq> []"
  using all_digits_show_nat [of n] by (auto simp: all_digits_def)

lemma show_nat_hd_digit: "is_digit (hd (show_nat n))"
  using all_digits_show_nat [of n] show_nat_not_Nil [of n]
  by (cases "show_nat n") (simp_all add: all_digits_def)

lemma length_show_nat: "n < 10 ^ k \<Longrightarrow> 0 < k \<Longrightarrow> length (show_nat n) \<le> k"
proof (induction k arbitrary: n)
  case 0
  then show ?case by simp
next
  case (Suc k)
  show ?case
  proof (cases "n < 10")
    case True
    then show ?thesis by (subst show_nat.simps) simp
  next
    case False
    with Suc.prems have "n div 10 < 10 ^ k" and "0 < k"
      by (auto intro: ccontr)
    with Suc.IH False show ?thesis by (subst show_nat.simps) simp
  qed
qed

lemma length_show_u64: "length (show_u (w :: u64)) \<le> 20"
proof -
  have "unat w < 2 ^ 64" using unsigned_less [of w] by simp
  then have "unat w < 10 ^ 20" by simp
  then show ?thesis unfolding show_u_def by (rule length_show_nat) simp
qed

lemma parse_u64_digits:
  assumes "all_digits s"
  shows "parse_u64 s = (if nat_of_digits s < 2 ^ 64 then Some (word_of_nat (nat_of_digits s)) else None)"
  using assms by (cases s) (auto simp: parse_u64_def all_digits_def is_digit_def Let_def)

lemma parse_u64_show_u [simp]: "parse_u64 (show_u (w :: u64)) = Some w"
proof -
  have "unat w < 2 ^ 64" using unsigned_less [of w] by simp
  then show ?thesis by (simp add: show_u_def parse_u64_digits)
qed

lemma show_nat_inject [simp]: "show_nat m = show_nat n \<longleftrightarrow> m = n"
  using nat_of_digits_show_nat by metis

lemma show_u_no_char [simp]: "\<not> is_digit c \<Longrightarrow> c \<notin> set (show_u w)"
  by (simp add: show_u_def)

lemma all_digits_show_u [simp]: "all_digits (show_u w)"
  by (simp add: show_u_def)

lemma show_u_not_Nil [simp]: "show_u w \<noteq> []"
  by (simp add: show_u_def)

lemma show_u_inject [simp]: "show_u v = show_u w \<longleftrightarrow> v = w"
  by (simp add: show_u_def word_unat_eq_iff)

text \<open>Zero padding to a width, as by the format \<^verbatim>\<open>{:0w}\<close>.\<close>

definition pad :: "nat \<Rightarrow> string \<Rightarrow> string" where
  "pad w s = replicate (w - length s) (CHR ''0'') @ s"

lemma nat_of_digits_zeros [simp]: "nat_of_digits (replicate n (CHR ''0'') @ s) = nat_of_digits s"
proof (induction n)
  case (Suc n)
  then show ?case by (simp add: nat_of_digits_def digit_val_def)
qed simp

lemma nat_of_digits_pad [simp]: "nat_of_digits (pad w s) = nat_of_digits s"
  by (simp add: pad_def)

lemma all_digits_pad: "all_digits s \<Longrightarrow> all_digits (pad w s)"
  by (auto simp: pad_def all_digits_def list_all_iff is_digit_def)

lemma length_pad: "length (pad w s) = max w (length s)"
  by (simp add: pad_def max_def)

lemma strip_prefix_append [simp]: "strip_prefix p (p @ s) = Some s"
  by (simp add: strip_prefix_def starts_with_def)

lemma strip_prefix_Some: "strip_prefix p s = Some x \<longleftrightarrow> s = p @ x"
proof -
  have "s = p @ drop (length p) s" if "take (length p) s = p"
    using that by (metis append_take_drop_id)
  then show ?thesis by (auto simp: strip_prefix_def starts_with_def)
qed

lemmas [dusk_eval] =
  to_ascii_lowercase_def ascii_lower_char_def char_of_def bit_Suc_0_iff
  eq_ignore_ascii_case_def starts_with_def strip_prefix_def strip_suffix_char_def
  trim_def trim_start_def trim_end_def trim_with.simps ascii_ws_def ws2_def ws3_def
  is_digit_def all_digits_def digit_val_def digit_char_def nat_of_digits_def
  show_nat.simps show_u_def show_int_def parse_u64_def parse_i64_def is_i64_def
  saturating_add_def saturating_sub_def Let_def

section \<open>Results and lists\<close>

definition bind_res :: "'e + 'a \<Rightarrow> ('a \<Rightarrow> 'e + 'b) \<Rightarrow> 'e + 'b" where
  "bind_res r f = (case r of Inl e \<Rightarrow> Inl e | Inr x \<Rightarrow> f x)"

definition ok_or :: "'e \<Rightarrow> 'a option \<Rightarrow> 'e + 'a" where
  "ok_or e o' = (case o' of None \<Rightarrow> Inl e | Some x \<Rightarrow> Inr x)"

lemma bind_res_simps [simp]:
  "bind_res (Inl e) f = Inl e" "bind_res (Inr x) f = f x"
  by (simp_all add: bind_res_def)

lemma bind_res_Inr: "bind_res r f = Inr y \<longleftrightarrow> (\<exists>x. r = Inr x \<and> f x = Inr y)"
  by (auto simp: bind_res_def split: sum.splits)

lemma bind_res_Inl: "bind_res r f = Inl e \<longleftrightarrow> r = Inl e \<or> (\<exists>x. r = Inr x \<and> f x = Inl e)"
  by (auto simp: bind_res_def split: sum.splits)

lemma ok_or_simps [simp]:
  "ok_or e None = Inl e" "ok_or e (Some x) = Inr x"
  by (simp_all add: ok_or_def)

lemma ok_or_Inr [simp]: "ok_or e o' = Inr x \<longleftrightarrow> o' = Some x"
  by (auto simp: ok_or_def split: option.splits)

text \<open>Rust's \<^verbatim>\<open>Iterator::find_map\<close>.\<close>

fun find_map :: "('a \<Rightarrow> 'b option) \<Rightarrow> 'a list \<Rightarrow> 'b option" where
  "find_map f [] = None"
| "find_map f (x # xs) = (case f x of Some y \<Rightarrow> Some y | None \<Rightarrow> find_map f xs)"

lemma find_map_Some: "find_map f xs = Some y \<Longrightarrow> \<exists>x \<in> set xs. f x = Some y"
  by (induction xs) (auto split: option.splits)

lemma find_Some_set: "List.find P xs = Some x \<Longrightarrow> x \<in> set xs \<and> P x"
  by (induction xs) (auto split: if_splits)

definition last_opt :: "'a list \<Rightarrow> 'a option" where
  "last_opt xs = (if xs = [] then None else Some (last xs))"

text \<open>An SQL \<open>UPDATE\<close> on a table that is the list of its rows.\<close>

definition update_where :: "('a \<Rightarrow> bool) \<Rightarrow> ('a \<Rightarrow> 'a) \<Rightarrow> 'a list \<Rightarrow> 'a list" where
  "update_where p f rows = map (\<lambda>x. if p x then f x else x) rows"

lemma update_where_ids [simp]:
  assumes "\<And>x. g (f x) = g x"
  shows "map g (update_where p f xs) = map g xs"
  using assms by (simp add: update_where_def)

lemma set_update_where: "set (update_where p f xs) = (\<lambda>x. if p x then f x else x) ` set xs"
  by (simp add: update_where_def)

lemma bex_update_where:
  "(\<exists>x \<in> set (update_where p f xs). P x) \<longleftrightarrow> (\<exists>x \<in> set xs. P (if p x then f x else x))"
  unfolding set_update_where by (simp only: bex_simps)

lemma find_update_where:
  assumes "\<And>x. P (f x) = P x"
  shows "List.find P (update_where p f xs) = map_option (\<lambda>x. if p x then f x else x) (List.find P xs)"
  using assms by (induction xs) (simp_all add: update_where_def)

end
