(* ===== verification/Byte_Range.thy ===== *)
theory Byte_Range
  imports Prelude
begin

text \<open>
  HTTP byte ranges. \<open>RangeSpec_parse\<close> models \<^verbatim>\<open>RangeSpec::parse\<close> of domains/playback/range.rs,
  \<open>DownloadRangeSpec_parse\<close> the independent parser of domains/downloads/service.rs, and
  \<open>range_response\<close> the response head that domains/playback/file_delivery.rs builds from the
  first. What a client of either parser relies on is the locale \<open>byte_ranges\<close>; both parsers
  interpret it.
\<close>

section \<open>Playback ranges\<close>

record RangeSpec =
  rs_start :: u64
  rs_end :: u64
  rs_total :: u64

datatype range_error = InvalidByteRange string

definition invalid_range :: range_error where
  "invalid_range = InvalidByteRange ''expected a satisfiable single byte range''"

text \<open>The closure \<^verbatim>\<open>number\<close>: only digits, then \<^verbatim>\<open>parse\<close>.\<close>

definition range_number :: "string \<Rightarrow> range_error + u64" where
  "range_number value =
     (if value = [] \<or> \<not> list_all is_digit value then Inl invalid_range
      else ok_or invalid_range (parse_u64 value))"

definition RangeSpec_bounds :: "string \<Rightarrow> string \<Rightarrow> u64 \<Rightarrow> range_error + (u64 \<times> u64)" where
  "RangeSpec_bounds first last' size' =
     (if first = [] then
        bind_res (range_number last') (\<lambda>suffix.
          if suffix = 0 then Inl invalid_range
          else Inr (saturating_sub size' suffix, size' - 1))
      else
        bind_res (range_number first) (\<lambda>start.
        bind_res (if last' = [] then Inr (size' - 1) else range_number last') (\<lambda>end'.
          if start \<ge> size' \<or> start > end' then Inl invalid_range
          else Inr (start, min end' (size' - 1)))))"

definition RangeSpec_parse :: "string option \<Rightarrow> u64 \<Rightarrow> range_error + RangeSpec option" where
  "RangeSpec_parse header size' =
     (case header of
        None \<Rightarrow> Inr None
      | Some header \<Rightarrow>
          if length header > 128 then Inl invalid_range
          else case split_once (CHR ''='') header of
              None \<Rightarrow> Inl invalid_range
            | Some (unit, spec) \<Rightarrow>
                if \<not> eq_ignore_ascii_case unit ''bytes'' then Inr None
                else if size' = 0 then Inl invalid_range
                else case split_once (CHR ''-'') spec of
                    None \<Rightarrow> Inl invalid_range
                  | Some (first, last') \<Rightarrow>
                      bind_res (RangeSpec_bounds first last' size') (\<lambda>(start, end').
                        Inr (Some \<lparr>rs_start = start, rs_end = end', rs_total = size'\<rparr>)))"

definition RangeSpec_content_length :: "RangeSpec \<Rightarrow> u64" where
  "RangeSpec_content_length r = rs_end r - rs_start r + 1"

definition RangeSpec_content_range_header :: "RangeSpec \<Rightarrow> string" where
  "RangeSpec_content_range_header r =
     ''bytes '' @ show_u (rs_start r) @ ''-'' @ show_u (rs_end r) @ ''/'' @ show_u (rs_total r)"

section \<open>Download ranges\<close>

record DownloadRangeSpec =
  drs_start :: u64
  drs_end :: u64
  drs_total :: u64

definition DownloadRangeSpec_bounds :: "string \<Rightarrow> u64 \<Rightarrow> range_error + (u64 \<times> u64)" where
  "DownloadRangeSpec_bounds bytes_spec file_size =
     (case strip_suffix_char (CHR ''-'') bytes_spec of
        Some rest \<Rightarrow>
          bind_res (ok_or (InvalidByteRange (''invalid start byte: '' @ rest)) (parse_u64 rest))
            (\<lambda>start. Inr (start, file_size - 1))
      | None \<Rightarrow>
          (case strip_prefix ''-'' bytes_spec of
             Some rest \<Rightarrow>
               bind_res (ok_or (InvalidByteRange (''invalid suffix length: '' @ rest)) (parse_u64 rest))
                 (\<lambda>suffix_len. Inr (saturating_sub file_size suffix_len, file_size - 1))
           | None \<Rightarrow>
               (case split_on (CHR ''-'') bytes_spec of
                  [p0, p1] \<Rightarrow>
                    bind_res (ok_or (InvalidByteRange (''invalid start: '' @ p0)) (parse_u64 p0)) (\<lambda>start.
                    bind_res
                      (if p1 = [] then Inr (file_size - 1)
                       else ok_or (InvalidByteRange (''invalid end: '' @ p1)) (parse_u64 p1))
                      (\<lambda>end'. Inr (start, end')))
                | _ \<Rightarrow> Inl (InvalidByteRange (''invalid range format: '' @ bytes_spec)))))"

definition DownloadRangeSpec_parse ::
  "string option \<Rightarrow> u64 \<Rightarrow> range_error + DownloadRangeSpec option" where
  "DownloadRangeSpec_parse header file_size =
     (case header of
        None \<Rightarrow> Inr None
      | Some header \<Rightarrow>
          if file_size = 0 then Inl (InvalidByteRange ''cannot range over an empty package file'')
          else case strip_prefix ''bytes='' header of
              None \<Rightarrow> Inl (InvalidByteRange ''expected bytes= prefix'')
            | Some bytes_spec \<Rightarrow>
                if CHR '','' \<in> set bytes_spec
                then Inl (InvalidByteRange ''multiple byte ranges are not supported'')
                else bind_res (DownloadRangeSpec_bounds bytes_spec file_size) (\<lambda>(start, end').
                  if start > end' \<or> start \<ge> file_size
                  then Inl (InvalidByteRange
                         (''range '' @ show_u start @ ''-'' @ show_u end' @
                          '' out of bounds for file size '' @ show_u file_size))
                  else Inr (Some \<lparr>drs_start = start, drs_end = min end' (file_size - 1),
                                  drs_total = file_size\<rparr>)))"

definition DownloadRangeSpec_content_length :: "DownloadRangeSpec \<Rightarrow> u64" where
  "DownloadRangeSpec_content_length r = drs_end r - drs_start r + 1"

definition DownloadRangeSpec_content_range_header :: "DownloadRangeSpec \<Rightarrow> string" where
  "DownloadRangeSpec_content_range_header r =
     ''bytes '' @ show_u (drs_start r) @ ''-'' @ show_u (drs_end r) @ ''/'' @ show_u (drs_total r)"

section \<open>The response head\<close>

datatype content = Content_Empty | Content_File u64 u64

record prepared =
  status :: nat
  headers :: "(string \<times> string) list"
  content_of :: content

text \<open>
  The part of \<^verbatim>\<open>response_scoped\<close> after the file is open: \<open>range_count\<close> is the number of Range
  fields, \<open>range_value\<close> the first one, \<open>to_str\<close> the HTTP library's conversion of a field value
  to text, \<open>content_type\<close> what \<^verbatim>\<open>guess_content_type\<close> answers for the path.
\<close>

definition range_response ::
  "('h \<Rightarrow> string option) \<Rightarrow> string \<Rightarrow> nat \<Rightarrow> 'h option \<Rightarrow> u64 \<Rightarrow> prepared" where
  "range_response to_str content_type range_count range_value size' =
     (let rng =
        (if range_count > 1 then Inl (InvalidByteRange ''multiple range fields'')
         else case range_value of
             Some value \<Rightarrow>
               bind_res (ok_or (InvalidByteRange ''non-ASCII range'') (to_str value))
                 (\<lambda>value. RangeSpec_parse (Some value) size')
           | None \<Rightarrow> Inr None)
      in case rng of
          Inl _ \<Rightarrow>
            \<lparr>status = 416,
             headers =
               [(''content-range'', ''bytes */'' @ show_u size'), (''content-length'', ''0''),
                (''accept-ranges'', ''bytes''), (''cache-control'', ''private, no-store'')],
             content_of = Content_Empty\<rparr>
        | Inr part \<Rightarrow>
            (let (status', length') =
               (case part of Some r \<Rightarrow> (206, RangeSpec_content_length r) | None \<Rightarrow> (200, size'))
             in \<lparr>status = status',
                 headers =
                   [(''content-type'', content_type), (''content-length'', show_u length'),
                    (''accept-ranges'', ''bytes''), (''cache-control'', ''private, no-store'')]
                   @ (case part of
                        Some r \<Rightarrow> [(''content-range'', RangeSpec_content_range_header r)]
                      | None \<Rightarrow> []),
                 content_of =
                   Content_File (case part of Some r \<Rightarrow> rs_start r | None \<Rightarrow> 0) length'\<rparr>))"

section \<open>What a client of a range parser relies on\<close>

locale byte_ranges =
  fixes parse :: "string option \<Rightarrow> u64 \<Rightarrow> 'e + 'r option"
    and start :: "'r \<Rightarrow> u64"
    and finish :: "'r \<Rightarrow> u64"
    and total :: "'r \<Rightarrow> u64"
    and content_length :: "'r \<Rightarrow> u64"
    and content_range :: "'r \<Rightarrow> string"
  assumes absent: "parse None n = Inr None"
    and satisfiable: "parse h n = Inr (Some r) \<Longrightarrow> start r \<le> finish r \<and> finish r < n \<and> total r = n"
    and length_eq: "content_length r = finish r - start r + 1"
    and header_eq: "content_range r =
      ''bytes '' @ show_u (start r) @ ''-'' @ show_u (finish r) @ ''/'' @ show_u (total r)"
begin

lemma content_length_exact:
  assumes "parse h n = Inr (Some r)"
  shows "unat (content_length r) = unat (finish r) - unat (start r) + 1"
proof -
  from satisfiable [OF assms] have le: "start r \<le> finish r" and lt: "finish r < n"
    by auto
  have "unat (finish r - start r) = unat (finish r) - unat (start r)"
    using le by (rule unat_sub)
  moreover have "unat (finish r) < unat n" and "unat n < 2 ^ 64"
    using lt unsigned_less [of n] by (simp_all add: word_less_nat_alt)
  ultimately show ?thesis
    by (simp add: length_eq unat_word_ariths)
qed

lemma slice_within_file:
  assumes "parse h n = Inr (Some r)"
  shows "1 \<le> unat (content_length r) \<and> unat (start r) + unat (content_length r) \<le> unat n"
  using content_length_exact [OF assms] satisfiable [OF assms]
  by (auto simp: word_le_nat_alt word_less_nat_alt)

lemma slice_length:
  assumes "parse h n = Inr (Some r)" and "length file = unat n"
  shows "length (take (unat (content_length r)) (drop (unat (start r)) file))
         = unat (content_length r)"
  using slice_within_file [OF assms(1)] assms(2) by auto

lemma header_inject:
  assumes "content_range r = content_range r'"
  shows "start r = start r' \<and> finish r = finish r' \<and> total r = total r'"
proof -
  have dash: "CHR ''-'' \<notin> set (show_u w)" and slash: "CHR ''/'' \<notin> set (show_u w)" for w :: u64
    by (simp_all add: show_u_def is_digit_def)
  from assms show ?thesis
    by (auto simp: header_eq append_sep_inject dash slash)
qed

end

section \<open>Both parsers keep the contract\<close>

lemma range_number_Inr:
  "range_number s = Inr w \<longleftrightarrow> all_digits s \<and> parse_u64 s = Some w"
  by (auto simp: range_number_def all_digits_def)

lemma saturating_sub_le_pred:
  assumes "(n :: u64) \<noteq> 0" "k \<noteq> 0"
  shows "saturating_sub n k \<le> n - 1"
proof -
  have "unat (n - 1) = unat n - 1"
    using assms(1) by (simp add: unat_minus_one)
  moreover have "unat k \<noteq> 0" using assms(2) by (simp add: unat_eq_0)
  ultimately show ?thesis by (simp add: word_le_nat_alt unat_saturating_sub)
qed

lemma RangeSpec_bounds_ok:
  assumes "RangeSpec_bounds first last' n = Inr (s, e)" and "n \<noteq> 0"
  shows "s \<le> e \<and> e < n"
proof -
  have less: "min x (n - 1) < n" for x
    using word_pred_less [OF assms(2)] by (auto simp: min_def)
  have le: "x \<le> n - 1" if "\<not> n \<le> x" for x
    using that by (simp add: word_le_pred)
  from assms show ?thesis
    by (auto simp: RangeSpec_bounds_def bind_res_Inr less word_pred_less saturating_sub_le_pred le
        split: if_splits)
qed

lemma RangeSpec_satisfiable:
  assumes "RangeSpec_parse h n = Inr (Some r)"
  shows "rs_start r \<le> rs_end r \<and> rs_end r < n \<and> rs_total r = n"
  using assms
  by (auto simp: RangeSpec_parse_def bind_res_Inr dest!: RangeSpec_bounds_ok
      split: option.splits if_splits)

lemma DownloadRangeSpec_satisfiable:
  assumes "DownloadRangeSpec_parse h n = Inr (Some r)"
  shows "drs_start r \<le> drs_end r \<and> drs_end r < n \<and> drs_total r = n"
proof -
  have le: "x \<le> n - 1" if "\<not> n \<le> x" for x
    using that by (simp add: word_le_pred)
  have less: "min x (n - 1) < n" if "n \<noteq> 0" for x
    using word_pred_less [OF that] by (auto simp: min_def)
  from assms show ?thesis
    by (auto simp: DownloadRangeSpec_parse_def bind_res_Inr le less
        split: option.splits if_splits)
qed

interpretation playback_range: byte_ranges RangeSpec_parse rs_start rs_end rs_total
  RangeSpec_content_length RangeSpec_content_range_header
  by unfold_locales
    (auto simp: RangeSpec_content_length_def RangeSpec_content_range_header_def
      dest: RangeSpec_satisfiable, simp add: RangeSpec_parse_def)

interpretation download_range: byte_ranges DownloadRangeSpec_parse drs_start drs_end drs_total
  DownloadRangeSpec_content_length DownloadRangeSpec_content_range_header
  by unfold_locales
    (auto simp: DownloadRangeSpec_content_length_def DownloadRangeSpec_content_range_header_def
      dest: DownloadRangeSpec_satisfiable, simp add: DownloadRangeSpec_parse_def)

section \<open>Properties\<close>

lemmas range_eval =
  RangeSpec_parse_def RangeSpec_bounds_def range_number_def RangeSpec_content_length_def
  DownloadRangeSpec_parse_def DownloadRangeSpec_bounds_def DownloadRangeSpec_content_length_def
  dusk_eval

text \<open>
  A range either parser accepts lies inside the file: the slice a server cuts out of a
  file of the announced size has exactly \<open>end - start + 1\<close> bytes, and the 64-bit
  \<open>content_length\<close> is that number without wrap-around.
\<close>

theorem accepted_range_slices_file:
  assumes "RangeSpec_parse h n = Inr (Some r)" and "DownloadRangeSpec_parse h' n = Inr (Some d)"
    and "length file = unat n"
  shows "length (take (unat (RangeSpec_content_length r)) (drop (unat (rs_start r)) file))
           = unat (rs_end r) - unat (rs_start r) + 1
    \<and> length (take (unat (DownloadRangeSpec_content_length d)) (drop (unat (drs_start d)) file))
           = unat (drs_end d) - unat (drs_start d) + 1"
  using playback_range.slice_length [OF assms(1,3)] playback_range.content_length_exact [OF assms(1)]
    download_range.slice_length [OF assms(2,3)] download_range.content_length_exact [OF assms(2)]
  by simp

theorem accepted_range_slices_file_witness:
  "length (take 4 (drop 2 (replicate 10 (0::nat)))) = 4
   \<and> length (take 3 (drop 7 (replicate 10 (0::nat)))) = 3"
proof -
  have p: "RangeSpec_parse (Some ''BYTES=2-5'') 10
             = Inr (Some \<lparr>rs_start = 2, rs_end = 5, rs_total = 10\<rparr>)"
    by (simp add: range_eval)
  have d: "DownloadRangeSpec_parse (Some ''bytes=-3'') 10
             = Inr (Some \<lparr>drs_start = 7, drs_end = 9, drs_total = 10\<rparr>)"
    by (simp add: range_eval)
  have len: "length (replicate 10 (0::nat)) = unat (10::u64)" by simp
  show ?thesis
    using accepted_range_slices_file [OF p d len] by (simp add: range_eval)
qed

text \<open>
  Printing and parsing agree: for every satisfiable pair of offsets the header a client
  writes in decimal parses back to exactly those offsets.
\<close>

theorem range_request_roundtrip:
  assumes "s \<le> e" and "e < n"
  shows "RangeSpec_parse (Some (''bytes='' @ show_u s @ ''-'' @ show_u e)) n
           = Inr (Some \<lparr>rs_start = s, rs_end = e, rs_total = n\<rparr>)"
proof -
  have "length (show_u s) \<le> 20" and "length (show_u e) \<le> 20"
    by (rule length_show_u64)+
  then have len: "\<not> 128 < length (''bytes='' @ show_u s @ ''-'' @ show_u e)"
    by simp
  have eq: "split_once (CHR ''='') (''bytes='' @ show_u s @ ''-'' @ show_u e)
              = Some (''bytes'', show_u s @ ''-'' @ show_u e)"
    by (simp add: split_once_Some)
  have dash: "split_once (CHR ''-'') (show_u s @ ''-'' @ show_u e) = Some (show_u s, show_u e)"
    by (simp add: split_once_Some is_digit_def)
  have "range_number (show_u w) = Inr w" for w :: u64
    by (simp add: range_number_Inr)
  moreover have "n \<noteq> 0" and "s < n" using assms by auto
  moreover have "min e (n - 1) = e" using assms(2) by (simp add: min_def word_le_pred)
  ultimately have "RangeSpec_bounds (show_u s) (show_u e) n = Inr (s, e)"
    using assms by (auto simp: RangeSpec_bounds_def)
  with len eq dash \<open>n \<noteq> 0\<close> show ?thesis
    by (simp add: RangeSpec_parse_def)
qed

theorem range_request_roundtrip_witness:
  "RangeSpec_parse (Some (''bytes='' @ show_u (0 :: u64) @ ''-'' @ show_u (18446744073709551613 :: u64))) 18446744073709551614
     = Inr (Some \<lparr>rs_start = 0, rs_end = 18446744073709551613, rs_total = 18446744073709551614\<rparr>)"
  by (rule range_request_roundtrip) simp_all

lemma digits_last:
  assumes "all_digits s" and "\<not> is_digit c"
  shows "strip_suffix_char c (p @ s) = None"
  using assms by (auto simp: strip_suffix_char_def all_digits_def list_all_iff)

lemma RangeSpec_bounds_cases:
  assumes "RangeSpec_bounds a b n = Inr (s, e)" and "n \<noteq> 0"
  obtains (suffix) k where "a = []" "all_digits b" "parse_u64 b = Some k" "k \<noteq> 0"
      "s = saturating_sub n k" "e = n - 1"
  | (open_end) "all_digits a" "b = []" "parse_u64 a = Some s" "s < n" "e = n - 1"
  | (closed) e' where "all_digits a" "all_digits b" "parse_u64 a = Some s" "parse_u64 b = Some e'"
      "s \<le> e'" "s < n" "e = min e' (n - 1)"
  using assms
  by (auto simp: RangeSpec_bounds_def bind_res_Inr range_number_Inr split: if_splits)

text \<open>
  The two independently written parsers agree wherever the stricter one accepts: a header
  with the literal unit \<open>bytes\<close> that playback serves, downloads serve with the same offsets.
\<close>

theorem download_parser_agrees:
  assumes "RangeSpec_parse (Some h) n = Inr (Some r)" and "starts_with h ''bytes=''"
  shows "DownloadRangeSpec_parse (Some h) n
           = Inr (Some \<lparr>drs_start = rs_start r, drs_end = rs_end r, drs_total = rs_total r\<rparr>)"
proof -
  obtain u spec a b s e where h: "split_once (CHR ''='') h = Some (u, spec)"
    and spec: "split_once (CHR ''-'') spec = Some (a, b)" and n: "n \<noteq> 0"
    and bounds: "RangeSpec_bounds a b n = Inr (s, e)"
    and r: "r = \<lparr>rs_start = s, rs_end = e, rs_total = n\<rparr>"
    using assms(1) by (auto simp: RangeSpec_parse_def bind_res_Inr split: option.splits if_splits)
  from assms(2) obtain t where t: "h = ''bytes='' @ t"
    unfolding starts_with_def by (metis append_take_drop_id)
  then have "split_once (CHR ''='') h = Some (''bytes'', t)" by (simp add: split_once_Some)
  with h have "t = spec" by simp
  with t have prefix: "strip_prefix ''bytes='' h = Some spec"
    by (simp add: strip_prefix_def starts_with_def)
  from spec have s0: "spec = a @ CHR ''-'' # b" and a0: "CHR ''-'' \<notin> set a"
    by (simp_all add: split_once_Some)
  have nodash: "CHR ''-'' \<notin> set x" and nocomma: "CHR '','' \<notin> set x" if "all_digits x" for x
    using that digits_no_char [of x] by (auto simp: is_digit_def)
  have goal: ?thesis
    if c: "CHR '','' \<notin> set spec" and d: "DownloadRangeSpec_bounds spec n = Inr (s, e')"
      and "s \<le> e'" "s < n" "e = min e' (n - 1)" for e'
    using that n prefix by (auto simp: DownloadRangeSpec_parse_def r)
  from bounds n show ?thesis
  proof (cases rule: RangeSpec_bounds_cases)
    case (suffix k)
    then have "strip_suffix_char (CHR ''-'') spec = None"
      using digits_last [of b "CHR ''-''" "''-''"] by (simp add: s0 is_digit_def)
    with suffix have "DownloadRangeSpec_bounds spec n = Inr (s, n - 1)"
      by (simp add: DownloadRangeSpec_bounds_def s0 strip_prefix_def starts_with_def)
    with suffix n show ?thesis
      using saturating_sub_le_pred word_pred_less nocomma [of b]
      by (intro goal [of "n - 1"]) (auto simp: s0 intro: le_less_trans)
  next
    case open_end
    then have "DownloadRangeSpec_bounds spec n = Inr (s, n - 1)"
      by (simp add: DownloadRangeSpec_bounds_def s0 strip_suffix_char_def)
    with open_end show ?thesis
      using nocomma [of a] by (intro goal [of "n - 1"]) (auto simp: s0 word_le_pred)
  next
    case (closed e')
    then have "strip_suffix_char (CHR ''-'') spec = None"
      using digits_last [of b "CHR ''-''" "a @ ''-''"] by (simp add: s0 is_digit_def)
    moreover have "strip_prefix ''-'' spec = None"
      using closed a0 by (cases a) (auto simp: s0 strip_prefix_def starts_with_def all_digits_def)
    moreover have "split_on (CHR ''-'') spec = [a, b]"
      using a0 nodash [of b] closed by (simp add: s0 split_on_single)
    moreover have "b \<noteq> []" using closed by (auto simp: all_digits_def)
    ultimately have "DownloadRangeSpec_bounds spec n = Inr (s, e')"
      using closed by (simp add: DownloadRangeSpec_bounds_def)
    with closed show ?thesis
      using nocomma [of a] nocomma [of b] by (intro goal [of e']) (auto simp: s0)
  qed
qed

theorem download_parser_agrees_witness:
  "DownloadRangeSpec_parse (Some ''bytes=3-'') 10
     = Inr (Some \<lparr>drs_start = 3, drs_end = 9, drs_total = 10\<rparr>)"
proof -
  have p: "RangeSpec_parse (Some ''bytes=3-'') 10
             = Inr (Some \<lparr>rs_start = 3, rs_end = 9, rs_total = 10\<rparr>)"
    by (simp add: range_eval)
  have "starts_with ''bytes=3-'' ''bytes=''" by (simp add: starts_with_def)
  from download_parser_agrees [OF p this] show ?thesis by simp
qed

text \<open>
  C7. The response head is honest on every branch: a 416 has no body and is sent exactly when
  there are several Range fields or the one field is unreadable or unsatisfiable; a 200 serves
  the whole file, and only when there is no Range field or one of another unit; a 206 serves a non-empty slice inside the file, announced by both the length
  and the Content-Range field.
\<close>

theorem range_response_contract:
  "case content_of (range_response to_str ct k v n) of
     Content_Empty \<Rightarrow>
       status (range_response to_str ct k v n) = 416
       \<and> (''content-length'', ''0'') \<in> set (headers (range_response to_str ct k v n))
       \<and> (k > 1 \<or> (\<exists>x. v = Some x \<and>
            (to_str x = None \<or> (\<exists>t e. to_str x = Some t \<and> RangeSpec_parse (Some t) n = Inl e))))
   | Content_File off len \<Rightarrow>
       k \<le> 1 \<and> unat off + unat len \<le> unat n
       \<and> (''content-length'', show_u len) \<in> set (headers (range_response to_str ct k v n))
       \<and> (status (range_response to_str ct k v n) = 200 \<and> off = 0 \<and> len = n
            \<and> (v = None \<or> (\<exists>x t. v = Some x \<and> to_str x = Some t \<and> RangeSpec_parse (Some t) n = Inr None))
          \<or> status (range_response to_str ct k v n) = 206 \<and> 1 \<le> unat len
            \<and> (\<exists>x t r. v = Some x \<and> to_str x = Some t \<and> RangeSpec_parse (Some t) n = Inr (Some r)
                 \<and> off = rs_start r \<and> len = RangeSpec_content_length r
                 \<and> (''content-range'', RangeSpec_content_range_header r)
                     \<in> set (headers (range_response to_str ct k v n))))"
proof -
  have part: "1 \<le> unat (RangeSpec_content_length r) \<and>
    unat (rs_start r) + unat (RangeSpec_content_length r) \<le> unat n"
    if "RangeSpec_parse (Some t) n = Inr (Some r)" for t r
    using playback_range.slice_within_file [OF that] by simp
  show ?thesis
    by (auto simp: range_response_def bind_res_def ok_or_def Let_def Suc_le_eq
        split: sum.splits option.splits dest: part)
qed

end
