(* ===== verification/F64.thy ===== *)
theory F64
  imports Complex_Main "HOL-Library.Log_Nat" Prelude
begin

text \<open>
  Rust's \<open>f64\<close>: IEEE 754 binary64 with round-to-nearest, ties-to-even. A finite double is the
  rational it denotes, so the two zeros are one value (no modelled operation divides by a float
  or prints one, so they cannot be told apart). \<open>f64_round\<close> is the rounding of the exact
  result that every arithmetic operation and every conversion applies; casts back to integers
  saturate, and send NaN to zero.
\<close>

datatype f64 = NaN | Inf bool | Fin rat

text \<open>\<open>Inf True\<close> is negative infinity.\<close>

definition pow2 :: "int \<Rightarrow> rat" where
  "pow2 e = (if 0 \<le> e then 2 ^ nat e else 1 / 2 ^ nat (- e))"

text \<open>The exponent \<open>e\<close> with \<open>2 ^ e \<le> x < 2 ^ (e + 1)\<close> of a positive rational.\<close>

definition ilog2 :: "rat \<Rightarrow> int" where
  "ilog2 x =
     (let (p, q) = quotient_of x; k = bitlen p - bitlen q
      in if pow2 k \<le> x then k else k - 1)"

definition round_even :: "rat \<Rightarrow> int" where
  "round_even x =
     (let f = \<lfloor>x\<rfloor>; d = x - of_int f
      in if d < 1 / 2 then f else if d > 1 / 2 then f + 1 else if even f then f else f + 1)"

definition f64_round :: "rat \<Rightarrow> f64" where
  "f64_round x =
     (if x = 0 then Fin 0
      else let a = \<bar>x\<bar>; e = max (ilog2 a - 52) (- 1074);
               r = of_int (round_even (a / pow2 e)) * pow2 e
           in if r \<ge> pow2 1024 then Inf (x < 0) else Fin (if x < 0 then - r else r))"

definition f64_of_int :: "int \<Rightarrow> f64" where
  "f64_of_int i = f64_round (of_int i)"

definition f64_of_u64 :: "u64 \<Rightarrow> f64" where
  "f64_of_u64 w = f64_of_int (uint w)"

definition f64_neg :: "f64 \<Rightarrow> f64" where
  "f64_neg x = (case x of NaN \<Rightarrow> NaN | Inf s \<Rightarrow> Inf (\<not> s) | Fin r \<Rightarrow> Fin (- r))"

definition f64_abs :: "f64 \<Rightarrow> f64" where
  "f64_abs x = (case x of NaN \<Rightarrow> NaN | Inf _ \<Rightarrow> Inf False | Fin r \<Rightarrow> Fin \<bar>r\<bar>)"

definition f64_add :: "f64 \<Rightarrow> f64 \<Rightarrow> f64" where
  "f64_add x y =
     (case (x, y) of
        (NaN, _) \<Rightarrow> NaN
      | (_, NaN) \<Rightarrow> NaN
      | (Inf s, Inf t) \<Rightarrow> (if s = t then Inf s else NaN)
      | (Inf s, Fin _) \<Rightarrow> Inf s
      | (Fin _, Inf t) \<Rightarrow> Inf t
      | (Fin a, Fin b) \<Rightarrow> f64_round (a + b))"

definition f64_sub :: "f64 \<Rightarrow> f64 \<Rightarrow> f64" where
  "f64_sub x y = f64_add x (f64_neg y)"

definition f64_mul :: "f64 \<Rightarrow> f64 \<Rightarrow> f64" where
  "f64_mul x y =
     (case (x, y) of
        (NaN, _) \<Rightarrow> NaN
      | (_, NaN) \<Rightarrow> NaN
      | (Inf s, Inf t) \<Rightarrow> Inf (s \<noteq> t)
      | (Inf s, Fin b) \<Rightarrow> (if b = 0 then NaN else Inf (s \<noteq> (b < 0)))
      | (Fin a, Inf t) \<Rightarrow> (if a = 0 then NaN else Inf ((a < 0) \<noteq> t))
      | (Fin a, Fin b) \<Rightarrow> f64_round (a * b))"

text \<open>Comparisons with NaN are false.\<close>

definition f64_lt :: "f64 \<Rightarrow> f64 \<Rightarrow> bool" where
  "f64_lt x y \<longleftrightarrow>
     (case (x, y) of
        (NaN, _) \<Rightarrow> False
      | (_, NaN) \<Rightarrow> False
      | (Inf s, Inf t) \<Rightarrow> s \<and> \<not> t
      | (Inf s, Fin _) \<Rightarrow> s
      | (Fin _, Inf t) \<Rightarrow> \<not> t
      | (Fin a, Fin b) \<Rightarrow> a < b)"

definition f64_eq :: "f64 \<Rightarrow> f64 \<Rightarrow> bool" where
  "f64_eq x y \<longleftrightarrow> x \<noteq> NaN \<and> x = y"

definition f64_le :: "f64 \<Rightarrow> f64 \<Rightarrow> bool" where
  "f64_le x y \<longleftrightarrow> f64_lt x y \<or> f64_eq x y"

definition f64_EPSILON :: f64 where
  "f64_EPSILON = Fin (pow2 (- 52))"

text \<open>Saturating casts truncate towards zero.\<close>

definition rat_trunc :: "rat \<Rightarrow> int" where
  "rat_trunc r = (if r < 0 then - \<lfloor>- r\<rfloor> else \<lfloor>r\<rfloor>)"

definition f64_to_int :: "int \<Rightarrow> int \<Rightarrow> f64 \<Rightarrow> int" where
  "f64_to_int lo hi x =
     (case x of NaN \<Rightarrow> 0 | Inf s \<Rightarrow> (if s then lo else hi) | Fin r \<Rightarrow> max lo (min hi (rat_trunc r)))"

definition f64_to_u64 :: "f64 \<Rightarrow> u64" where
  "f64_to_u64 x = word_of_int (f64_to_int 0 (2 ^ 64 - 1) x)"

definition f64_to_i64 :: "f64 \<Rightarrow> int" where
  "f64_to_i64 x = f64_to_int (- (2 ^ 63)) (2 ^ 63 - 1) x"

section \<open>Rounding\<close>

lemma pow2_pos [simp]: "0 < pow2 e"
  by (simp add: pow2_def)

lemma pow2_nonneg [simp]: "0 \<le> pow2 e"
  by (simp add: pow2_def)

lemma pow2_nonzero [simp]: "pow2 e \<noteq> 0"
  by (simp add: pow2_def)

lemma pow2_nat: "pow2 (int n) = 2 ^ n"
  by (simp add: pow2_def)

lemma round_even_of_int [simp]: "round_even (of_int i) = i"
  by (simp add: round_even_def)

lemma round_even_le: "x \<le> of_int i \<Longrightarrow> round_even x \<le> i"
proof -
  assume le: "x \<le> of_int i"
  then have f: "\<lfloor>x\<rfloor> \<le> i" by linarith
  show ?thesis
  proof (cases "\<lfloor>x\<rfloor> = i")
    case True
    with le have "x = of_int i" by linarith
    then show ?thesis by simp
  next
    case False
    with f have "\<lfloor>x\<rfloor> + 1 \<le> i" by simp
    then show ?thesis by (auto simp: round_even_def Let_def)
  qed
qed

lemma round_even_ge: "of_int i \<le> x \<Longrightarrow> i \<le> round_even x"
proof -
  assume "of_int i \<le> x"
  then have "i \<le> \<lfloor>x\<rfloor>" by (simp add: le_floor_iff)
  then show ?thesis by (auto simp: round_even_def Let_def)
qed

lemma pow2_int_quotient:
  assumes "e \<le> 0"
  shows "of_int n / pow2 e = (of_int (n * 2 ^ nat (- e)) :: rat)"
  using assms by (auto simp: pow2_def)

lemma pow2_powi: "pow2 e = 2 powi e"
  by (auto simp: pow2_def power_int_def power_one_over)

lemma pow2_add: "pow2 (a + b) = pow2 a * pow2 b"
  by (simp add: pow2_powi power_int_add)

lemma pow2_diff: "pow2 (a - b) = pow2 a / pow2 b"
  by (simp add: pow2_powi power_int_diff)

lemma pow2_mono: "a \<le> b \<Longrightarrow> pow2 a \<le> pow2 b"
  by (simp add: pow2_powi power_int_increasing)

lemma pow2_bitlen:
  assumes "0 < p"
  shows "pow2 (bitlen p - 1) \<le> of_int p \<and> of_int p < pow2 (bitlen p)"
proof -
  have b: "2 ^ nat (bitlen p - 1) \<le> p" "p < 2 ^ nat (bitlen p)"
    using bitlen_bounds [OF assms] by auto
  have pos: "0 < bitlen p" using bitlen_nonneg [of p] assms bitlen_eq_zero_iff [of p] by linarith
  then have "pow2 (bitlen p - 1) = of_int (2 ^ nat (bitlen p - 1))"
    and "pow2 (bitlen p) = of_int (2 ^ nat (bitlen p))"
    by (simp_all add: pow2_def)
  with b show ?thesis by (metis of_int_le_iff of_int_less_iff)
qed

lemma ilog2_bounds:
  assumes "0 < x"
  shows "pow2 (ilog2 x) \<le> x \<and> x < pow2 (ilog2 x + 1)"
proof -
  obtain p q where pq: "quotient_of x = (p, q)" by (cases "quotient_of x")
  have q: "0 < q" using quotient_of_denom_pos [OF pq] .
  have x: "x = of_int p / of_int q" using quotient_of_div [OF pq] .
  with assms q have p: "0 < p" by (simp add: zero_less_divide_iff)
  let ?a = "bitlen p" and ?b = "bitlen q"
  have P: "pow2 (?a - 1) \<le> of_int p" "of_int p < pow2 ?a"
    and Q: "pow2 (?b - 1) \<le> of_int q" "of_int q < pow2 ?b"
    using pow2_bitlen p q by auto
  have up: "x < pow2 (?a - ?b + 1)"
  proof -
    have "x < pow2 ?a / pow2 (?b - 1)"
      unfolding x using P Q q p by (intro frac_less) auto
    also have "\<dots> = pow2 (?a - ?b + 1)" by (simp flip: pow2_diff add: algebra_simps)
    finally show ?thesis .
  qed
  have low: "pow2 (?a - ?b - 1) \<le> x"
  proof -
    have "pow2 (?a - 1 - ?b) = pow2 (?a - 1) / pow2 ?b" by (rule pow2_diff)
    also have "\<dots> \<le> x"
      unfolding x using P Q q p by (intro frac_le) auto
    finally show ?thesis by (simp add: algebra_simps)
  qed
  show ?thesis
    using up low by (auto simp: ilog2_def pq Let_def algebra_simps)
qed

text \<open>
  Integers up to \<open>2 ^ 53\<close> are doubles: rounding leaves them unchanged and cannot carry a
  smaller non-negative value past one. The unit in the last place of such a value is at most
  one, but for \<open>2 ^ 53\<close> itself.
\<close>

definition ulp_exp :: "rat \<Rightarrow> int" where
  "ulp_exp x = max (ilog2 x - 52) (- 1074)"

lemma ulp_exp_small:
  assumes "0 < x" and "x \<le> 2 ^ 53"
  shows "ulp_exp x \<le> 0 \<or> ulp_exp x = 1 \<and> x = 2 ^ 53"
proof (cases "ulp_exp x \<le> 0")
  case False
  then have l: "53 \<le> ilog2 x" by (simp add: ulp_exp_def)
  then have "pow2 53 \<le> x" using ilog2_bounds [OF assms(1)] pow2_mono [OF l] by linarith
  with assms(2) have x: "x = 2 ^ 53" by (simp add: pow2_def)
  have "pow2 54 > x" by (simp add: x pow2_def)
  with ilog2_bounds [OF assms(1)] have "pow2 (ilog2 x) < pow2 54" by linarith
  then have "ilog2 x < 54" using pow2_mono [of 54 "ilog2 x"] by force
  with l x show ?thesis by (simp add: ulp_exp_def)
qed simp

lemma f64_round_pos:
  assumes "0 < x" and "of_int (round_even (x / pow2 (ulp_exp x))) * pow2 (ulp_exp x) \<le> 2 ^ 53"
  shows "f64_round x = Fin (of_int (round_even (x / pow2 (ulp_exp x))) * pow2 (ulp_exp x))"
proof -
  have "(2 :: rat) ^ 53 < 2 ^ 1024" by (rule power_strict_increasing) simp_all
  then have "(2 :: rat) ^ 53 < pow2 1024" by (simp add: pow2_def del: power_numeral)
  with assms show ?thesis by (simp add: f64_round_def Let_def ulp_exp_def)
qed

lemma round_at_two53: "round_even (2 ^ 53 / pow2 1) = 2 ^ 52"
proof -
  have "(2 ^ 53 / pow2 1 :: rat) = of_int (2 ^ 52)" by (simp add: pow2_def)
  then show ?thesis by (simp only: round_even_of_int)
qed

lemma f64_round_le_int:
  assumes "0 < x" and "x \<le> of_int n" and n: "of_int n \<le> (2 ^ 53 :: rat)"
  shows "\<exists>r. f64_round x = Fin r \<and> 0 \<le> r \<and> r \<le> of_int n"
proof -
  define e where "e = ulp_exp x"
  define r where "r = of_int (round_even (x / pow2 e)) * pow2 e"
  have "0 \<le> round_even (x / pow2 e)" using assms(1) round_even_ge [of 0] by simp
  then have r0: "0 \<le> r" by (simp add: r_def)
  have le: "r \<le> of_int n"
  proof (cases "e \<le> 0")
    case True
    have "x / pow2 e \<le> of_int n / pow2 e"
      using assms(2) by (simp add: divide_right_mono)
    then have "x / pow2 e \<le> of_int (n * 2 ^ nat (- e))"
      by (simp only: pow2_int_quotient [OF True])
    then have "of_int (round_even (x / pow2 e)) \<le> (of_int (n * 2 ^ nat (- e)) :: rat)"
      using round_even_le by (metis of_int_le_iff)
    then have "r \<le> of_int n / pow2 e * pow2 e"
      unfolding r_def pow2_int_quotient [OF True] by (rule mult_right_mono) simp
    then show ?thesis using pow2_pos [of e] by simp
  next
    case False
    with ulp_exp_small [of x] assms have e: "e = 1" and x: "x = 2 ^ 53" by (auto simp: e_def)
    have "r = 2 ^ 52 * 2" by (simp only: r_def e x round_at_two53) (simp add: pow2_def)
    with assms(2) x show ?thesis by simp
  qed
  moreover have "f64_round x = Fin r"
    using f64_round_pos [OF assms(1)] le n by (simp add: r_def e_def)
  ultimately show ?thesis using r0 by blast
qed

lemma f64_round_int:
  assumes "0 \<le> n" and "n \<le> 2 ^ 53"
  shows "f64_round (of_int n) = Fin (of_int n)"
proof (cases "n = 0")
  case True
  then show ?thesis by (simp add: f64_round_def)
next
  case False
  define x where "x = (of_int n :: rat)"
  define e where "e = ulp_exp x"
  have pos: "0 < x" using False assms(1) by (simp add: x_def)
  have "x \<le> of_int (2 ^ 53)" using assms(2) unfolding x_def by (simp only: of_int_le_iff)
  then have le: "x \<le> 2 ^ 53" by simp
  have "of_int (round_even (x / pow2 e)) * pow2 e = x"
  proof (cases "e \<le> 0")
    case True
    have "x / pow2 e = of_int (n * 2 ^ nat (- e))"
      unfolding x_def by (rule pow2_int_quotient [OF True])
    then have "of_int (round_even (x / pow2 e)) = x / pow2 e"
      by (simp only: round_even_of_int)
    then show ?thesis using pow2_pos [of e] by simp
  next
    case False
    with ulp_exp_small [OF pos le] have e: "e = 1" and x: "x = 2 ^ 53" by (auto simp: e_def)
    show ?thesis by (simp only: e x round_at_two53) (simp add: pow2_def)
  qed
  then show ?thesis
    using f64_round_pos [OF pos] le by (simp add: e_def x_def)
qed

text \<open>
  Scaling a 53-bit unsigned integer by a factor in the unit interval and casting back never
  exceeds the integer.
\<close>

lemma f64_scale_le:
  assumes "unat w \<le> 2 ^ 53" and "0 \<le> f" and "f \<le> 1"
  shows "f64_to_u64 (f64_mul (f64_of_u64 w) (Fin f)) \<le> w"
proof -
  define m where "m = uint w"
  have "int (unat w) \<le> int (2 ^ 53)" using assms(1) by (simp only: of_nat_le_iff)
  then have m: "0 \<le> m" "m \<le> 2 ^ 53" by (simp_all add: m_def)
  have "of_int m \<le> (of_int (2 ^ 53) :: rat)" using m(2) by (simp only: of_int_le_iff)
  then have n: "of_int m \<le> (2 ^ 53 :: rat)" by simp
  have conv: "f64_of_u64 w = Fin (of_int m)"
    unfolding f64_of_u64_def f64_of_int_def m_def [symmetric] by (rule f64_round_int [OF m])
  have x: "0 \<le> of_int m * f" "of_int m * f \<le> of_int m"
    using assms(2,3) m(1) by (simp_all add: mult_left_le)
  have "\<exists>r. f64_round (of_int m * f) = Fin r \<and> 0 \<le> r \<and> r \<le> of_int m"
  proof (cases "of_int m * f = 0")
    case True
    then show ?thesis using m(1) by (simp only: f64_round_def) simp
  next
    case False
    with x have "0 < of_int m * f" by linarith
    from f64_round_le_int [OF this x(2) n] show ?thesis .
  qed
  then obtain r where r: "f64_round (of_int m * f) = Fin r" "0 \<le> r" "r \<le> of_int m" by blast
  have t: "0 \<le> rat_trunc r" "rat_trunc r \<le> m"
    using r(2,3) by (auto simp: rat_trunc_def) linarith
  have lt: "m < 2 ^ 64" using m(2) by simp
  with t have "f64_to_int 0 (2 ^ 64 - 1) (Fin r) = rat_trunc r" by (simp add: f64_to_int_def)
  with t lt have "uint (f64_to_u64 (Fin r)) = rat_trunc r"
    by (simp add: f64_to_u64_def uint_word_of_int_eq take_bit_int_eq_self)
  with t conv r(1) show ?thesis by (simp add: f64_mul_def word_le_def m_def)
qed

end
