(* ===== verification/Json.thy ===== *)
theory Json
  imports F64
begin

text \<open>
  JSON values as the server reads them from JSONB columns: the constructors of
  \<^verbatim>\<open>serde_json::Value\<close>, numbers in its three representations, objects as association lists
  with the lookup the code uses. \<open>parse_f64\<close> is the grammar of Rust's \<^verbatim>\<open>f64::from_str\<close>.
\<close>

datatype jnum = PosInt u64 | NegInt int | Float f64

datatype json =
    JNull
  | JBool bool
  | JNumber jnum
  | JString string
  | JArray "json list"
  | JObject "(string \<times> json) list"

definition as_bool :: "json \<Rightarrow> bool option" where
  "as_bool v = (case v of JBool b \<Rightarrow> Some b | _ \<Rightarrow> None)"

definition as_str :: "json \<Rightarrow> string option" where
  "as_str v = (case v of JString s \<Rightarrow> Some s | _ \<Rightarrow> None)"

definition as_array :: "json \<Rightarrow> json list option" where
  "as_array v = (case v of JArray xs \<Rightarrow> Some xs | _ \<Rightarrow> None)"

definition as_object :: "json \<Rightarrow> (string \<times> json) list option" where
  "as_object v = (case v of JObject m \<Rightarrow> Some m | _ \<Rightarrow> None)"

definition is_object :: "json \<Rightarrow> bool" where
  "is_object v \<longleftrightarrow> as_object v \<noteq> None"

text \<open>\<^verbatim>\<open>Value::get\<close> with a string index: the member of an object, nothing for other values.\<close>

definition jget :: "json \<Rightarrow> string \<Rightarrow> json option" where
  "jget v k = (case v of JObject m \<Rightarrow> map_of m k | _ \<Rightarrow> None)"

definition as_u64 :: "json \<Rightarrow> u64 option" where
  "as_u64 v = (case v of JNumber (PosInt n) \<Rightarrow> Some n | _ \<Rightarrow> None)"

definition number_as_i64 :: "jnum \<Rightarrow> int option" where
  "number_as_i64 n =
     (case n of
        PosInt w \<Rightarrow> (if uint w < 2 ^ 63 then Some (uint w) else None)
      | NegInt i \<Rightarrow> Some i
      | Float _ \<Rightarrow> None)"

definition number_as_f64 :: "jnum \<Rightarrow> f64 option" where
  "number_as_f64 n =
     (case n of PosInt w \<Rightarrow> Some (f64_of_u64 w) | NegInt i \<Rightarrow> Some (f64_of_int i) | Float x \<Rightarrow> Some x)"

section \<open>Parsing a double\<close>

definition span_digits :: "string \<Rightarrow> string \<times> string" where
  "span_digits s = (takeWhile is_digit s, dropWhile is_digit s)"

definition split_sign :: "string \<Rightarrow> bool \<times> string" where
  "split_sign s =
     (case s of
        [] \<Rightarrow> (False, s)
      | c # cs \<Rightarrow> (if c = CHR ''-'' then (True, cs) else if c = CHR ''+'' then (False, cs) else (False, s)))"

definition parse_exponent :: "string \<Rightarrow> int option" where
  "parse_exponent s =
     (case s of
        [] \<Rightarrow> Some 0
      | c # cs \<Rightarrow>
          (if c = CHR ''e'' \<or> c = CHR ''E'' then
             (let (neg, ds) = split_sign cs
              in if all_digits ds
                 then Some (if neg then - int (nat_of_digits ds) else int (nat_of_digits ds))
                 else None)
           else None))"

definition pow10 :: "int \<Rightarrow> rat" where
  "pow10 e = (if 0 \<le> e then 10 ^ nat e else 1 / 10 ^ nat (- e))"

definition parse_decimal :: "string \<Rightarrow> rat option" where
  "parse_decimal s =
     (let (whole, rest) = span_digits s;
          (frac, rest') =
            (case rest of
               [] \<Rightarrow> ([], rest)
             | c # cs \<Rightarrow> (if c = CHR ''.'' then span_digits cs else ([], rest)))
      in if whole = [] \<and> frac = [] then None
         else map_option
           (\<lambda>e. of_nat (nat_of_digits (whole @ frac)) * pow10 (e - int (length frac)))
           (parse_exponent rest'))"

definition parse_f64 :: "string \<Rightarrow> f64 option" where
  "parse_f64 s =
     (let (neg, body) = split_sign s;
          sign = (\<lambda>x. if neg then f64_neg x else x)
      in if eq_ignore_ascii_case body ''inf'' \<or> eq_ignore_ascii_case body ''infinity''
         then Some (sign (Inf False))
         else if eq_ignore_ascii_case body ''nan'' then Some NaN
         else map_option (\<lambda>r. sign (f64_round r)) (parse_decimal body))"

end
