(* ===== verification/Codec_Compat.thy ===== *)
theory Codec_Compat
  imports Prelude
begin

text \<open>
  services/decision_engine/compatibility.rs: whether a codec, a container or a dynamic range of
  a file is one the device reports, up to aliases, case and surrounding white space. All three
  checks compare canonical names; the locale \<open>canonical_names\<close> holds what follows from a
  canonicalisation being idempotent, and the three canonicalisations interpret it. A
  \<^verbatim>\<open>HashSet<String>\<close> is a \<open>string set\<close>.
\<close>

definition CODEC_ALIASES :: "(string \<times> string list) list" where
  "CODEC_ALIASES =
    [(''h264'', [''h264'', ''avc'', ''avc1'']),
     (''hevc'', [''hevc'', ''h265'', ''hvc1'', ''hev1'']),
     (''av1'', [''av1'', ''av01'']),
     (''vp9'', [''vp9'', ''vp09'']),
     (''mpeg2video'', [''mpeg2video'', ''mpeg2'']),
     (''mpeg4'', [''mpeg4'', ''mp4v'']),
     (''vc1'', [''vc1'', ''vc-1'']),
     (''vp8'', [''vp8'']),
     (''aac'', [''aac'']),
     (''ac3'', [''ac3'', ''ac-3'']),
     (''eac3'', [''eac3'', ''e-ac-3'', ''dd+'', ''dolby_digital_plus'']),
     (''truehd'', [''truehd'', ''thd'', ''thd+atmos'']),
     (''dts'', [''dts'']),
     (''dts_hd_ma'', [''dts-hd_ma'', ''dts_hd_ma'']),
     (''dts_hd_hra'', [''dts-hd_hra'', ''dts_hd_hra'']),
     (''flac'', [''flac'']),
     (''opus'', [''opus'']),
     (''vorbis'', [''vorbis'']),
     (''pcm'', [''pcm'', ''lpcm'']),
     (''alac'', [''alac'']),
     (''mp3'', [''mp3''])]"

definition canonical_codec :: "string \<Rightarrow> string" where
  "canonical_codec codec =
     (let normalized = to_ascii_lowercase (trim codec)
      in case find_map (\<lambda>(canonical, aliases).
                 if normalized \<in> set aliases then Some canonical else None) CODEC_ALIASES of
           Some canonical \<Rightarrow> canonical
         | None \<Rightarrow> normalized)"

definition known_identifier :: "string \<Rightarrow> bool" where
  "known_identifier identifier \<longleftrightarrow>
     identifier \<notin> {'''', ''unknown'', ''none'', ''n/a'', ''und'', ''unspecified''}
     \<and> CHR '','' \<notin> set identifier"

definition codec_supported :: "string \<Rightarrow> string set \<Rightarrow> bool" where
  "codec_supported codec supported \<longleftrightarrow>
     (let codec = canonical_codec codec
      in known_identifier codec
         \<and> (\<exists>supported_codec \<in> supported. codec = canonical_codec supported_codec))"

definition canonical_container :: "string \<Rightarrow> string" where
  "canonical_container container =
     (let normalized = to_ascii_lowercase (trim container)
      in if normalized = ''mkv'' then ''matroska''
         else if normalized = ''quicktime'' then ''mov''
         else if normalized \<in> {''ts'', ''m2ts'', ''mts''} then ''mpegts''
         else if normalized \<in> {''mpg'', ''mpegps'', ''mpeg-ps''} then ''mpeg''
         else normalized)"

definition container_supported :: "string \<Rightarrow> string set \<Rightarrow> bool" where
  "container_supported container supported \<longleftrightarrow>
     list_all (\<lambda>source.
         let source = canonical_container source
         in known_identifier source
            \<and> (\<exists>formats \<in> supported.
                 list_ex (\<lambda>format. source = canonical_container format)
                   (split_on (CHR '','') formats)))
       (split_on (CHR '','') container)"

text \<open>The closure \<^verbatim>\<open>canonical\<close> of \<^verbatim>\<open>hdr_supported\<close>.\<close>

definition canonical_hdr :: "string \<Rightarrow> string" where
  "canonical_hdr format =
     (let value = to_ascii_lowercase (trim format)
      in if value = ''hdr10+'' then ''hdr10_plus'' else value)"

definition hdr_supported :: "string \<Rightarrow> string set \<Rightarrow> bool" where
  "hdr_supported dynamic_range supported \<longleftrightarrow>
     (let dynamic_range = canonical_hdr dynamic_range
      in dynamic_range = ''sdr''
         \<or> (\<exists>format \<in> supported. canonical_hdr format = dynamic_range))"

section \<open>Canonical names\<close>

locale canonical_names =
  fixes canon :: "string \<Rightarrow> string"
  assumes canon_idem: "canon (canon s) = canon s"
    and canon_normal: "canon (to_ascii_lowercase (trim s)) = canon s"
begin

definition same :: "string \<Rightarrow> string \<Rightarrow> bool" where
  "same a b \<longleftrightarrow> canon a = canon b"

lemma same_refl: "same a a"
  by (simp add: same_def)

lemma same_sym: "same a b \<Longrightarrow> same b a"
  by (simp add: same_def)

lemma same_trans: "same a b \<Longrightarrow> same b c \<Longrightarrow> same a c"
  by (simp add: same_def)

lemma same_canon: "same (canon a) a"
  by (simp add: same_def canon_idem)

lemma same_case_insensitive: "eq_ignore_ascii_case (trim a) (trim b) \<Longrightarrow> same a b"
  by (metis canon_normal eq_ignore_ascii_case_def same_def)

lemma reported_canonical: "(\<exists>b \<in> canon ` S. x = canon b) \<longleftrightarrow> (\<exists>b \<in> S. x = canon b)"
  by (auto simp: canon_idem)

end

lemma canonical_codec_cases:
  obtains "canonical_codec s \<in> set (map fst CODEC_ALIASES)"
  | "canonical_codec s = to_ascii_lowercase (trim s)"
    "\<And>c as. (c, as) \<in> set CODEC_ALIASES \<Longrightarrow> to_ascii_lowercase (trim s) \<notin> set as"
proof -
  let ?n = "to_ascii_lowercase (trim s)"
  have "case find_map (\<lambda>(c, as). if ?n \<in> set as then Some c else None) xs of
          Some c \<Rightarrow> c \<in> set (map fst xs) | None \<Rightarrow> (\<forall>(c, as) \<in> set xs. ?n \<notin> set as)" for xs
    by (induction xs) (auto split: prod.splits option.splits)
  from this [of CODEC_ALIASES] show thesis
    using that unfolding canonical_codec_def Let_def by (auto split: option.splits)
qed

text \<open>Each canonical name is its own first alias match, and is already normalised.\<close>

lemma canonical_codec_fixed:
  "list_all (\<lambda>c. canonical_codec c = c) (map fst CODEC_ALIASES)"
  by (simp add: CODEC_ALIASES_def canonical_codec_def dusk_eval)

lemma canonical_codec_idem: "canonical_codec (canonical_codec s) = canonical_codec s"
proof (cases rule: canonical_codec_cases [of s])
  case 1
  then show ?thesis using canonical_codec_fixed by (auto simp: list_all_iff)
next
  case 2
  have "canonical_codec (to_ascii_lowercase (trim s)) = canonical_codec s"
    by (simp add: canonical_codec_def)
  with 2 show ?thesis by simp
qed

interpretation codec: canonical_names canonical_codec
  by unfold_locales (simp_all add: canonical_codec_idem, simp add: canonical_codec_def)

lemma normal_literal:
  "list_all (\<lambda>c. to_ascii_lowercase (trim c) = c)
     [''matroska'', ''mov'', ''mpegts'', ''mpeg'', ''hdr10_plus'']"
  by (simp add: dusk_eval)

interpretation container: canonical_names canonical_container
  using normal_literal
  by unfold_locales (auto simp: canonical_container_def Let_def)

interpretation hdr: canonical_names canonical_hdr
  using normal_literal
  by unfold_locales (auto simp: canonical_hdr_def Let_def)

end
