(* ===== verification/Rendition_Ladder.thy ===== *)
theory Rendition_Ladder
  imports Prelude
begin

text \<open>
  The encoding ladder of services/transcoding.rs: the fixed rungs and the selection of those
  that fit a source and its limits, with a fallback rung when none does. The hardware encoder
  names of the same file are here too.
\<close>

record TranscodeRendition =
  name :: string
  width :: u32
  height :: u32
  video_bitrate :: u32
  audio_bitrate :: u32
  audio_channels :: u32

definition default_ladder :: "TranscodeRendition list" where
  "default_ladder =
    [\<lparr>name = ''480p'', width = 854, height = 480, video_bitrate = 1500000,
      audio_bitrate = 128000, audio_channels = 2\<rparr>,
     \<lparr>name = ''720p'', width = 1280, height = 720, video_bitrate = 3000000,
      audio_bitrate = 160000, audio_channels = 2\<rparr>,
     \<lparr>name = ''1080p'', width = 1920, height = 1080, video_bitrate = 6000000,
      audio_bitrate = 256000, audio_channels = 6\<rparr>,
     \<lparr>name = ''1080p-hq'', width = 1920, height = 1080, video_bitrate = 10000000,
      audio_bitrate = 320000, audio_channels = 6\<rparr>]"

definition rung_fits ::
  "u32 \<Rightarrow> u32 \<Rightarrow> u64 option \<Rightarrow> (u32 \<times> u32) option \<Rightarrow> TranscodeRendition \<Rightarrow> bool" where
  "rung_fits source_width source_height max_bitrate max_resolution r \<longleftrightarrow>
     width r \<le> source_width \<and> height r \<le> source_height
     \<and> (case max_bitrate of None \<Rightarrow> True | Some mb \<Rightarrow> ucast (video_bitrate r) \<le> mb)
     \<and> (case max_resolution of None \<Rightarrow> True | Some (mw, mh) \<Rightarrow> width r \<le> mw \<and> height r \<le> mh)"

definition fallback_rung ::
  "u32 \<Rightarrow> u32 \<Rightarrow> u64 option \<Rightarrow> (u32 \<times> u32) option \<Rightarrow> TranscodeRendition" where
  "fallback_rung source_width source_height max_bitrate max_resolution =
     (let (max_width, max_height) =
        (case max_resolution of None \<Rightarrow> (source_width, source_height) | Some m \<Rightarrow> m)
      in \<lparr>name = ''source'',
          width = max (min source_width max_width) 2 div 2 * 2,
          height = max (min source_height max_height) 2 div 2 * 2,
          video_bitrate =
            ucast (min (case max_bitrate of None \<Rightarrow> 1500000 | Some mb \<Rightarrow> mb) 1500000),
          audio_bitrate = 128000,
          audio_channels = 2\<rparr>)"

definition smart_ladder ::
  "u32 \<Rightarrow> u32 \<Rightarrow> u64 option \<Rightarrow> (u32 \<times> u32) option \<Rightarrow> TranscodeRendition list" where
  "smart_ladder source_width source_height max_bitrate max_resolution =
     (let rungs = filter (rung_fits source_width source_height max_bitrate max_resolution)
                    default_ladder
      in if rungs = []
         then rungs @ [fallback_rung source_width source_height max_bitrate max_resolution]
         else rungs)"

section \<open>Hardware encoders\<close>

datatype HwAccelMethod = Nvenc | Qsv | Vaapi | VideoToolbox | Amf | Software

definition HwAccelMethod_ffmpeg_encoder :: "HwAccelMethod \<Rightarrow> string \<Rightarrow> string" where
  "HwAccelMethod_ffmpeg_encoder method codec =
     (let hevc = codec \<in> {''hevc'', ''h265''} in
      if method = Nvenc \<and> codec = ''h264'' then ''h264_nvenc''
      else if method = Nvenc \<and> hevc then ''hevc_nvenc''
      else if method = Qsv \<and> codec = ''h264'' then ''h264_qsv''
      else if method = Qsv \<and> hevc then ''hevc_qsv''
      else if method = Vaapi \<and> codec = ''h264'' then ''h264_vaapi''
      else if method = Vaapi \<and> hevc then ''hevc_vaapi''
      else if method = VideoToolbox \<and> codec = ''h264'' then ''h264_videotoolbox''
      else if method = VideoToolbox \<and> hevc then ''hevc_videotoolbox''
      else if method = Amf \<and> codec = ''h264'' then ''h264_amf''
      else if method = Amf \<and> hevc then ''hevc_amf''
      else if hevc then ''libx265''
      else ''libx264'')"

definition HwAccelMethod_as_str :: "HwAccelMethod \<Rightarrow> string" where
  "HwAccelMethod_as_str method =
     (case method of
        Nvenc \<Rightarrow> ''nvenc'' | Qsv \<Rightarrow> ''qsv'' | Vaapi \<Rightarrow> ''vaapi'' | VideoToolbox \<Rightarrow> ''videotoolbox''
      | Amf \<Rightarrow> ''amf'' | Software \<Rightarrow> ''software'')"

section \<open>What a caller of the ladder relies on\<close>

lemma smart_ladder_not_Nil [simp]: "smart_ladder w h mb mr \<noteq> []"
  by (simp add: smart_ladder_def Let_def)

lemma smart_ladder_cases:
  assumes "r \<in> set (smart_ladder w h mb mr)"
  obtains (rung) "r \<in> set default_ladder" "rung_fits w h mb mr r"
  | (fallback) "r = fallback_rung w h mb mr"
  using assms by (auto simp: smart_ladder_def Let_def split: if_splits)

lemma ucast_min_u32:
  "(ucast (ucast (min x 1500000 :: u64) :: u32) :: u64) = min x 1500000"
proof -
  have "min x 1500000 \<le> (1500000 :: u64)" by simp
  then have "unat (min x 1500000) \<le> unat (1500000 :: u64)" by (simp only: word_le_nat_alt)
  then have lt: "unat (min x 1500000) < 2 ^ 32" by simp
  show ?thesis
    by (rule word_unat_eq_iff [THEN iffD2])
      (use lt in \<open>simp add: unsigned_ucast_eq unsigned_take_bit_eq take_bit_nat_eq_self\<close>)
qed

lemma smart_ladder_bitrate:
  assumes "r \<in> set (smart_ladder w h (Some mb) mr)"
  shows "ucast (video_bitrate r) \<le> mb"
  using assms
proof (cases rule: smart_ladder_cases)
  case rung
  then show ?thesis by (simp add: rung_fits_def)
next
  case fallback
  then show ?thesis by (simp add: fallback_rung_def ucast_min_u32 split: option.splits prod.splits)
qed

lemma unat_half_twice: "unat (x div 2 * 2 :: u32) = unat x div 2 * 2"
proof -
  have "unat x div 2 * 2 \<le> unat x" by simp
  also have "unat x < 2 ^ 32" using unsigned_less [of x] by simp
  finally show ?thesis by (simp add: unat_word_ariths unat_div_distrib)
qed

lemma half_twice_le: "(x :: u32) div 2 * 2 \<le> x"
  by (simp add: word_le_nat_alt unat_half_twice)

lemma default_ladder_dims:
  "r \<in> set default_ladder \<Longrightarrow> 2 \<le> width r \<and> 2 \<le> height r \<and> even (unat (width r)) \<and> even (unat (height r))"
  by (auto simp: default_ladder_def)

lemma smart_ladder_fits:
  assumes "r \<in> set (smart_ladder w h mb mr)" and "2 \<le> w" and "2 \<le> h"
  shows "width r \<le> w \<and> height r \<le> h"
  using assms(1)
proof (cases rule: smart_ladder_cases)
  case rung
  then show ?thesis by (simp add: rung_fits_def)
next
  case fallback
  have "max (min a b) 2 div 2 * 2 \<le> a" if "2 \<le> a" for a b :: u32
    using half_twice_le [of "max (min a b) 2"] that by (auto simp: max_def min_def split: if_splits)
  with fallback assms show ?thesis by (simp add: fallback_rung_def half_twice_le split: option.splits prod.splits)
qed

lemma smart_ladder_ascending: "sorted (map video_bitrate (smart_ladder w h mb mr))"
proof -
  have "sorted (map video_bitrate default_ladder)"
    by (simp add: default_ladder_def)
  then have "sorted (map video_bitrate (filter P default_ladder))" for P
    by (rule sorted_filter)
  then show ?thesis by (simp add: smart_ladder_def Let_def)
qed

text \<open>
  The ladder handed to the encoder is never empty, keeps the caller's bitrate limit on
  every rung, never upscales a source of at least two by two pixels, and is ordered by bitrate,
  so its last rung is the best one allowed.
\<close>

theorem smart_ladder_sound:
  assumes "2 \<le> w" and "2 \<le> h"
  shows "smart_ladder w h (Some mb) mr \<noteq> []
    \<and> list_all (\<lambda>r. ucast (video_bitrate r) \<le> mb \<and> width r \<le> w \<and> height r \<le> h)
        (smart_ladder w h (Some mb) mr)
    \<and> sorted (map video_bitrate (smart_ladder w h (Some mb) mr))"
  using smart_ladder_bitrate smart_ladder_fits [OF _ assms] smart_ladder_ascending
  by (auto simp: list_all_iff)

theorem smart_ladder_sound_witness:
  "map name (smart_ladder 1920 1080 (Some 5000000) None) = [''480p'', ''720p'']
   \<and> sorted (map video_bitrate (smart_ladder 1920 1080 (Some 5000000) None))"
  using smart_ladder_sound [of 1920 1080 5000000 None]
  by (simp add: smart_ladder_def default_ladder_def rung_fits_def)

end
