(* ===== verification/Decision_Engine.thy ===== *)
theory Decision_Engine
  imports Json Codec_Compat Rendition_Ladder
begin

text \<open>
  services/decision_engine.rs: how a file is played on a device. \<open>decide\<close> composes the video,
  audio and subtitle evaluations in the order of the code, threading the list of reasons each of
  them appends to. Unsigned fields are words of their width, \<open>throughput_safety_factor\<close> is a
  double; \<open>video_level\<close> (an \<^verbatim>\<open>f32\<close> no branch reads) is stored in the wider type. The
  Unicode lower-casing \<^verbatim>\<open>str::to_lowercase\<close> is the parameter \<open>lc\<close> of the definitions that
  use it.
\<close>

datatype StreamDecision = SD_DirectPlay | SD_DirectStream | SD_Transcode
datatype VideoDecision = VD_DirectPlay | VD_Remux | VD_Transcode | VD_ToneMap
datatype AudioDecision = AD_Passthrough | AD_Downmix | AD_Transcode
datatype SubtitleDecision = SubD_Passthrough | SubD_Convert | SubD_BurnIn
datatype QualityMode = Auto | Maximum | Manual

record DecisionReason =
  factor :: string
  result :: string
  detail :: string

record PlaybackDecision =
  overall :: StreamDecision
  video :: VideoDecision
  audio :: AudioDecision
  subtitle :: SubtitleDecision
  target_video_codec :: "string option"
  target_audio_codec :: "string option"
  target_resolution :: "(u32 \<times> u32) option"
  target_bitrate_bps :: "u64 option"
  target_audio_channels :: "u32 option"
  requires_tone_mapping :: bool
  requires_dv_strip :: bool
  subtitle_burn_in_required :: bool
  decision_reasons :: "DecisionReason list"

record MediaFileInfo =
  m_container_format :: string
  m_video_codec :: string
  m_video_profile :: "string option"
  m_video_level :: "f64 option"
  m_video_bit_depth :: u32
  m_video_resolution :: "u32 \<times> u32"
  m_video_bitrate_bps :: u64
  m_video_dynamic_range :: string
  m_video_frame_rate :: f64
  m_audio_codec :: string
  m_audio_channels :: u32
  m_audio_bitrate_bps :: u64
  m_audio_language :: "string option"
  m_has_embedded_subtitles :: bool
  m_subtitle_format :: "string option"
  m_additional_streams :: "json option"

record DeviceCapabilities =
  d_video_codecs :: "string set"
  d_audio_codecs :: "string set"
  d_containers :: "string set"
  d_subtitle_formats :: "string set"
  d_max_resolution :: "u32 \<times> u32"
  d_max_audio_channels :: u32
  d_hdr_formats :: "string set"
  d_max_bitrate_bps :: u64
  d_supports_dolby_vision :: bool
  d_allow_client_side_dv_fallback :: bool
  d_max_video_bit_depth :: u32

record NetworkConditions =
  n_estimated_throughput_bps :: "u64 option"
  n_network_tier :: "string option"

record DecisionEngineConfig =
  c_default_video_codec :: string
  c_default_audio_codec :: string
  c_fallback_max_resolution :: "u32 \<times> u32"
  c_fallback_max_bitrate_bps :: u64
  c_throughput_safety_factor :: f64
  c_allow_client_side_dv_fallback :: bool
  c_audio_passthrough_enabled :: bool
  c_subtitle_burn_in_policy :: string
  c_quality_mode :: QualityMode
  c_manual_max_resolution :: "(u32 \<times> u32) option"

type_synonym reasons = "DecisionReason list"

definition reason :: "string \<Rightarrow> string \<Rightarrow> string \<Rightarrow> DecisionReason" where
  "reason f r d = \<lparr>factor = f, result = r, detail = d\<rparr>"

definition TEXT_SUBTITLE_FORMATS :: "string list" where
  "TEXT_SUBTITLE_FORMATS = [''srt'', ''webvtt'', ''ass'', ''ssa'']"

definition IMAGE_SUBTITLE_FORMATS :: "string list" where
  "IMAGE_SUBTITLE_FORMATS = [''pgs'', ''vobsub'', ''dvd_subtitle'']"

section \<open>Limits and dynamic range\<close>

definition bitrate_limit :: "NetworkConditions \<Rightarrow> DecisionEngineConfig \<Rightarrow> u64 option" where
  "bitrate_limit network config =
     (if c_quality_mode config = Maximum then None
      else map_option
        (\<lambda>t. f64_to_u64 (f64_mul (f64_of_u64 t) (c_throughput_safety_factor config)))
        (n_estimated_throughput_bps network))"

definition max_resolution_for_bitrate :: "u64 \<Rightarrow> u32 \<times> u32" where
  "max_resolution_for_bitrate bitrate_bps =
     (if bitrate_bps \<ge> 5000000 then (1920, 1080)
      else if bitrate_bps \<ge> 2000000 then (1280, 720)
      else (854, 480))"

definition normalize_resolution :: "u32 \<Rightarrow> u32 \<Rightarrow> u32 \<times> u32" where
  "normalize_resolution w h =
     (case List.find (\<lambda>(wd, ht). wd \<le> w \<and> ht \<le> h)
             [(3840, 2160), (1920, 1080), (1280, 720), (854, 480)] of
        Some r \<Rightarrow> r
      | None \<Rightarrow> (w div 2 * 2, h div 2 * 2))"

definition extract_dv_profile :: "MediaFileInfo \<Rightarrow> u32 option" where
  "extract_dv_profile media =
     Option.bind (m_additional_streams media) (\<lambda>streams.
     Option.bind (jget streams ''dolby_vision'') (\<lambda>dv.
     Option.bind (jget dv ''profile'') (\<lambda>profile.
       map_option ucast (as_u64 profile))))"

definition is_hdr_content :: "string \<Rightarrow> bool" where
  "is_hdr_content dynamic_range \<longleftrightarrow>
     (let dr = to_ascii_lowercase (trim dynamic_range)
      in dr \<in> {''hdr10'', ''hdr10_plus'', ''hdr10+'', ''hlg''} \<or> starts_with dr ''dolby_vision'')"

definition dv_base_dynamic_range :: "MediaFileInfo \<Rightarrow> string option" where
  "dv_base_dynamic_range media =
     (let mode =
        Option.bind (m_additional_streams media) (\<lambda>streams.
        Option.bind (jget streams ''dolby_vision'') (\<lambda>dv.
        Option.bind (jget dv ''compatibility_mode'') as_str));
          dr = to_ascii_lowercase (trim (m_video_dynamic_range media))
      in if mode = Some ''hdr10'' then Some ''hdr10''
         else if mode = Some ''hlg'' then Some ''hlg''
         else if mode = Some ''sdr'' then Some ''sdr''
         else if dr = ''dolby_vision_p8.1'' then Some ''hdr10''
         else if dr = ''dolby_vision_p8.4'' then Some ''hlg''
         else if extract_dv_profile media = Some 7 then Some ''hdr10''
         else None)"

definition needs_dv_strip :: "MediaFileInfo \<Rightarrow> DeviceCapabilities \<Rightarrow> bool" where
  "needs_dv_strip media device \<longleftrightarrow>
     (case extract_dv_profile media of
        Some dv_profile \<Rightarrow> (dv_profile = 7 \<or> dv_profile = 8) \<and> \<not> d_supports_dolby_vision device
      | None \<Rightarrow> False)"

text \<open>The fallback base of a Dolby Vision file: the three-part condition of the inner \<^verbatim>\<open>if let\<close>.\<close>

definition dv_fallback :: "MediaFileInfo \<Rightarrow> DeviceCapabilities \<Rightarrow> (u32 \<times> string) option" where
  "dv_fallback media device =
     (case extract_dv_profile media of
        Some profile \<Rightarrow>
          (if profile = 7 \<or> profile = 8 then
             (case dv_base_dynamic_range media of
                Some base_range \<Rightarrow>
                  (if hdr_supported base_range (d_hdr_formats device)
                   then Some (profile, base_range) else None)
              | None \<Rightarrow> None)
           else None)
      | None \<Rightarrow> None)"

definition evaluate_dynamic_range ::
  "MediaFileInfo \<Rightarrow> DeviceCapabilities \<Rightarrow> DecisionEngineConfig \<Rightarrow> reasons \<Rightarrow> VideoDecision \<times> reasons"
  where
  "evaluate_dynamic_range media device config reasons =
     (let dynamic_range = to_ascii_lowercase (trim (m_video_dynamic_range media));
          dv_profile = extract_dv_profile media
      in if dv_profile \<noteq> None \<or> starts_with dynamic_range ''dolby_vision'' then
           (if d_supports_dolby_vision device then (VD_DirectPlay, reasons)
            else case dv_fallback media device of
                Some (profile, base_range) \<Rightarrow>
                  (if c_allow_client_side_dv_fallback config \<and> d_allow_client_side_dv_fallback device
                   then (VD_DirectPlay, reasons @ [reason ''dolby_vision'' ''direct_play''
                          (''DV Profile '' @ show_u profile @ '' with supported '' @ base_range @
                           '' base, client-side fallback allowed'')])
                   else (VD_Remux, reasons @ [reason ''dolby_vision'' ''remux''
                          (''DV Profile '' @ show_u profile @ '' stripping to supported '' @ base_range @
                           '' base layer'')]))
              | None \<Rightarrow>
                  (VD_ToneMap, reasons @ [reason ''dolby_vision'' ''tone_map''
                     ''Dolby Vision is unsupported and no supported fallback base is known'']))
         else if dynamic_range \<noteq> ''sdr'' \<and> \<not> is_hdr_content dynamic_range then
           (VD_Transcode, reasons @ [reason ''dynamic_range'' ''transcode''
              ''source video dynamic range is unknown''])
         else if is_hdr_content dynamic_range \<and> \<not> hdr_supported dynamic_range (d_hdr_formats device) then
           (VD_ToneMap, reasons @ [reason ''hdr'' ''tone_map''
              (''source HDR format '' @ [CHR 0x27] @ dynamic_range @ [CHR 0x27] @ '' is not supported'')])
         else (VD_DirectPlay, reasons))"

section \<open>Video\<close>

text \<open>
  Each step of \<^verbatim>\<open>evaluate_video\<close> takes and returns the pair of the mutable decision and the
  reasons.
\<close>

type_synonym video_state = "VideoDecision \<times> reasons"

definition check_codec :: "MediaFileInfo \<Rightarrow> DeviceCapabilities \<Rightarrow> video_state \<Rightarrow> video_state" where
  "check_codec media device st =
     (if \<not> codec_supported (m_video_codec media) (d_video_codecs device)
      then (VD_Transcode, snd st @ [reason ''video_codec'' ''transcode''
             (''codec '' @ [CHR 0x27] @ m_video_codec media @ [CHR 0x27] @ '' not in device supported list'')])
      else st)"

definition check_bit_depth :: "MediaFileInfo \<Rightarrow> DeviceCapabilities \<Rightarrow> video_state \<Rightarrow> video_state" where
  "check_bit_depth media device st =
     (if m_video_bit_depth media = 0
      then (VD_Transcode, snd st @ [reason ''bit_depth'' ''transcode''
             ''source video bit depth is unknown''])
      else if m_video_bit_depth media > d_max_video_bit_depth device \<and> d_max_video_bit_depth device > 0
      then (VD_Transcode, snd st @ [reason ''bit_depth'' ''transcode''
             (''source '' @ show_u (m_video_bit_depth media) @ ''-bit exceeds device max '' @
              show_u (d_max_video_bit_depth device) @ ''-bit'')])
      else st)"

definition check_resolution :: "MediaFileInfo \<Rightarrow> DeviceCapabilities \<Rightarrow> video_state \<Rightarrow> video_state" where
  "check_resolution media device st =
     (let (src_w, src_h) = m_video_resolution media; (dev_w, dev_h) = d_max_resolution device
      in if src_w > dev_w \<or> src_h > dev_h
         then (VD_Transcode, snd st @ [reason ''resolution'' ''transcode''
                (''source '' @ show_u src_w @ ''x'' @ show_u src_h @ '' exceeds device max '' @
                 show_u dev_w @ ''x'' @ show_u dev_h)])
         else st)"

definition check_dynamic_range ::
  "MediaFileInfo \<Rightarrow> DeviceCapabilities \<Rightarrow> DecisionEngineConfig \<Rightarrow> video_state \<Rightarrow> video_state" where
  "check_dynamic_range media device config st =
     (let (dynamic_range_decision, reasons) = evaluate_dynamic_range media device config (snd st)
      in if dynamic_range_decision = VD_ToneMap then (VD_ToneMap, reasons)
         else if dynamic_range_decision = VD_Transcode
              \<or> (fst st = VD_DirectPlay \<and> dynamic_range_decision = VD_Remux)
         then (dynamic_range_decision, reasons)
         else (fst st, reasons))"

definition effective_bitrate :: "MediaFileInfo \<Rightarrow> u64" where
  "effective_bitrate media = saturating_add (m_video_bitrate_bps media) (m_audio_bitrate_bps media)"

text \<open>The three limits leave a tone-mapping decision in place and raise any other to transcode.\<close>

definition raise_transcode :: "DecisionReason \<Rightarrow> video_state \<Rightarrow> video_state" where
  "raise_transcode r st = (if fst st \<noteq> VD_ToneMap then VD_Transcode else fst st, snd st @ [r])"

definition check_device_bitrate :: "MediaFileInfo \<Rightarrow> DeviceCapabilities \<Rightarrow> video_state \<Rightarrow> video_state" where
  "check_device_bitrate media device st =
     (if d_max_bitrate_bps device > 0 \<and> effective_bitrate media > d_max_bitrate_bps device
      then raise_transcode (reason ''device_bitrate'' ''transcode''
             (''source '' @ show_u (effective_bitrate media) @ '' bps exceeds device limit '' @
              show_u (d_max_bitrate_bps device) @ '' bps'')) st
      else st)"

definition check_network_bitrate ::
  "MediaFileInfo \<Rightarrow> NetworkConditions \<Rightarrow> DecisionEngineConfig \<Rightarrow> video_state \<Rightarrow> video_state" where
  "check_network_bitrate media network config st =
     (case bitrate_limit network config of
        Some limit \<Rightarrow>
          (if effective_bitrate media > limit
           then raise_transcode (reason ''bitrate'' ''transcode''
                  (''source '' @ show_u (effective_bitrate media) @ '' bps exceeds network limit '' @
                   show_u limit @ '' bps'')) st
           else st)
      | None \<Rightarrow> st)"

definition check_manual_quality :: "MediaFileInfo \<Rightarrow> DecisionEngineConfig \<Rightarrow> video_state \<Rightarrow> video_state" where
  "check_manual_quality media config st =
     (case (c_quality_mode config, c_manual_max_resolution config) of
        (Manual, Some (max_w, max_h)) \<Rightarrow>
          (let (src_w, src_h) = m_video_resolution media
           in if src_w > max_w \<or> src_h > max_h
              then raise_transcode (reason ''quality_mode'' ''transcode''
                     (''manual quality mode limits to '' @ show_u max_w @ ''x'' @ show_u max_h @
                      '', source is '' @ show_u src_w @ ''x'' @ show_u src_h)) st
              else st)
      | _ \<Rightarrow> st)"

definition finish_video :: "MediaFileInfo \<Rightarrow> DeviceCapabilities \<Rightarrow> video_state \<Rightarrow> video_state" where
  "finish_video media device st =
     (if fst st \<in> {VD_Transcode, VD_ToneMap} then st
      else if \<not> container_supported (m_container_format media) (d_containers device)
      then (VD_Remux, snd st @ [reason ''container'' ''remux''
             (''container '' @ [CHR 0x27] @ m_container_format media @ [CHR 0x27] @
              '' not supported, remuxing video stream copy'')])
      else if fst st = VD_Remux then st
      else (VD_DirectPlay, snd st @ [reason ''video'' ''direct_play'' ''all video checks passed'']))"

definition evaluate_video ::
  "MediaFileInfo \<Rightarrow> DeviceCapabilities \<Rightarrow> NetworkConditions \<Rightarrow> DecisionEngineConfig \<Rightarrow> reasons
     \<Rightarrow> video_state" where
  "evaluate_video media device network config reasons =
     (let s0 = (VD_DirectPlay, reasons);
          s1 = check_codec media device s0;
          s2 = check_bit_depth media device s1;
          s3 = check_resolution media device s2;
          s4 = check_dynamic_range media device config s3;
          s5 = check_device_bitrate media device s4;
          s6 = check_network_bitrate media network config s5;
          s7 = check_manual_quality media config s6
      in finish_video media device s7)"

section \<open>Audio and subtitles\<close>

definition evaluate_audio ::
  "MediaFileInfo \<Rightarrow> DeviceCapabilities \<Rightarrow> DecisionEngineConfig \<Rightarrow> reasons \<Rightarrow> AudioDecision \<times> reasons"
  where
  "evaluate_audio media device config reasons =
     (if \<not> c_audio_passthrough_enabled config
      then (AD_Transcode, reasons @ [reason ''audio_passthrough'' ''transcode''
             ''audio passthrough disabled in config''])
      else if \<not> codec_supported (m_audio_codec media) (d_audio_codecs device)
      then (AD_Transcode, reasons @ [reason ''audio_codec'' ''transcode''
             (''audio codec '' @ [CHR 0x27] @ m_audio_codec media @ [CHR 0x27] @
              '' not in device supported list'')])
      else if m_audio_channels media > d_max_audio_channels device
      then (AD_Downmix, reasons @ [reason ''audio_channels'' ''downmix''
             (''source '' @ show_u (m_audio_channels media) @ ''ch exceeds device max '' @
              show_u (d_max_audio_channels device) @ ''ch'')])
      else (AD_Passthrough, reasons @ [reason ''audio'' ''passthrough''
             ''audio codec and channels supported'']))"

definition evaluate_subtitle ::
  "(string \<Rightarrow> string) \<Rightarrow> MediaFileInfo \<Rightarrow> DeviceCapabilities \<Rightarrow> DecisionEngineConfig \<Rightarrow> reasons
     \<Rightarrow> SubtitleDecision \<times> reasons" where
  "evaluate_subtitle lc media device config reasons =
     (case m_subtitle_format media of
        None \<Rightarrow> (SubD_Passthrough, reasons)
      | Some sub_fmt \<Rightarrow>
          (let fmt_lower = lc sub_fmt in
           if fmt_lower \<in> set TEXT_SUBTITLE_FORMATS then
             (if (fmt_lower = ''ass'' \<or> fmt_lower = ''ssa'')
                 \<and> ''ass'' \<notin> d_subtitle_formats device \<and> ''ssa'' \<notin> d_subtitle_formats device
              then (SubD_Convert, reasons @ [reason ''subtitle'' ''convert''
                     ''ASS/SSA subtitles not supported, converting to SRT''])
              else (SubD_Passthrough, reasons @ [reason ''subtitle'' ''passthrough''
                     (''text subtitle '' @ [CHR 0x27] @ fmt_lower @ [CHR 0x27] @ '' supported'')]))
           else if fmt_lower \<in> set IMAGE_SUBTITLE_FORMATS then
             (if fmt_lower \<in> d_subtitle_formats device
              then (SubD_Passthrough, reasons @ [reason ''subtitle'' ''passthrough''
                     (''image subtitle '' @ [CHR 0x27] @ fmt_lower @ [CHR 0x27] @ '' natively supported'')])
              else if c_subtitle_burn_in_policy config \<noteq> ''last_resort''
              then (SubD_BurnIn, reasons @ [reason ''subtitle'' ''burn_in''
                     (''image subtitle '' @ [CHR 0x27] @ fmt_lower @ [CHR 0x27] @
                      '' not supported, burn-in policy allows it'')])
              else (SubD_BurnIn, reasons @ [reason ''subtitle'' ''burn_in''
                     (''image subtitle '' @ [CHR 0x27] @ fmt_lower @ [CHR 0x27] @
                      '' not supported and no text alternative available'')]))
           else (SubD_Passthrough, reasons @ [reason ''subtitle'' ''passthrough''
                   (''subtitle format '' @ [CHR 0x27] @ fmt_lower @ [CHR 0x27] @
                    '' treated as passthrough'')])))"

section \<open>Targets\<close>

definition select_target_video_codec ::
  "MediaFileInfo \<Rightarrow> DeviceCapabilities \<Rightarrow> DecisionEngineConfig \<Rightarrow> VideoDecision \<Rightarrow> string" where
  "select_target_video_codec media device config decision =
     (let is_hdr = (decision = VD_ToneMap)
      in if \<not> is_hdr \<and> codec_supported ''hevc'' (d_video_codecs device)
            \<and> (snd (m_video_resolution media) > 1080 \<or> m_video_bit_depth media \<ge> 10)
         then ''hevc''
         else c_default_video_codec config)"

definition select_target_audio_codec ::
  "MediaFileInfo \<Rightarrow> DeviceCapabilities \<Rightarrow> DecisionEngineConfig \<Rightarrow> string" where
  "select_target_audio_codec media device config =
     (if codec_supported ''opus'' (d_audio_codecs device) then ''opus''
      else if m_audio_channels media > 2 \<and> codec_supported ''eac3'' (d_audio_codecs device) then ''eac3''
      else if m_audio_channels media > 2 \<and> codec_supported ''ac3'' (d_audio_codecs device) then ''ac3''
      else c_default_audio_codec config)"

definition cap_resolution :: "u32 \<times> u32 \<Rightarrow> u32 \<times> u32 \<Rightarrow> u32 \<times> u32" where
  "cap_resolution t m = (min (fst t) (fst m), min (snd t) (snd m))"

definition compute_target_resolution ::
  "MediaFileInfo \<Rightarrow> DeviceCapabilities \<Rightarrow> NetworkConditions \<Rightarrow> DecisionEngineConfig \<Rightarrow> VideoDecision
     \<Rightarrow> (u32 \<times> u32) option" where
  "compute_target_resolution media device network config video_decision =
     (if video_decision \<in> {VD_DirectPlay, VD_Remux} then None
      else
        (let t0 = cap_resolution (m_video_resolution media) (d_max_resolution device);
             t1 = (case bitrate_limit network config of
                     Some limit \<Rightarrow> cap_resolution t0 (max_resolution_for_bitrate limit)
                   | None \<Rightarrow> t0);
             t2 = (case (c_quality_mode config, c_manual_max_resolution config) of
                     (Manual, Some manual_res) \<Rightarrow> cap_resolution t1 manual_res
                   | _ \<Rightarrow> t1)
         in Some (normalize_resolution (fst t2) (snd t2))))"

definition combined_limit ::
  "NetworkConditions \<Rightarrow> DeviceCapabilities \<Rightarrow> DecisionEngineConfig \<Rightarrow> u64 option" where
  "combined_limit network device config =
     (case bitrate_limit network config of
        Some network_limit \<Rightarrow>
          Some (if d_max_bitrate_bps device > 0 then min network_limit (d_max_bitrate_bps device)
                else network_limit)
      | None \<Rightarrow> (if d_max_bitrate_bps device > 0 then Some (d_max_bitrate_bps device) else None))"

definition compute_target_bitrate ::
  "MediaFileInfo \<Rightarrow> DeviceCapabilities \<Rightarrow> NetworkConditions \<Rightarrow> DecisionEngineConfig
     \<Rightarrow> (u32 \<times> u32) option \<Rightarrow> u64 option" where
  "compute_target_bitrate media device network config target_resolution' =
     (case combined_limit network device config of
        None \<Rightarrow> None
      | Some limit \<Rightarrow>
          (let res = (case target_resolution' of Some r \<Rightarrow> r | None \<Rightarrow> m_video_resolution media);
               ladder = smart_ladder (fst res) (snd res) (Some limit) None
           in map_option (\<lambda>r. min (ucast (video_bitrate r)) limit) (last_opt ladder)))"

definition compute_overall_decision :: "VideoDecision \<Rightarrow> AudioDecision \<Rightarrow> bool \<Rightarrow> StreamDecision" where
  "compute_overall_decision v a subtitle_burn_in =
     (if v = VD_DirectPlay \<and> a = AD_Passthrough \<and> \<not> subtitle_burn_in then SD_DirectPlay
      else if v = VD_Remux \<and> a = AD_Passthrough \<and> \<not> subtitle_burn_in then SD_DirectStream
      else SD_Transcode)"

section \<open>The decision\<close>

definition decide ::
  "(string \<Rightarrow> string) \<Rightarrow> MediaFileInfo \<Rightarrow> DeviceCapabilities \<Rightarrow> NetworkConditions \<Rightarrow> DecisionEngineConfig
     \<Rightarrow> PlaybackDecision" where
  "decide lc media device network config =
     (let (video_decision, r1) = evaluate_video media device network config [];
          (audio_decision, r2) = evaluate_audio media device config r1;
          (subtitle_decision, reasons) = evaluate_subtitle lc media device config r2;
          target_res = compute_target_resolution media device network config video_decision;
          burn_in = (subtitle_decision = SubD_BurnIn)
      in \<lparr>overall = compute_overall_decision video_decision audio_decision burn_in,
          video = video_decision,
          audio = audio_decision,
          subtitle = subtitle_decision,
          target_video_codec =
            (if video_decision \<in> {VD_DirectPlay, VD_Remux} then None
             else Some (select_target_video_codec media device config video_decision)),
          target_audio_codec =
            (if audio_decision = AD_Passthrough then None
             else Some (select_target_audio_codec media device config)),
          target_resolution = target_res,
          target_bitrate_bps = compute_target_bitrate media device network config target_res,
          target_audio_channels =
            (if audio_decision = AD_Passthrough then None
             else Some (min (d_max_audio_channels device) (m_audio_channels media))),
          requires_tone_mapping = (video_decision = VD_ToneMap),
          requires_dv_strip = (video_decision = VD_Remux \<and> needs_dv_strip media device),
          subtitle_burn_in_required = burn_in,
          decision_reasons = reasons\<rparr>)"

section \<open>Reading settings\<close>

definition parse_resolution_string :: "(string \<Rightarrow> string) \<Rightarrow> string \<Rightarrow> u32 \<times> u32" where
  "parse_resolution_string lc res =
     (let r = lc res in
      if r \<in> {''4k'', ''2160p'', ''uhd''} then (3840, 2160)
      else if r \<in> {''1080p'', ''fullhd'', ''fhd''} then (1920, 1080)
      else if r \<in> {''720p'', ''hd''} then (1280, 720)
      else if r \<in> {''480p'', ''sd''} then (854, 480)
      else (1920, 1080))"

definition parse_quality_mode :: "string \<Rightarrow> QualityMode" where
  "parse_quality_mode mode =
     (if mode = ''maximum'' then Maximum else if mode = ''manual'' then Manual else Auto)"

definition parse_json_string_set :: "(string \<Rightarrow> string) \<Rightarrow> json \<Rightarrow> string set" where
  "parse_json_string_set lc value =
     (case as_array value of
        Some arr \<Rightarrow> set (List.map_filter (\<lambda>v. map_option lc (as_str v)) arr)
      | None \<Rightarrow> {})"

definition parse_hdr_formats :: "(string \<Rightarrow> string) \<Rightarrow> json \<Rightarrow> string set" where
  "parse_hdr_formats lc value = parse_json_string_set lc value"

definition parse_resolution_value :: "(string \<Rightarrow> string) \<Rightarrow> string option \<Rightarrow> u32 \<times> u32" where
  "parse_resolution_value lc value =
     (case value of Some r \<Rightarrow> parse_resolution_string lc r | None \<Rightarrow> (1920, 1080))"

end
