(* ===== verification/Decision_Props.thy ===== *)
theory Decision_Props
  imports Decision_Engine
begin

text \<open>
  What \<open>decide\<close> of \<^verbatim>\<open>Decision_Engine\<close> promises: an independent characterisation of the files
  that play directly and of those that are tone-mapped, monotonicity in the device, the bounds of
  the transcoding targets, and that every video decision carries a reason saying so.
\<close>

section \<open>When a file plays directly\<close>

definition video_bit_depth_ok :: "MediaFileInfo \<Rightarrow> DeviceCapabilities \<Rightarrow> bool" where
  "video_bit_depth_ok media device \<longleftrightarrow>
     m_video_bit_depth media \<noteq> 0
     \<and> (d_max_video_bit_depth device = 0 \<or> m_video_bit_depth media \<le> d_max_video_bit_depth device)"

definition res_within :: "u32 \<times> u32 \<Rightarrow> u32 \<times> u32 \<Rightarrow> bool" where
  "res_within a b \<longleftrightarrow> fst a \<le> fst b \<and> snd a \<le> snd b"

definition dynamic_range_direct ::
  "MediaFileInfo \<Rightarrow> DeviceCapabilities \<Rightarrow> DecisionEngineConfig \<Rightarrow> bool" where
  "dynamic_range_direct media device config \<longleftrightarrow>
     (let dr = to_ascii_lowercase (trim (m_video_dynamic_range media)) in
      if extract_dv_profile media \<noteq> None \<or> starts_with dr ''dolby_vision''
      then d_supports_dolby_vision device
           \<or> dv_fallback media device \<noteq> None
             \<and> c_allow_client_side_dv_fallback config \<and> d_allow_client_side_dv_fallback device
      else (dr = ''sdr'' \<or> is_hdr_content dr) \<and> (is_hdr_content dr \<longrightarrow> hdr_supported dr (d_hdr_formats device)))"

definition bitrate_within ::
  "MediaFileInfo \<Rightarrow> DeviceCapabilities \<Rightarrow> NetworkConditions \<Rightarrow> DecisionEngineConfig \<Rightarrow> bool" where
  "bitrate_within media device network config \<longleftrightarrow>
     (case combined_limit network device config of
        None \<Rightarrow> True | Some l \<Rightarrow> effective_bitrate media \<le> l)"

definition manual_within :: "MediaFileInfo \<Rightarrow> DecisionEngineConfig \<Rightarrow> bool" where
  "manual_within media config \<longleftrightarrow>
     (case (c_quality_mode config, c_manual_max_resolution config) of
        (Manual, Some m) \<Rightarrow> res_within (m_video_resolution media) m | _ \<Rightarrow> True)"

definition subtitle_renderable :: "(string \<Rightarrow> string) \<Rightarrow> MediaFileInfo \<Rightarrow> DeviceCapabilities \<Rightarrow> bool" where
  "subtitle_renderable lc media device \<longleftrightarrow>
     (case m_subtitle_format media of
        None \<Rightarrow> True
      | Some f \<Rightarrow> lc f \<in> set IMAGE_SUBTITLE_FORMATS \<longrightarrow> lc f \<in> d_subtitle_formats device)"

definition plays_directly ::
  "(string \<Rightarrow> string) \<Rightarrow> MediaFileInfo \<Rightarrow> DeviceCapabilities \<Rightarrow> NetworkConditions \<Rightarrow> DecisionEngineConfig
     \<Rightarrow> bool" where
  "plays_directly lc media device network config \<longleftrightarrow>
     codec_supported (m_video_codec media) (d_video_codecs device)
     \<and> video_bit_depth_ok media device
     \<and> res_within (m_video_resolution media) (d_max_resolution device)
     \<and> dynamic_range_direct media device config
     \<and> bitrate_within media device network config
     \<and> manual_within media config
     \<and> container_supported (m_container_format media) (d_containers device)
     \<and> c_audio_passthrough_enabled config
     \<and> codec_supported (m_audio_codec media) (d_audio_codecs device)
     \<and> m_audio_channels media \<le> d_max_audio_channels device
     \<and> subtitle_renderable lc media device"

lemma evaluate_dynamic_range_direct:
  "fst (evaluate_dynamic_range media device config rs) = VD_DirectPlay
     \<longleftrightarrow> dynamic_range_direct media device config"
  by (auto simp: evaluate_dynamic_range_def dynamic_range_direct_def Let_def split: option.splits)

lemma check_steps_direct:
  "fst (check_codec media device st) = VD_DirectPlay
     \<longleftrightarrow> codec_supported (m_video_codec media) (d_video_codecs device) \<and> fst st = VD_DirectPlay"
  "fst (check_bit_depth media device st) = VD_DirectPlay
     \<longleftrightarrow> video_bit_depth_ok media device \<and> fst st = VD_DirectPlay"
  "fst (check_resolution media device st) = VD_DirectPlay
     \<longleftrightarrow> res_within (m_video_resolution media) (d_max_resolution device) \<and> fst st = VD_DirectPlay"
  "fst (check_dynamic_range media device config st) = VD_DirectPlay
     \<longleftrightarrow> dynamic_range_direct media device config \<and> fst st = VD_DirectPlay"
  "fst (check_manual_quality media config st) = VD_DirectPlay
     \<longleftrightarrow> manual_within media config \<and> fst st = VD_DirectPlay"
  "fst (finish_video media device st) = VD_DirectPlay
     \<longleftrightarrow> container_supported (m_container_format media) (d_containers device) \<and> fst st = VD_DirectPlay"
proof -
  show "fst (check_codec media device st) = VD_DirectPlay
     \<longleftrightarrow> codec_supported (m_video_codec media) (d_video_codecs device) \<and> fst st = VD_DirectPlay"
    by (simp add: check_codec_def)
  show "fst (check_bit_depth media device st) = VD_DirectPlay
     \<longleftrightarrow> video_bit_depth_ok media device \<and> fst st = VD_DirectPlay"
    by (auto simp: check_bit_depth_def video_bit_depth_ok_def word_gt_0 not_less)
  show "fst (check_resolution media device st) = VD_DirectPlay
     \<longleftrightarrow> res_within (m_video_resolution media) (d_max_resolution device) \<and> fst st = VD_DirectPlay"
    by (auto simp: check_resolution_def res_within_def split: prod.splits)
  show "fst (check_dynamic_range media device config st) = VD_DirectPlay
     \<longleftrightarrow> dynamic_range_direct media device config \<and> fst st = VD_DirectPlay"
    using evaluate_dynamic_range_direct [of media device config "snd st"]
    by (cases "fst (evaluate_dynamic_range media device config (snd st))")
      (auto simp: check_dynamic_range_def split: prod.splits)
  show "fst (check_manual_quality media config st) = VD_DirectPlay
     \<longleftrightarrow> manual_within media config \<and> fst st = VD_DirectPlay"
    by (auto simp: check_manual_quality_def manual_within_def res_within_def raise_transcode_def
        split: QualityMode.splits option.splits prod.splits)
  show "fst (finish_video media device st) = VD_DirectPlay
     \<longleftrightarrow> container_supported (m_container_format media) (d_containers device) \<and> fst st = VD_DirectPlay"
    by (cases "fst st") (auto simp: finish_video_def)
qed

lemma check_bitrates_direct:
  "fst (check_network_bitrate media network config (check_device_bitrate media device st)) = VD_DirectPlay
     \<longleftrightarrow> bitrate_within media device network config \<and> fst st = VD_DirectPlay"
  by (auto simp: check_network_bitrate_def check_device_bitrate_def bitrate_within_def
      combined_limit_def raise_transcode_def not_less split: option.splits)

lemma evaluate_video_direct:
  "fst (evaluate_video media device network config rs) = VD_DirectPlay \<longleftrightarrow>
     codec_supported (m_video_codec media) (d_video_codecs device)
     \<and> video_bit_depth_ok media device
     \<and> res_within (m_video_resolution media) (d_max_resolution device)
     \<and> dynamic_range_direct media device config
     \<and> bitrate_within media device network config
     \<and> manual_within media config
     \<and> container_supported (m_container_format media) (d_containers device)"
  by (auto simp: evaluate_video_def Let_def check_steps_direct check_bitrates_direct)

lemma evaluate_audio_passthrough:
  "fst (evaluate_audio media device config rs) = AD_Passthrough \<longleftrightarrow>
     c_audio_passthrough_enabled config
     \<and> codec_supported (m_audio_codec media) (d_audio_codecs device)
     \<and> m_audio_channels media \<le> d_max_audio_channels device"
  by (auto simp: evaluate_audio_def)

lemma evaluate_subtitle_burn_in:
  "fst (evaluate_subtitle lc media device config rs) = SubD_BurnIn \<longleftrightarrow> \<not> subtitle_renderable lc media device"
  by (auto simp: evaluate_subtitle_def subtitle_renderable_def Let_def TEXT_SUBTITLE_FORMATS_def
      IMAGE_SUBTITLE_FORMATS_def split: option.splits)

lemma decide_fields:
  fixes media device network config lc
  defines "D \<equiv> decide lc media device network config"
    and "V \<equiv> evaluate_video media device network config []"
  shows "video D = fst V"
    and "audio D = fst (evaluate_audio media device config (snd V))"
    and "subtitle D = fst (evaluate_subtitle lc media device config
           (snd (evaluate_audio media device config (snd V))))"
    and "overall D = compute_overall_decision (video D) (audio D) (subtitle D = SubD_BurnIn)"
    and "target_resolution D = compute_target_resolution media device network config (video D)"
    and "target_bitrate_bps D =
           compute_target_bitrate media device network config (target_resolution D)"
  unfolding D_def V_def by (simp_all add: decide_def Let_def case_prod_beta)

lemma overall_direct:
  "overall (decide lc media device network config) = SD_DirectPlay
     \<longleftrightarrow> plays_directly lc media device network config"
  unfolding decide_fields(4) plays_directly_def
  by (auto simp: compute_overall_decision_def decide_fields(1-3) evaluate_video_direct
      evaluate_audio_passthrough evaluate_subtitle_burn_in)


definition at_least :: "'a::len word \<Rightarrow> 'a word \<Rightarrow> bool" where
  "at_least a b \<longleftrightarrow> b = 0 \<or> a \<noteq> 0 \<and> a \<le> b"

definition device_extends :: "DeviceCapabilities \<Rightarrow> DeviceCapabilities \<Rightarrow> bool" where
  "device_extends d d' \<longleftrightarrow>
     d_video_codecs d \<subseteq> d_video_codecs d' \<and> d_audio_codecs d \<subseteq> d_audio_codecs d'
     \<and> d_containers d \<subseteq> d_containers d' \<and> d_subtitle_formats d \<subseteq> d_subtitle_formats d'
     \<and> d_hdr_formats d \<subseteq> d_hdr_formats d'
     \<and> res_within (d_max_resolution d) (d_max_resolution d')
     \<and> d_max_audio_channels d \<le> d_max_audio_channels d'
     \<and> at_least (d_max_bitrate_bps d) (d_max_bitrate_bps d')
     \<and> at_least (d_max_video_bit_depth d) (d_max_video_bit_depth d')
     \<and> (d_supports_dolby_vision d \<longrightarrow> d_supports_dolby_vision d')
     \<and> (d_allow_client_side_dv_fallback d \<longrightarrow> d_allow_client_side_dv_fallback d')"

lemma supported_mono:
  "codec_supported c S \<Longrightarrow> S \<subseteq> T \<Longrightarrow> codec_supported c T"
  "container_supported c S \<Longrightarrow> S \<subseteq> T \<Longrightarrow> container_supported c T"
  "hdr_supported c S \<Longrightarrow> S \<subseteq> T \<Longrightarrow> hdr_supported c T"
  by (auto simp: codec_supported_def container_supported_def hdr_supported_def Let_def list_all_iff)

lemma dv_fallback_mono:
  "dv_fallback media d \<noteq> None \<Longrightarrow> d_hdr_formats d \<subseteq> d_hdr_formats d' \<Longrightarrow> dv_fallback media d' \<noteq> None"
  by (auto simp: dv_fallback_def dest: supported_mono(3) split: option.splits if_splits)

lemma dynamic_range_direct_mono:
  "dynamic_range_direct media d config \<Longrightarrow> device_extends d d' \<Longrightarrow> dynamic_range_direct media d' config"
  using dv_fallback_mono [of media d d'] supported_mono(3)
  by (fastforce simp: dynamic_range_direct_def device_extends_def Let_def split: if_splits)

lemma bitrate_within_mono:
  assumes "bitrate_within media d network config" and "at_least (d_max_bitrate_bps d) (d_max_bitrate_bps d')"
  shows "bitrate_within media d' network config"
  using assms
  by (auto simp: bitrate_within_def combined_limit_def at_least_def word_gt_0 split: option.splits if_splits)

text \<open>
  A device that can do at least as much (more codecs, containers, HDR formats, a larger
  picture, more channels, a looser or absent bitrate or bit-depth limit) never loses direct play.
\<close>

theorem direct_play_monotone:
  assumes "overall (decide lc media d network config) = SD_DirectPlay" and "device_extends d d'"
  shows "overall (decide lc media d' network config) = SD_DirectPlay"
proof -
  from assms(1) have P: "plays_directly lc media d network config" by (simp only: overall_direct)
  note P = P [unfolded plays_directly_def]
  note E = assms(2) [unfolded device_extends_def]
  have "video_bit_depth_ok media d'"
    using P E order_trans by (auto simp: video_bit_depth_ok_def at_least_def)
  moreover have "res_within (m_video_resolution media) (d_max_resolution d')"
    using P E order_trans unfolding res_within_def by blast
  moreover have "m_audio_channels media \<le> d_max_audio_channels d'"
    using P E order_trans by blast
  moreover have "subtitle_renderable lc media d'"
    using P E by (auto simp: subtitle_renderable_def split: option.splits)
  moreover have "codec_supported (m_video_codec media) (d_video_codecs d')"
    using P E by (blast intro: supported_mono(1))
  moreover have "codec_supported (m_audio_codec media) (d_audio_codecs d')"
    using P E by (blast intro: supported_mono(1))
  moreover have "container_supported (m_container_format media) (d_containers d')"
    using P E by (blast intro: supported_mono(2))
  moreover have "dynamic_range_direct media d' config"
    using P assms(2) by (blast intro: dynamic_range_direct_mono)
  moreover have "bitrate_within media d' network config"
    using P E by (blast intro: bitrate_within_mono)
  ultimately have "plays_directly lc media d' network config"
    using P unfolding plays_directly_def by simp
  then show ?thesis by (simp only: overall_direct)
qed
section \<open>Targets stay within every limit\<close>

lemma normalize_resolution_le:
  "fst (normalize_resolution w h) \<le> w \<and> snd (normalize_resolution w h) \<le> h"
  by (auto simp: normalize_resolution_def half_twice_le split: option.splits dest: find_Some_set)

lemma normalize_resolution_even:
  "even (unat (fst (normalize_resolution w h))) \<and> even (unat (snd (normalize_resolution w h)))"
  by (auto simp: normalize_resolution_def unat_half_twice split: option.splits)

lemma res_within_cap [simp]:
  "res_within r (cap_resolution t m) \<longleftrightarrow> res_within r t \<and> res_within r m"
  by (auto simp: cap_resolution_def res_within_def)

lemma res_within_trans: "res_within a b \<Longrightarrow> res_within b c \<Longrightarrow> res_within a c"
  by (auto simp: res_within_def)

text \<open>
  A transcode never scales up: its target resolution is within the source, the device,
  the rung the network can carry and the manual limit, and both sides are even.
\<close>

theorem target_resolution_bounded:
  assumes "target_resolution (decide lc media device network config) = Some r"
  shows "res_within r (m_video_resolution media) \<and> res_within r (d_max_resolution device)
    \<and> (case bitrate_limit network config of
         Some l \<Rightarrow> res_within r (max_resolution_for_bitrate l) | None \<Rightarrow> True)
    \<and> (case (c_quality_mode config, c_manual_max_resolution config) of
         (Manual, Some m) \<Rightarrow> res_within r m | _ \<Rightarrow> True)
    \<and> even (unat (fst r)) \<and> even (unat (snd r))"
proof -
  define t0 where "t0 = cap_resolution (m_video_resolution media) (d_max_resolution device)"
  define t1 where "t1 = (case bitrate_limit network config of
      Some limit \<Rightarrow> cap_resolution t0 (max_resolution_for_bitrate limit) | None \<Rightarrow> t0)"
  define t2 where "t2 = (case (c_quality_mode config, c_manual_max_resolution config) of
      (Manual, Some manual_res) \<Rightarrow> cap_resolution t1 manual_res | _ \<Rightarrow> t1)"
  have r: "r = normalize_resolution (fst t2) (snd t2)"
    using assms unfolding decide_fields compute_target_resolution_def t0_def t1_def t2_def
    by (auto simp: Let_def split: if_splits)
  have "res_within r t2" unfolding r using normalize_resolution_le by (simp add: res_within_def)
  then have "res_within r t1 \<and> (case (c_quality_mode config, c_manual_max_resolution config) of
      (Manual, Some m) \<Rightarrow> res_within r m | _ \<Rightarrow> True)"
    by (auto simp: t2_def split: QualityMode.splits option.splits)
  moreover from this have "res_within r t0 \<and> (case bitrate_limit network config of
      Some l \<Rightarrow> res_within r (max_resolution_for_bitrate l) | None \<Rightarrow> True)"
    by (simp add: t1_def split: option.splits)
  ultimately show ?thesis
    using normalize_resolution_even [of "fst t2" "snd t2"] by (simp add: t0_def r)
qed

lemma last_opt_set: "last_opt xs = Some x \<Longrightarrow> x \<in> set xs"
  by (auto simp: last_opt_def split: if_splits)

lemma compute_target_bitrate_le:
  "compute_target_bitrate media device network config tr = Some b
     \<Longrightarrow> \<exists>l. combined_limit network device config = Some l \<and> b \<le> l"
  by (auto simp: compute_target_bitrate_def Let_def split: option.splits)

lemma compute_target_bitrate_None:
  "compute_target_bitrate media device network config tr = None
     \<longleftrightarrow> combined_limit network device config = None"
  by (simp add: compute_target_bitrate_def Let_def last_opt_def split: option.splits)

text \<open>
  The target bitrate respects the network limit and the device limit; it is absent only
  when there is neither.
\<close>

theorem target_bitrate_bounded:
  "case target_bitrate_bps (decide lc media device network config) of
     None \<Rightarrow> bitrate_limit network config = None \<and> d_max_bitrate_bps device = 0
   | Some b \<Rightarrow>
       (case bitrate_limit network config of
          Some n \<Rightarrow> b \<le> n | None \<Rightarrow> d_max_bitrate_bps device \<noteq> 0)
       \<and> (d_max_bitrate_bps device = 0 \<or> b \<le> d_max_bitrate_bps device)"
  unfolding decide_fields
  by (auto simp: compute_target_bitrate_None combined_limit_def word_gt_0 split: option.splits
      if_splits dest!: compute_target_bitrate_le)

text \<open>
  With a safety factor between 0 and 1 and a throughput that a double represents exactly,
  the network limit never exceeds the measured throughput.
\<close>

theorem bitrate_limit_conservative:
  assumes "n_estimated_throughput_bps network = Some t" and "unat t \<le> 2 ^ 53"
    and "c_throughput_safety_factor config = Fin f" and "0 \<le> f" and "f \<le> 1"
    and "bitrate_limit network config = Some l"
  shows "l \<le> t"
  using assms f64_scale_le [of t f] by (simp add: bitrate_limit_def split: if_splits)

section \<open>Tone mapping\<close>

lemma tone_map_kept:
  "fst (check_device_bitrate media device st) = VD_ToneMap \<longleftrightarrow> fst st = VD_ToneMap"
  "fst (check_network_bitrate media network config st) = VD_ToneMap \<longleftrightarrow> fst st = VD_ToneMap"
  "fst (check_manual_quality media config st) = VD_ToneMap \<longleftrightarrow> fst st = VD_ToneMap"
  "fst (finish_video media device st) = VD_ToneMap \<longleftrightarrow> fst st = VD_ToneMap"
  "fst (check_dynamic_range media device config st) = VD_ToneMap \<longleftrightarrow>
     fst (evaluate_dynamic_range media device config (snd st)) = VD_ToneMap \<or>
     fst st = VD_ToneMap \<and> fst (evaluate_dynamic_range media device config (snd st)) \<noteq> VD_Transcode"
  "fst (check_codec media device st) = VD_ToneMap \<Longrightarrow> fst st = VD_ToneMap"
  "fst (check_bit_depth media device st) = VD_ToneMap \<Longrightarrow> fst st = VD_ToneMap"
  "fst (check_resolution media device st) = VD_ToneMap \<Longrightarrow> fst st = VD_ToneMap"
proof -
  have raise: "fst (raise_transcode r s) = VD_ToneMap \<longleftrightarrow> fst s = VD_ToneMap" for r s
    by (simp add: raise_transcode_def)
  show "fst (check_device_bitrate media device st) = VD_ToneMap \<longleftrightarrow> fst st = VD_ToneMap"
    by (simp add: check_device_bitrate_def raise)
  show "fst (check_network_bitrate media network config st) = VD_ToneMap \<longleftrightarrow> fst st = VD_ToneMap"
    by (simp add: check_network_bitrate_def raise split: option.splits)
  show "fst (check_manual_quality media config st) = VD_ToneMap \<longleftrightarrow> fst st = VD_ToneMap"
    by (simp add: check_manual_quality_def raise split: option.splits QualityMode.splits prod.splits)
  show "fst (finish_video media device st) = VD_ToneMap \<longleftrightarrow> fst st = VD_ToneMap"
    by (auto simp add: finish_video_def)
  show "fst (check_dynamic_range media device config st) = VD_ToneMap \<longleftrightarrow>
     fst (evaluate_dynamic_range media device config (snd st)) = VD_ToneMap \<or>
     fst st = VD_ToneMap \<and> fst (evaluate_dynamic_range media device config (snd st)) \<noteq> VD_Transcode"
    by (cases "evaluate_dynamic_range media device config (snd st)")
      (auto simp add: check_dynamic_range_def)
  show "fst st = VD_ToneMap" if "fst (check_codec media device st) = VD_ToneMap"
    using that by (simp add: check_codec_def split: if_splits)
  show "fst st = VD_ToneMap" if "fst (check_bit_depth media device st) = VD_ToneMap"
    using that by (simp add: check_bit_depth_def split: if_splits)
  show "fst st = VD_ToneMap" if "fst (check_resolution media device st) = VD_ToneMap"
    using that by (simp add: check_resolution_def split: if_splits prod.splits)
qed

definition needs_tone_mapping :: "MediaFileInfo \<Rightarrow> DeviceCapabilities \<Rightarrow> bool" where
  "needs_tone_mapping media device \<longleftrightarrow>
     (let dr = to_ascii_lowercase (trim (m_video_dynamic_range media)) in
      if extract_dv_profile media \<noteq> None \<or> starts_with dr ''dolby_vision''
      then \<not> d_supports_dolby_vision device \<and> dv_fallback media device = None
      else is_hdr_content dr \<and> \<not> hdr_supported dr (d_hdr_formats device))"

lemma is_hdr_not_sdr: "\<not> is_hdr_content ''sdr''"
  by (simp add: is_hdr_content_def dusk_eval)

lemma evaluate_dynamic_range_tone_map:
  "fst (evaluate_dynamic_range media device config rs) = VD_ToneMap
     \<longleftrightarrow> needs_tone_mapping media device"
  by (auto simp: evaluate_dynamic_range_def needs_tone_mapping_def Let_def split: option.splits)

text \<open>
  Tone mapping is requested exactly for a Dolby Vision source whose device has neither
  Dolby Vision nor a usable base layer, and for an HDR source the device does not support, whatever
  the codec, resolution and bitrate checks decide.
\<close>

theorem tone_mapping_iff:
  "requires_tone_mapping (decide lc media device network config) \<longleftrightarrow> needs_tone_mapping media device"
proof -
  define s3 where "s3 = check_resolution media device
    (check_bit_depth media device (check_codec media device (VD_DirectPlay, [])))"
  have "fst s3 \<noteq> VD_ToneMap"
    unfolding s3_def by (auto dest!: tone_map_kept(6-8))
  then have "fst (evaluate_video media device network config []) = VD_ToneMap
    \<longleftrightarrow> needs_tone_mapping media device"
    by (auto simp: evaluate_video_def Let_def tone_map_kept(1-5) evaluate_dynamic_range_tone_map
        simp flip: s3_def)
  then show ?thesis by (simp add: decide_def Let_def case_prod_beta)
qed

section \<open>Reasons\<close>

definition video_label :: "VideoDecision \<Rightarrow> string" where
  "video_label v = (case v of VD_DirectPlay \<Rightarrow> ''direct_play'' | VD_Remux \<Rightarrow> ''remux''
     | VD_Transcode \<Rightarrow> ''transcode'' | VD_ToneMap \<Rightarrow> ''tone_map'')"

definition explained :: "video_state \<Rightarrow> bool" where
  "explained st \<longleftrightarrow> fst st = VD_DirectPlay \<or> (\<exists>r \<in> set (snd st). result r = video_label (fst st))"

lemma reason_result [simp]: "result (reason f r d) = r"
  by (simp add: reason_def)

lemma explained_steps:
  assumes "explained st"
  shows "explained (check_codec media device st)"
    and "explained (check_bit_depth media device st)"
    and "explained (check_resolution media device st)"
    and "explained (check_dynamic_range media device config st)"
    and "explained (check_device_bitrate media device st)"
    and "explained (check_network_bitrate media network config st)"
    and "explained (check_manual_quality media config st)"
proof -
  show "explained (check_codec media device st)"
    using assms by (simp add: explained_def check_codec_def video_label_def)
  show "explained (check_bit_depth media device st)"
    using assms by (simp add: explained_def check_bit_depth_def video_label_def)
  show "explained (check_resolution media device st)"
    using assms by (simp add: explained_def check_resolution_def video_label_def split: prod.splits)
  show "explained (check_dynamic_range media device config st)"
    using assms
    by (auto simp: explained_def check_dynamic_range_def evaluate_dynamic_range_def video_label_def
        Let_def split: option.splits prod.splits if_splits)
  have "explained (raise_transcode (reason f ''transcode'' d) st)" for f d
    using assms by (auto simp: explained_def raise_transcode_def video_label_def)
  then show "explained (check_device_bitrate media device st)"
    and "explained (check_network_bitrate media network config st)"
    and "explained (check_manual_quality media config st)"
    using assms
    by (auto simp: check_device_bitrate_def check_network_bitrate_def check_manual_quality_def
        split: option.splits QualityMode.splits prod.splits)
qed

lemma finish_video_explained:
  assumes "explained st"
  shows "\<exists>r \<in> set (snd (finish_video media device st)).
    result r = video_label (fst (finish_video media device st))"
  using assms by (cases "fst st") (auto simp: explained_def finish_video_def video_label_def)

lemma reasons_appended:
  "set rs \<subseteq> set (snd (evaluate_audio media device config rs))"
  "set rs \<subseteq> set (snd (evaluate_subtitle lc media device config rs))"
  by (auto simp: evaluate_audio_def evaluate_subtitle_def Let_def split: option.splits)

text \<open>
  Every decision carries a reason whose result names the video decision taken.
\<close>

lemma video_decision_explained:
  "\<exists>r \<in> set (decision_reasons (decide lc media device network config)).
     result r = video_label (video (decide lc media device network config))"
proof -
  have "explained (VD_DirectPlay, [])" by (simp add: explained_def)
  then obtain r where r: "r \<in> set (snd (evaluate_video media device network config []))"
    "result r = video_label (fst (evaluate_video media device network config []))"
    using finish_video_explained explained_steps unfolding evaluate_video_def Let_def by metis
  have "decision_reasons (decide lc media device network config) =
    snd (evaluate_subtitle lc media device config (snd (evaluate_audio media device config
      (snd (evaluate_video media device network config [])))))"
    by (simp add: decide_def Let_def case_prod_beta)
  with r reasons_appended show ?thesis unfolding decide_fields(1) by (metis subset_iff)
qed


section \<open>A concrete file, device and network\<close>

definition sample_media :: MediaFileInfo where
  "sample_media = \<lparr>m_container_format = ''mkv'', m_video_codec = ''hevc'', m_video_profile = None,
     m_video_level = None, m_video_bit_depth = 10, m_video_resolution = (3840, 2160),
     m_video_bitrate_bps = 20000000, m_video_dynamic_range = ''sdr'', m_video_frame_rate = Fin 24,
     m_audio_codec = ''aac'', m_audio_channels = 6, m_audio_bitrate_bps = 640000,
     m_audio_language = None, m_has_embedded_subtitles = False, m_subtitle_format = None,
     m_additional_streams = None\<rparr>"

definition sample_device :: DeviceCapabilities where
  "sample_device = \<lparr>d_video_codecs = {''h265''}, d_audio_codecs = {''aac''},
     d_containers = {''matroska''}, d_subtitle_formats = {}, d_max_resolution = (3840, 2160),
     d_max_audio_channels = 6, d_hdr_formats = {}, d_max_bitrate_bps = 25000000,
     d_supports_dolby_vision = False, d_allow_client_side_dv_fallback = False,
     d_max_video_bit_depth = 10\<rparr>"

definition sample_network :: NetworkConditions where
  "sample_network = \<lparr>n_estimated_throughput_bps = None, n_network_tier = None\<rparr>"

definition sample_config :: DecisionEngineConfig where
  "sample_config = \<lparr>c_default_video_codec = ''h264'', c_default_audio_codec = ''aac'',
     c_fallback_max_resolution = (1920, 1080), c_fallback_max_bitrate_bps = 8000000,
     c_throughput_safety_factor = Fin (3 / 4), c_allow_client_side_dv_fallback = False,
     c_audio_passthrough_enabled = True, c_subtitle_burn_in_policy = ''last_resort'',
     c_quality_mode = Auto, c_manual_max_resolution = None\<rparr>"

lemmas sample_defs = sample_media_def sample_device_def sample_network_def sample_config_def

lemma sample_formats:
  "codec_supported ''hevc'' {''h265''}" "codec_supported ''aac'' {''aac''}"
  "container_supported ''mkv'' {''matroska''}" "\<not> is_hdr_content ''sdr''"
  "to_ascii_lowercase (trim ''sdr'') = ''sdr''" "\<not> starts_with ''sdr'' ''dolby_vision''"
  by code_simp+

lemma sample_plays_directly: "plays_directly id sample_media sample_device sample_network sample_config"
  by (simp add: plays_directly_def sample_defs video_bit_depth_ok_def res_within_def dynamic_range_direct_def
     bitrate_within_def combined_limit_def bitrate_limit_def effective_bitrate_def manual_within_def
     subtitle_renderable_def extract_dv_profile_def saturating_add_def Let_def sample_formats)

theorem direct_play_monotone_witness:
  "overall (decide id sample_media
     (sample_device\<lparr>d_max_bitrate_bps := 0, d_supports_dolby_vision := True\<rparr>) sample_network sample_config)
   = SD_DirectPlay"
proof (rule direct_play_monotone)
  show "overall (decide id sample_media sample_device sample_network sample_config) = SD_DirectPlay"
    by (simp only: overall_direct sample_plays_directly)
  show "device_extends sample_device
      (sample_device\<lparr>d_max_bitrate_bps := 0, d_supports_dolby_vision := True\<rparr>)"
    by (simp add: device_extends_def at_least_def res_within_def sample_device_def)
qed

theorem target_resolution_bounded_witness:
  "\<exists>r. target_resolution (decide id sample_media
        (sample_device\<lparr>d_max_resolution := (1920, 1080)\<rparr>) sample_network sample_config) = Some r
     \<and> res_within r (3840, 2160) \<and> res_within r (1920, 1080) \<and> even (unat (fst r)) \<and> even (unat (snd r))"
proof -
  let ?d = "sample_device\<lparr>d_max_resolution := (1920, 1080)\<rparr>"
  have "fst (evaluate_video sample_media ?d sample_network sample_config []) = VD_Transcode"
    by (simp add: sample_defs evaluate_video_def check_codec_def check_bit_depth_def check_resolution_def
        check_dynamic_range_def evaluate_dynamic_range_def extract_dv_profile_def check_device_bitrate_def
        check_network_bitrate_def bitrate_limit_def check_manual_quality_def finish_video_def
        effective_bitrate_def saturating_add_def sample_formats Let_def)
  then have "target_resolution (decide id sample_media ?d sample_network sample_config) = Some (1920, 1080)"
    unfolding decide_fields by (simp add: compute_target_resolution_def sample_defs bitrate_limit_def
        cap_resolution_def normalize_resolution_def Let_def)
  from this target_resolution_bounded [OF this] show ?thesis by (auto simp: sample_defs)
qed

theorem bitrate_limit_conservative_witness:
  "bitrate_limit (sample_network\<lparr>n_estimated_throughput_bps := Some 8000000\<rparr>) sample_config = Some 6000000
   \<and> (6000000::u64) \<le> 8000000"
proof -
  have "bitrate_limit (sample_network\<lparr>n_estimated_throughput_bps := Some 8000000\<rparr>) sample_config = Some 6000000"
    by code_simp
  then show ?thesis
    using bitrate_limit_conservative [of "sample_network\<lparr>n_estimated_throughput_bps := Some 8000000\<rparr>"
       8000000 sample_config "3/4" 6000000]
    by (simp add: sample_defs)
qed
end
