(* ===== verification/Stream_Plan.thy ===== *)
theory Stream_Plan
  imports Decision_Props
begin

text \<open>
  services/transcoding/plan.rs: a playback decision becomes a plan that copies or encodes each
  stream. \<open>StreamPlan_compile\<close> refuses what the pipeline cannot convert, \<open>output_codecs\<close>
  chooses an implemented encoder the device can play.
\<close>

definition COPY_VIDEO :: "string list" where
  "COPY_VIDEO = [''h264'', ''hevc'', ''av1'', ''vp9'']"

definition COPY_AUDIO :: "string list" where
  "COPY_AUDIO = [''aac'', ''ac3'', ''eac3'', ''mp3'', ''flac'', ''opus'']"

definition ENCODE_VIDEO :: "string list" where
  "ENCODE_VIDEO = [''h264'', ''hevc'']"

definition ENCODE_AUDIO :: "string list" where
  "ENCODE_AUDIO = [''aac'', ''ac3'', ''eac3'', ''opus'']"

datatype StreamAction = Copy | Encode

datatype PlanError = UnsupportedHdrConversion

record StreamPlan =
  p_video :: StreamAction
  p_audio :: StreamAction

definition apply_delivery_requirements ::
  "PlaybackDecision \<Rightarrow> bool \<Rightarrow> bool \<Rightarrow> bool \<Rightarrow> PlaybackDecision" where
  "apply_delivery_requirements decision force_video force_hls subtitle_selected =
     (let d1 = (if force_video then decision\<lparr>overall := SD_Transcode\<rparr>
                else if force_hls \<and> overall decision = SD_DirectPlay
                then decision\<lparr>overall := SD_DirectStream\<rparr>
                else decision)
      in if subtitle_selected \<and> overall d1 \<noteq> SD_DirectPlay
         then d1\<lparr>overall := SD_Transcode, subtitle := SubD_BurnIn, subtitle_burn_in_required := True\<rparr>
         else d1)"

definition supported_by :: "string \<Rightarrow> string list \<Rightarrow> bool" where
  "supported_by codec formats \<longleftrightarrow> codec_supported codec (set formats)"

definition known_hdr :: "MediaFileInfo \<Rightarrow> bool" where
  "known_hdr media \<longleftrightarrow>
     (let range = to_ascii_lowercase (trim (m_video_dynamic_range media))
      in range \<in> {''hdr10'', ''hdr10_plus'', ''hdr10+'', ''hlg''}
         \<or> starts_with range ''dolby_vision''
         \<or> (case Option.bind (m_additional_streams media) (\<lambda>streams. jget streams ''dolby_vision'') of
              Some dv \<Rightarrow> is_object dv | None \<Rightarrow> False))"

definition StreamPlan_compile ::
  "PlaybackDecision \<Rightarrow> MediaFileInfo \<Rightarrow> bool \<Rightarrow> PlanError + StreamPlan" where
  "StreamPlan_compile decision media force_video =
     (if requires_tone_mapping decision \<or> requires_dv_strip decision then Inl UnsupportedHdrConversion
      else
        (let copy_video = (\<not> force_video \<and> \<not> subtitle_burn_in_required decision
               \<and> video decision \<in> {VD_DirectPlay, VD_Remux}
               \<and> supported_by (m_video_codec media) COPY_VIDEO);
             copy_audio = (audio decision = AD_Passthrough
               \<and> supported_by (m_audio_codec media) COPY_AUDIO)
         in if \<not> copy_video \<and> known_hdr media then Inl UnsupportedHdrConversion
            else Inr \<lparr>p_video = (if copy_video then Copy else Encode),
                      p_audio = (if copy_audio then Copy else Encode)\<rparr>))"

definition first_implemented :: "string list \<Rightarrow> string set \<Rightarrow> string \<Rightarrow> string option" where
  "first_implemented implemented supported preference =
     List.find (\<lambda>codec. codec_supported codec {preference} \<and> codec_supported codec supported) implemented"

definition output_codec ::
  "StreamAction \<Rightarrow> string option \<Rightarrow> string \<Rightarrow> string list \<Rightarrow> string set \<Rightarrow> string option option" where
  "output_codec action preferred fallback implemented supported =
     (if action = Copy then Some None
      else case find_map (first_implemented implemented supported)
                  ((case preferred of Some p \<Rightarrow> [p] | None \<Rightarrow> []) @ [fallback]) of
          Some codec \<Rightarrow> Some (Some codec)
        | None \<Rightarrow> map_option Some (List.find (\<lambda>codec. codec_supported codec supported) implemented))"

definition output_codecs ::
  "StreamPlan \<Rightarrow> PlaybackDecision \<Rightarrow> MediaFileInfo \<Rightarrow> DeviceCapabilities \<Rightarrow> string \<Rightarrow> string
     \<Rightarrow> string + (string option \<times> string option)" where
  "output_codecs plan decision media device default_video default_audio =
     (if p_video plan = Encode \<and> known_hdr media
      then Inl ''HDR video encoding is not available in this playback pipeline''
      else case output_codec (p_video plan) (target_video_codec decision) default_video ENCODE_VIDEO
                  (d_video_codecs device) of
          None \<Rightarrow> Inl ''no compatible implemented video output codec is available''
        | Some v \<Rightarrow>
            (case output_codec (p_audio plan) (target_audio_codec decision) default_audio ENCODE_AUDIO
                    (d_audio_codecs device) of
               None \<Rightarrow> Inl ''no compatible implemented audio output codec is available''
             | Some a \<Rightarrow> Inr (v, a)))"

definition codec_args :: "StreamPlan \<Rightarrow> string list \<Rightarrow> string list \<Rightarrow> string list" where
  "codec_args plan video_encode_args audio_encode_args =
     (case p_video plan of Copy \<Rightarrow> [''-c:v'', ''copy''] | Encode \<Rightarrow> video_encode_args) @
     (case p_audio plan of Copy \<Rightarrow> [''-c:a'', ''copy''] | Encode \<Rightarrow> audio_encode_args)"

section \<open>Copied streams\<close>

definition copyable :: "VideoDecision \<Rightarrow> bool" where
  "copyable v \<longleftrightarrow> v = VD_DirectPlay \<or> v = VD_Remux"

definition dynamic_range_copyable :: "MediaFileInfo \<Rightarrow> DeviceCapabilities \<Rightarrow> bool" where
  "dynamic_range_copyable media device \<longleftrightarrow>
     (let dr = to_ascii_lowercase (trim (m_video_dynamic_range media)) in
      if extract_dv_profile media \<noteq> None \<or> starts_with dr ''dolby_vision''
      then d_supports_dolby_vision device \<or> dv_fallback media device \<noteq> None
      else (dr = ''sdr'' \<or> is_hdr_content dr) \<and> (is_hdr_content dr \<longrightarrow> hdr_supported dr (d_hdr_formats device)))"

lemma evaluate_dynamic_range_copyable:
  "copyable (fst (evaluate_dynamic_range media device config rs)) \<longleftrightarrow> dynamic_range_copyable media device"
  by (auto simp: copyable_def evaluate_dynamic_range_def dynamic_range_copyable_def Let_def
      split: option.splits)

lemma check_steps_copyable:
  "copyable (fst (check_codec media device st)) \<longleftrightarrow>
     codec_supported (m_video_codec media) (d_video_codecs device) \<and> copyable (fst st)"
  "copyable (fst (check_bit_depth media device st)) \<longleftrightarrow> video_bit_depth_ok media device \<and> copyable (fst st)"
  "copyable (fst (check_resolution media device st)) \<longleftrightarrow>
     res_within (m_video_resolution media) (d_max_resolution device) \<and> copyable (fst st)"
  "copyable (fst (check_dynamic_range media device config st)) \<longleftrightarrow>
     dynamic_range_copyable media device \<and> copyable (fst st)"
  "copyable (fst (check_manual_quality media config st)) \<longleftrightarrow> manual_within media config \<and> copyable (fst st)"
  "copyable (fst (finish_video media device st)) \<longleftrightarrow> copyable (fst st)"
proof -
  show "copyable (fst (check_codec media device st)) \<longleftrightarrow>
     codec_supported (m_video_codec media) (d_video_codecs device) \<and> copyable (fst st)"
    by (simp add: check_codec_def copyable_def)
  show "copyable (fst (check_bit_depth media device st)) \<longleftrightarrow> video_bit_depth_ok media device \<and> copyable (fst st)"
    by (auto simp: check_bit_depth_def video_bit_depth_ok_def word_gt_0 not_less copyable_def)
  show "copyable (fst (check_resolution media device st)) \<longleftrightarrow>
     res_within (m_video_resolution media) (d_max_resolution device) \<and> copyable (fst st)"
    by (auto simp: check_resolution_def res_within_def copyable_def split: prod.splits)
  show "copyable (fst (check_dynamic_range media device config st)) \<longleftrightarrow>
     dynamic_range_copyable media device \<and> copyable (fst st)"
    unfolding evaluate_dynamic_range_copyable [of media device config "snd st", symmetric]
    by (cases "fst (evaluate_dynamic_range media device config (snd st))")
      (auto simp: check_dynamic_range_def copyable_def split: prod.splits)
  show "copyable (fst (check_manual_quality media config st)) \<longleftrightarrow> manual_within media config \<and> copyable (fst st)"
    by (auto simp: check_manual_quality_def manual_within_def res_within_def raise_transcode_def copyable_def
        split: QualityMode.splits option.splits prod.splits)
  show "copyable (fst (finish_video media device st)) \<longleftrightarrow> copyable (fst st)"
    by (cases "fst st") (auto simp: finish_video_def copyable_def)
qed

lemma check_bitrates_copyable:
  "copyable (fst (check_network_bitrate media network config (check_device_bitrate media device st))) \<longleftrightarrow>
     bitrate_within media device network config \<and> copyable (fst st)"
  by (auto simp: check_network_bitrate_def check_device_bitrate_def bitrate_within_def copyable_def
      combined_limit_def raise_transcode_def not_less split: option.splits)

lemma evaluate_video_copyable:
  "copyable (fst (evaluate_video media device network config rs)) \<longleftrightarrow>
     codec_supported (m_video_codec media) (d_video_codecs device)
     \<and> video_bit_depth_ok media device
     \<and> res_within (m_video_resolution media) (d_max_resolution device)
     \<and> dynamic_range_copyable media device
     \<and> bitrate_within media device network config
     \<and> manual_within media config"
proof -
  have "copyable VD_DirectPlay" by (simp add: copyable_def)
  then show ?thesis
    by (auto simp: evaluate_video_def Let_def check_steps_copyable check_bitrates_copyable)
qed

lemma delivery_kept [simp]:
  "video (apply_delivery_requirements d fv fh ss) = video d"
  "audio (apply_delivery_requirements d fv fh ss) = audio d"
  "requires_tone_mapping (apply_delivery_requirements d fv fh ss) = requires_tone_mapping d"
  "requires_dv_strip (apply_delivery_requirements d fv fh ss) = requires_dv_strip d"
  "target_video_codec (apply_delivery_requirements d fv fh ss) = target_video_codec d"
  "target_audio_codec (apply_delivery_requirements d fv fh ss) = target_audio_codec d"
  by (simp_all add: apply_delivery_requirements_def Let_def)

lemma compile_Inr:
  assumes "StreamPlan_compile d media fv = Inr plan"
  shows "\<not> requires_tone_mapping d" "\<not> requires_dv_strip d"
    and "p_video plan = Copy \<longleftrightarrow> \<not> fv \<and> \<not> subtitle_burn_in_required d \<and> copyable (video d)
           \<and> supported_by (m_video_codec media) COPY_VIDEO"
    and "p_audio plan = Copy \<longleftrightarrow> audio d = AD_Passthrough \<and> supported_by (m_audio_codec media) COPY_AUDIO"
    and "p_video plan = Encode \<Longrightarrow> \<not> known_hdr media"
  using assms by (auto simp: StreamPlan_compile_def Let_def copyable_def split: if_splits)

lemma copy_without_strip:
  assumes "dynamic_range_copyable media device" "\<not> needs_dv_strip media device"
  shows "dynamic_range_direct media device config"
  using assms
  by (auto simp: dynamic_range_copyable_def dynamic_range_direct_def needs_dv_strip_def dv_fallback_def
      Let_def split: option.splits if_splits)

text \<open>
  C10. A compiled plan is safe for the device: a video stream is copied only when no video encode
  is forced and codec, bit depth, resolution, dynamic range, bitrate and manual quality all admit
  the source as it is; an audio stream is copied only when the device decodes it with all its
  channels; and HDR video is never re-encoded.
\<close>

theorem compiled_plan_safe:
  assumes "StreamPlan_compile
      (apply_delivery_requirements (decide lc media device network config) force_video force_hls sub)
      media force_video = Inr plan"
  shows "(p_video plan = Copy \<longrightarrow> \<not> force_video
           \<and> codec_supported (m_video_codec media) (d_video_codecs device)
           \<and> video_bit_depth_ok media device
           \<and> res_within (m_video_resolution media) (d_max_resolution device)
           \<and> dynamic_range_direct media device config
           \<and> bitrate_within media device network config
           \<and> manual_within media config)
    \<and> (p_audio plan = Copy \<longrightarrow> codec_supported (m_audio_codec media) (d_audio_codecs device)
           \<and> m_audio_channels media \<le> d_max_audio_channels device)
    \<and> (p_video plan = Encode \<longrightarrow> \<not> known_hdr media)"
proof -
  let ?D = "decide lc media device network config"
  note c = compile_Inr [OF assms, simplified]
  have strip: "requires_dv_strip ?D \<longleftrightarrow> video ?D = VD_Remux \<and> needs_dv_strip media device"
    by (simp add: decide_def Let_def case_prod_beta)
  have "dynamic_range_direct media device config" if "copyable (video ?D)"
  proof (cases "video ?D = VD_DirectPlay")
    case True
    then show ?thesis by (simp add: decide_fields evaluate_video_direct)
  next
    case False
    with that c(2) strip have "\<not> needs_dv_strip media device" by (auto simp: copyable_def)
    with that show ?thesis
      by (auto intro: copy_without_strip simp: decide_fields(1) evaluate_video_copyable)
  qed
  with c show ?thesis
    by (auto simp: decide_fields(1,2) evaluate_video_copyable evaluate_audio_passthrough)
qed

lemma sample_copyable:
  "supported_by ''hevc'' COPY_VIDEO" "supported_by ''aac'' COPY_AUDIO"
  by code_simp+

theorem compiled_plan_safe_witness:
  "\<exists>plan. StreamPlan_compile (apply_delivery_requirements
       (decide id sample_media sample_device sample_network sample_config) False True False)
       sample_media False = Inr plan
     \<and> p_video plan = Copy \<and> codec_supported (m_video_codec sample_media) (d_video_codecs sample_device)
     \<and> res_within (m_video_resolution sample_media) (d_max_resolution sample_device)"
proof -
  let ?D = "decide id sample_media sample_device sample_network sample_config"
  have "overall ?D = SD_DirectPlay" by (simp only: overall_direct sample_plays_directly)
  then have d: "video ?D = VD_DirectPlay" "audio ?D = AD_Passthrough" "\<not> subtitle_burn_in_required ?D"
      "\<not> requires_tone_mapping ?D" "\<not> requires_dv_strip ?D"
    by (simp_all add: decide_def Let_def case_prod_beta compute_overall_decision_def split: if_splits)
  have "StreamPlan_compile (apply_delivery_requirements ?D False True False) sample_media False =
      Inr \<lparr>p_video = Copy, p_audio = Copy\<rparr>"
    using d sample_copyable \<open>overall ?D = SD_DirectPlay\<close>
    by (simp add: StreamPlan_compile_def apply_delivery_requirements_def sample_media_def)
  from this compiled_plan_safe [OF this] show ?thesis by auto
qed

section \<open>Output codecs\<close>

lemma output_codec_sound:
  assumes "output_codec Encode preferred fallback implemented supported = Some r"
  shows "\<exists>c. r = Some c \<and> c \<in> set implemented \<and> codec_supported c supported"
proof (cases "find_map (first_implemented implemented supported)
    ((case preferred of Some p \<Rightarrow> [p] | None \<Rightarrow> []) @ [fallback])")
  case None
  with assms show ?thesis by (auto simp: output_codec_def dest: find_Some_set)
next
  case (Some c)
  then obtain p where "first_implemented implemented supported p = Some c"
    using find_map_Some by metis
  from find_Some_set [OF this [unfolded first_implemented_def]]
  show ?thesis using assms Some by (auto simp: output_codec_def)
qed

lemma output_codec_None:
  "output_codec action preferred fallback implemented supported = None \<longleftrightarrow>
     action = Encode \<and> (\<forall>c \<in> set implemented. \<not> codec_supported c supported)"
  (is "?l = ?r")
proof
  assume ?l
  then show ?r
    by (cases action) (auto simp: output_codec_def find_None_iff split: if_splits option.splits)
next
  assume r: ?r
  then have "first_implemented implemented supported p = None" for p
    by (auto simp: first_implemented_def find_None_iff)
  with r show ?l by (auto simp: output_codec_def find_None_iff split: option.splits)
qed

text \<open>
  The encoders chosen for a plan: each encoded stream gets an implemented codec the device
  supports and each copied stream none, and the choice fails exactly when an encoded stream has no
  implemented codec the device supports or an encode of HDR video is asked for.
\<close>

theorem output_codecs_contract:
  "case output_codecs plan decision media device default_video default_audio of
     Inr (v, a) \<Rightarrow>
       (case v of None \<Rightarrow> p_video plan = Copy
        | Some c \<Rightarrow> p_video plan = Encode \<and> \<not> known_hdr media \<and> c \<in> set ENCODE_VIDEO
                   \<and> codec_supported c (d_video_codecs device))
     \<and> (case a of None \<Rightarrow> p_audio plan = Copy
        | Some c \<Rightarrow> p_audio plan = Encode \<and> c \<in> set ENCODE_AUDIO
                   \<and> codec_supported c (d_audio_codecs device))
   | Inl _ \<Rightarrow>
       p_video plan = Encode
         \<and> (known_hdr media \<or> filter (\<lambda>c. codec_supported c (d_video_codecs device)) ENCODE_VIDEO = [])
     \<or> p_audio plan = Encode
         \<and> filter (\<lambda>c. codec_supported c (d_audio_codecs device)) ENCODE_AUDIO = []"
proof -
  have copy: "output_codec Copy p f i s = Some None" for p f i s by (simp add: output_codec_def)
  show ?thesis
    using output_codec_sound [of "target_video_codec decision" default_video ENCODE_VIDEO "d_video_codecs device"]
      output_codec_sound [of "target_audio_codec decision" default_audio ENCODE_AUDIO "d_audio_codecs device"]
    by (cases "p_video plan"; cases "p_audio plan")
      (auto simp: output_codecs_def copy output_codec_None filter_empty_conv split: option.splits)
qed

end
