(* ===== verification/Conditions.thy ===== *)
theory Conditions
  imports Json
begin

text \<open>
  services/conditions.rs: the JSONB filter rules of overlays and smart collections. \<open>evaluate\<close>
  and \<open>validate_structure\<close> follow the recursion of the code over groups and leaves. The regular
  expression engine (compile a pattern, then match a text) and the printing of a UUID belong to
  other crates and are the record \<open>filter_env\<close> the evaluation takes.
\<close>



record filter_env =
  regex_new :: "string \<Rightarrow> (string \<Rightarrow> bool) option"
  uuid_to_string :: "uuid \<Rightarrow> string"

record MediaFilterContext =
  f_media_type :: string
  f_library_id :: "uuid option"
  f_content_rating :: "string option"
  f_critic_rating :: "f64 option"
  f_genres :: "string list"
  f_video_resolution :: "string option"
  f_video_codec :: "string option"
  f_video_dynamic_range :: "string option"
  f_audio_codec :: "string option"
  f_audio_channels :: "int option"
  f_container_format :: "string option"
  f_has_dolby_vision :: bool
  f_has_multiple_versions :: bool
  f_edition :: "string option"
  f_original_language :: "string option"
  f_streaming_on :: "string list"


definition json_to_f64 :: "json \<Rightarrow> f64 option" where
  "json_to_f64 v =
     (case v of JNumber n \<Rightarrow> number_as_f64 n | JString s \<Rightarrow> parse_f64 s | _ \<Rightarrow> None)"

definition json_to_i64 :: "json \<Rightarrow> int option" where
  "json_to_i64 v =
     (case v of
        JNumber n \<Rightarrow>
          (case number_as_i64 n of Some i \<Rightarrow> Some i | None \<Rightarrow> map_option f64_to_i64 (number_as_f64 n))
      | JString s \<Rightarrow> parse_i64 s
      | _ \<Rightarrow> None)"

definition text_field :: "string \<Rightarrow> MediaFilterContext \<Rightarrow> string option" where
  "text_field field ctx =
     (if field = ''video_resolution'' then f_video_resolution ctx
      else if field = ''video_codec'' then f_video_codec ctx
      else if field = ''video_dynamic_range'' then f_video_dynamic_range ctx
      else if field = ''audio_codec'' then f_audio_codec ctx
      else if field = ''container_format'' then f_container_format ctx
      else if field = ''content_rating'' then f_content_rating ctx
      else if field = ''media_type'' then Some (f_media_type ctx)
      else if field = ''original_language'' then f_original_language ctx
      else if field = ''edition'' then f_edition ctx
      else None)"

definition compare_eq :: "filter_env \<Rightarrow> string \<Rightarrow> json option \<Rightarrow> MediaFilterContext \<Rightarrow> bool" where
  "compare_eq env field value_opt ctx =
     (case value_opt of
        None \<Rightarrow> False
      | Some value \<Rightarrow>
          if field = ''genre'' then
            (case as_str value of
               Some v \<Rightarrow> list_ex (\<lambda>g. eq_ignore_ascii_case g v) (f_genres ctx) | None \<Rightarrow> False)
          else if field = ''streaming_on'' then
            (case as_str value of
               Some v \<Rightarrow> list_ex (\<lambda>s. eq_ignore_ascii_case s v) (f_streaming_on ctx) | None \<Rightarrow> False)
          else if field = ''library_id'' then
            (case as_str value of
               None \<Rightarrow> False
             | Some target \<Rightarrow>
                 (case f_library_id ctx of
                    Some i \<Rightarrow> uuid_to_string env i = target | None \<Rightarrow> False))
          else if field = ''has_dolby_vision'' then
            (case as_bool value of Some v \<Rightarrow> v = f_has_dolby_vision ctx | None \<Rightarrow> False)
          else if field = ''has_multiple_versions'' then
            (case as_bool value of Some v \<Rightarrow> v = f_has_multiple_versions ctx | None \<Rightarrow> False)
          else if field = ''audio_channels'' then
            (case json_to_i64 value of
               None \<Rightarrow> False
             | Some target \<Rightarrow> (case f_audio_channels ctx of Some c \<Rightarrow> c = target | None \<Rightarrow> False))
          else if field = ''critic_rating'' \<or> field = ''critic_rating_above'' then
            (case json_to_f64 value of
               None \<Rightarrow> False
             | Some target \<Rightarrow>
                 (case f_critic_rating ctx of
                    Some r \<Rightarrow> f64_lt (f64_abs (f64_sub r target)) f64_EPSILON | None \<Rightarrow> False))
          else
            (case text_field field ctx of
               None \<Rightarrow> False
             | Some ctx_text \<Rightarrow>
                 (case as_str value of
                    None \<Rightarrow> False | Some val_text \<Rightarrow> eq_ignore_ascii_case ctx_text val_text)))"

definition numeric_operands :: "string \<Rightarrow> json \<Rightarrow> MediaFilterContext \<Rightarrow> (f64 \<times> f64) option" where
  "numeric_operands field value ctx =
     (if field = ''audio_channels'' then
        (case json_to_i64 value of
           None \<Rightarrow> None
         | Some t \<Rightarrow>
             (case f_audio_channels ctx of
                Some c \<Rightarrow> Some (f64_of_int c, f64_of_int t) | None \<Rightarrow> None))
      else if field = ''critic_rating'' \<or> field = ''critic_rating_above'' then
        (case json_to_f64 value of
           None \<Rightarrow> None
         | Some t \<Rightarrow> (case f_critic_rating ctx of Some r \<Rightarrow> Some (r, t) | None \<Rightarrow> None))
      else None)"

definition compare_numeric :: "string \<Rightarrow> string \<Rightarrow> json option \<Rightarrow> MediaFilterContext \<Rightarrow> bool" where
  "compare_numeric field op value_opt ctx =
     (case value_opt of
        None \<Rightarrow> False
      | Some value \<Rightarrow>
          (case numeric_operands field value ctx of
             None \<Rightarrow> False
           | Some (ctx_num, target) \<Rightarrow>
               if op = ''gt'' then f64_lt target ctx_num
               else if op = ''gte'' then f64_le target ctx_num
               else if op = ''lt'' then f64_lt ctx_num target
               else if op = ''lte'' then f64_le ctx_num target
               else False))"

definition field_present :: "string \<Rightarrow> MediaFilterContext \<Rightarrow> bool" where
  "field_present field ctx =
     (if field = ''video_resolution'' then f_video_resolution ctx \<noteq> None
      else if field = ''video_codec'' then f_video_codec ctx \<noteq> None
      else if field = ''video_dynamic_range'' then f_video_dynamic_range ctx \<noteq> None
      else if field = ''audio_codec'' then f_audio_codec ctx \<noteq> None
      else if field = ''audio_channels'' then f_audio_channels ctx \<noteq> None
      else if field = ''container_format'' then f_container_format ctx \<noteq> None
      else if field = ''content_rating'' then f_content_rating ctx \<noteq> None
      else if field = ''critic_rating'' \<or> field = ''critic_rating_above'' then f_critic_rating ctx \<noteq> None
      else if field = ''original_language'' then f_original_language ctx \<noteq> None
      else if field = ''edition'' then f_edition ctx \<noteq> None
      else if field = ''media_type'' then f_media_type ctx \<noteq> []
      else if field = ''library_id'' then f_library_id ctx \<noteq> None
      else if field = ''genre'' then f_genres ctx \<noteq> []
      else if field = ''streaming_on'' then f_streaming_on ctx \<noteq> []
      else if field = ''has_dolby_vision'' then f_has_dolby_vision ctx
      else if field = ''has_multiple_versions'' then f_has_multiple_versions ctx
      else False)"

definition check_exists :: "string \<Rightarrow> bool \<Rightarrow> MediaFilterContext \<Rightarrow> bool" where
  "check_exists field want_exists ctx \<longleftrightarrow> field_present field ctx = want_exists"

definition match_regex :: "filter_env \<Rightarrow> string \<Rightarrow> string \<Rightarrow> MediaFilterContext \<Rightarrow> bool" where
  "match_regex env field pattern ctx =
     (case text_field field ctx of
        None \<Rightarrow> False
      | Some t \<Rightarrow> (case regex_new env pattern of Some is_match \<Rightarrow> is_match t | None \<Rightarrow> False))"

type_synonym json_map = "(string \<times> json) list"

definition get_str :: "json_map \<Rightarrow> string \<Rightarrow> string option" where
  "get_str obj k = Option.bind (map_of obj k) as_str"

definition get_array :: "json_map \<Rightarrow> string \<Rightarrow> json list option" where
  "get_array obj k = Option.bind (map_of obj k) as_array"

definition evaluate_leaf :: "filter_env \<Rightarrow> json_map \<Rightarrow> MediaFilterContext \<Rightarrow> bool" where
  "evaluate_leaf env obj ctx =
     (case get_str obj ''field'' of
        None \<Rightarrow> False
      | Some field \<Rightarrow>
          (case get_str obj ''op'' of
             None \<Rightarrow> False
           | Some op \<Rightarrow>
               if op = ''eq'' then compare_eq env field (map_of obj ''value'') ctx
               else if op = ''neq'' then \<not> compare_eq env field (map_of obj ''value'') ctx
               else if op = ''in'' then
                 (case get_array obj ''values'' of
                    None \<Rightarrow> False
                  | Some values \<Rightarrow> list_ex (\<lambda>v. compare_eq env field (Some v) ctx) values)
               else if op \<in> {''gt'', ''gte'', ''lt'', ''lte''} then
                 compare_numeric field op (map_of obj ''value'') ctx
               else if op = ''exists'' then
                 (let want = (case Option.bind (map_of obj ''value'') as_bool of
                                Some b \<Rightarrow> b | None \<Rightarrow> True)
                  in check_exists field want ctx)
               else if op = ''matches'' then
                 (case get_str obj ''value'' of
                    None \<Rightarrow> False | Some pattern \<Rightarrow> match_regex env field pattern ctx)
               else False))"

section \<open>Groups\<close>


lemma list_all_fun_cong [fundef_cong]:
  "xs = ys \<Longrightarrow> (\<And>x. x \<in> set ys \<Longrightarrow> f x = g x) \<Longrightarrow> list_all f xs = list_all g ys"
  by (auto simp: list_all_iff)

lemma list_ex_fun_cong [fundef_cong]:
  "xs = ys \<Longrightarrow> (\<And>x. x \<in> set ys \<Longrightarrow> f x = g x) \<Longrightarrow> list_ex f xs = list_ex g ys"
  by (auto simp: list_ex_iff)




section \<open>Validation\<close>



text \<open>The loop \<^verbatim>\<open>for rule in rules { check(rule)?; }\<close>.\<close>

fun try_each :: "('a \<Rightarrow> 'e + unit) \<Rightarrow> 'a list \<Rightarrow> 'e + unit" where
  "try_each f [] = Inr ()"
| "try_each f (x # xs) = (case f x of Inl e \<Rightarrow> Inl e | Inr _ \<Rightarrow> try_each f xs)"

lemma try_each_cong [fundef_cong]:
  "xs = ys \<Longrightarrow> (\<And>x. x \<in> set ys \<Longrightarrow> f x = g x) \<Longrightarrow> try_each f xs = try_each g ys"
  by (hypsubst_thin, induction ys) (auto split: sum.splits)





section \<open>What the rules mean\<close>

text \<open>
  The abstract rules an administrator writes: a test of one field, or a conjunction or
  disjunction of rules. An empty disjunction holds, as the code has it.
\<close>

datatype test =
    T_eq json | T_neq json | T_one_of "json list" | T_numeric string json
  | T_exists bool | T_matches string | T_never

datatype rule = Const bool | Test string test | All_of "rule list" | Any_of "rule list"



















section \<open>Comparisons\<close>

definition text_eq_field :: "string \<Rightarrow> bool" where
  "text_eq_field field \<longleftrightarrow>
     field \<notin> {''library_id'', ''has_dolby_vision'', ''has_multiple_versions'', ''audio_channels'',
             ''critic_rating'', ''critic_rating_above''}"

lemma eq_ignore_ascii_case_cong:
  "eq_ignore_ascii_case s t \<Longrightarrow> eq_ignore_ascii_case a s \<longleftrightarrow> eq_ignore_ascii_case a t"
  by (auto simp: eq_ignore_ascii_case_def)

text \<open>
  Equality tests on text fields, genres and streaming services ignore ASCII case.
\<close>

theorem text_equality_ignores_case:
  assumes "text_eq_field field" and "eq_ignore_ascii_case s t"
  shows "compare_eq env field (Some (JString s)) ctx = compare_eq env field (Some (JString t)) ctx"
  using assms(1) unfolding text_eq_field_def compare_eq_def
  by (simp add: as_str_def eq_ignore_ascii_case_cong [OF assms(2)] split: option.splits)

definition sample_env :: filter_env where
  "sample_env = \<lparr>regex_new = (\<lambda>p. Some (starts_with p)), uuid_to_string = show_u\<rparr>"

definition sample_ctx :: MediaFilterContext where
  "sample_ctx = \<lparr>f_media_type = ''movie'', f_library_id = None, f_content_rating = Some ''PG-13'',
     f_critic_rating = Some (Fin (15 / 2)), f_genres = [''Drama''], f_video_resolution = Some ''4K'',
     f_video_codec = None, f_video_dynamic_range = None, f_audio_codec = None, f_audio_channels = Some 6,
     f_container_format = None, f_has_dolby_vision = True, f_has_multiple_versions = False,
     f_edition = None, f_original_language = None, f_streaming_on = []\<rparr>"

theorem text_equality_ignores_case_witness:
  "compare_eq sample_env ''video_resolution'' (Some (JString ''4k'')) sample_ctx"
proof -
  have "compare_eq sample_env ''video_resolution'' (Some (JString ''4k'')) sample_ctx
      = compare_eq sample_env ''video_resolution'' (Some (JString ''4K'')) sample_ctx"
    by (rule text_equality_ignores_case) (simp add: text_eq_field_def, code_simp)
  moreover have "compare_eq sample_env ''video_resolution'' (Some (JString ''4K'')) sample_ctx"
    by (simp add: compare_eq_def as_str_def text_field_def sample_ctx_def eq_ignore_ascii_case_def)
  ultimately show ?thesis by simp
qed

definition leaf_obj :: "string \<Rightarrow> string \<Rightarrow> json \<Rightarrow> json_map" where
  "leaf_obj field op v = [(''field'', JString field), (''op'', JString op), (''value'', v)]"

definition numeric_leaf :: "filter_env \<Rightarrow> string \<Rightarrow> string \<Rightarrow> json \<Rightarrow> MediaFilterContext \<Rightarrow> bool" where
  "numeric_leaf env field op v ctx = evaluate_leaf env (leaf_obj field op v) ctx"

lemma numeric_leaf_eq:
  assumes "op \<in> {''gt'', ''gte'', ''lt'', ''lte''}"
  shows "numeric_leaf env field op v ctx = compare_numeric field op (Some v) ctx"
  using assms by (auto simp: numeric_leaf_def evaluate_leaf_def leaf_obj_def get_str_def as_str_def)

text \<open>
  The four order operators are consistent: on a numeric field with a comparable value
  \<open>gte\<close> is the negation of \<open>lt\<close> and \<open>lte\<close> of \<open>gt\<close>; when the field, the value or the numbers
  are missing, or one of them is NaN, none of the four matches.
\<close>

theorem order_operators_consistent:
  "case numeric_operands field v ctx of
     Some (x, y) \<Rightarrow>
       if x \<noteq> NaN \<and> y \<noteq> NaN
       then numeric_leaf env field ''gte'' v ctx = (\<not> numeric_leaf env field ''lt'' v ctx)
          \<and> numeric_leaf env field ''lte'' v ctx = (\<not> numeric_leaf env field ''gt'' v ctx)
          \<and> (numeric_leaf env field ''gte'' v ctx \<and> numeric_leaf env field ''lte'' v ctx) = (x = y)
       else list_all (\<lambda>op. \<not> numeric_leaf env field op v ctx) [''gt'', ''gte'', ''lt'', ''lte'']
   | None \<Rightarrow> list_all (\<lambda>op. \<not> numeric_leaf env field op v ctx) [''gt'', ''gte'', ''lt'', ''lte'']"
  by (auto simp: numeric_leaf_eq compare_numeric_def f64_lt_def f64_le_def f64_eq_def
      split: option.splits f64.splits)

end
