(* ===== verification/Scheduler.thy ===== *)
theory Scheduler
  imports Json
begin

text \<open>
  services/scheduler.rs: the scheduled-task runner over the tables \<^verbatim>\<open>scheduled_tasks\<close> and
  \<^verbatim>\<open>scheduled_task_runs\<close>. A table is the list of its rows; a statement that can fail takes a
  flag saying whether the database answers, and a failed statement changes nothing. Timestamps are
  microseconds; \<open>updated_at\<close>, which no code of the runner reads, is left out. The cron library is
  the parameter \<open>cron_next\<close>: the next occurrence strictly after a time, or nothing when the
  expression does not parse or has no next occurrence. Identifiers the database generates are
  arguments.
\<close>

type_synonym time = int

record ScheduledTaskRow =
  t_id :: uuid
  t_name :: string
  t_task_type :: string
  t_cron_expression :: "string option"
  t_interval_seconds :: "int option"
  t_is_enabled :: bool
  t_timeout_seconds :: int
  t_max_retries :: int
  t_retry_delay_seconds :: int
  t_state :: string
  t_consecutive_failures :: int
  t_last_run_at :: "time option"
  t_last_run_duration_ms :: "int option"
  t_last_run_result :: "string option"
  t_last_error :: "string option"
  t_next_run_at :: "time option"
  t_config :: json
  t_metadata :: json

record ScheduledTaskRunRow =
  r_id :: uuid
  r_scheduled_task_id :: uuid
  r_trigger_type :: string
  r_state :: string
  r_started_at :: time
  r_completed_at :: "time option"
  r_duration_ms :: "int option"
  r_result :: "string option"
  r_error_message :: "string option"
  r_error_details :: "json option"
  r_stats :: json

datatype SchedulerError =
    InvalidCron string | TaskNotFound uuid | AlreadyRunning uuid
  | ExecutorNotRegistered string | Database

datatype TaskRunOutcome = Success | Failure string | Cancelled | Timeout

text \<open>
  The task spawned by \<^verbatim>\<open>execute_task\<close>: what it captured, its cancellation token, and how far it
  is: inside the handler, after the update of the task row, after the update of the run row.
\<close>

datatype exec_phase = Handling | Updated string "string option" | Completed

record execution =
  e_run :: uuid
  e_task :: uuid
  e_name :: string
  e_timeout :: u64
  e_max_retries :: int
  e_retry_delay :: u64
  e_failures :: int
  e_token :: nat
  e_phase :: exec_phase

record scheduler =
  tasks :: "ScheduledTaskRow list"
  runs :: "ScheduledTaskRunRow list"
  active_tasks :: "uuid \<rightharpoonup> nat"
  next_token :: nat
  cancelled :: "nat set"
  starting :: "(ScheduledTaskRow \<times> string) list"
  executions :: "execution list"

section \<open>Statements\<close>

text \<open>
  \<^verbatim>\<open>EXTRACT(EPOCH FROM (now() - started_at))::INT * 1000\<close>: seconds rounded half away from zero,
  both the cast and the product in 32-bit integers, out of range an error of the statement.
\<close>

definition epoch_seconds :: "int \<Rightarrow> int" where
  "epoch_seconds us =
     (if 0 \<le> us then (us + 500000) div 1000000 else - ((- us + 500000) div 1000000))"

definition duration_ms :: "time \<Rightarrow> time \<Rightarrow> int option" where
  "duration_ms now started =
     (let s = epoch_seconds (now - started)
      in if is_i32 s \<and> is_i32 (s * 1000) then Some (s * 1000) else None)"

text \<open>The scalar subquery on the run row: NULL when there is no such row.\<close>

definition run_duration :: "time \<Rightarrow> uuid \<Rightarrow> scheduler \<Rightarrow> int option option" where
  "run_duration now run_id w =
     (case List.find (\<lambda>r. r_id r = run_id) (runs w) of
        None \<Rightarrow> Some None
      | Some r \<Rightarrow> map_option Some (duration_ms now (r_started_at r)))"

definition is_running :: "uuid \<Rightarrow> ScheduledTaskRow \<Rightarrow> bool" where
  "is_running tid t \<longleftrightarrow> t_id t = tid \<and> t_state t = ''running''"

definition claim_task :: "bool \<Rightarrow> uuid \<Rightarrow> scheduler \<Rightarrow> (SchedulerError + unit) \<times> scheduler" where
  "claim_task up task_id w =
     (let claimable = (\<lambda>t. t_id t = task_id \<and> t_state t \<noteq> ''running'')
      in if \<not> up then (Inl Database, w)
         else if filter claimable (tasks w) = [] then (Inl (AlreadyRunning task_id), w)
         else (Inr (), w\<lparr>tasks := update_where claimable (\<lambda>t. t\<lparr>t_state := ''running''\<rparr>) (tasks w)\<rparr>))"

definition create_run ::
  "bool \<Rightarrow> uuid \<Rightarrow> uuid \<Rightarrow> string \<Rightarrow> time \<Rightarrow> scheduler \<Rightarrow> (SchedulerError + uuid) \<times> scheduler" where
  "create_run up new_id task_id trigger_type now w =
     (if \<not> up \<or> new_id \<in> r_id ` set (runs w) \<or> task_id \<notin> t_id ` set (tasks w)
         \<or> trigger_type \<notin> {''scheduled'', ''manual'', ''retry''}
      then (Inl Database, w)
      else (Inr new_id, w\<lparr>runs := runs w @
         [\<lparr>r_id = new_id, r_scheduled_task_id = task_id, r_trigger_type = trigger_type,
           r_state = ''running'', r_started_at = now, r_completed_at = None, r_duration_ms = None,
           r_result = None, r_error_message = None, r_error_details = None, r_stats = JObject []\<rparr>]\<rparr>))"

definition reset_claim_after_start_failure :: "bool \<Rightarrow> uuid \<Rightarrow> scheduler \<Rightarrow> scheduler" where
  "reset_claim_after_start_failure up task_id w =
     (if up then w\<lparr>tasks := update_where (is_running task_id)
        (\<lambda>t. t\<lparr>t_state := ''idle'',
               t_last_error := Some ''Failed to create scheduled task run record''\<rparr>) (tasks w)\<rparr>
      else w)"

definition complete_run ::
  "bool \<Rightarrow> time \<Rightarrow> uuid \<Rightarrow> string \<Rightarrow> string option \<Rightarrow> json option \<Rightarrow> scheduler \<Rightarrow> scheduler" where
  "complete_run up now run_id result' error_message stats w =
     (let matches = (\<lambda>r. r_id r = run_id \<and> r_state r = ''running'')
      in if \<not> up \<or> (\<exists>r \<in> set (runs w). matches r \<and> duration_ms now (r_started_at r) = None) then w
         else w\<lparr>runs := update_where matches
           (\<lambda>r. r\<lparr>r_state := (if result' = ''success'' then ''completed''
                             else if result' = ''cancelled'' then ''cancelled'' else ''failed''),
                  r_completed_at := Some now,
                  r_duration_ms := duration_ms now (r_started_at r),
                  r_result := Some result',
                  r_error_message := error_message,
                  r_stats := (case stats of Some s \<Rightarrow> s | None \<Rightarrow> r_stats r)\<rparr>) (runs w)\<rparr>)"

section \<open>Computing the next run\<close>

definition seconds :: "int \<Rightarrow> int" where
  "seconds s = s * 1000000"

definition compute_next_run ::
  "(string \<Rightarrow> time \<Rightarrow> time option) \<Rightarrow> string option \<Rightarrow> int option \<Rightarrow> time \<Rightarrow> time" where
  "compute_next_run cron_next cron_expression interval_seconds from' =
     (case Option.bind cron_expression (\<lambda>expr. cron_next expr from') of
        Some next \<Rightarrow> next
      | None \<Rightarrow>
          (case interval_seconds of
             Some secs \<Rightarrow> from' + seconds secs
           | None \<Rightarrow> from' + seconds 3600))"

definition task_timeout_duration :: "int \<Rightarrow> u64" where
  "task_timeout_duration timeout_seconds = word_of_int (max timeout_seconds 1)"

section \<open>The end of a run\<close>

definition on_task_success ::
  "(string \<Rightarrow> time \<Rightarrow> time option) \<Rightarrow> bool \<Rightarrow> bool \<Rightarrow> time \<Rightarrow> uuid \<Rightarrow> uuid \<Rightarrow> scheduler \<Rightarrow> scheduler" where
  "on_task_success cron_next select_up up now task_id run_id w =
     (let next_run =
        (case (if select_up then List.find (\<lambda>t. t_id t = task_id) (tasks w) else None) of
           Some row \<Rightarrow> compute_next_run cron_next (t_cron_expression row) (t_interval_seconds row) now
         | None \<Rightarrow> now + seconds 3600)
      in case run_duration now run_id w of
           None \<Rightarrow> w
         | Some duration \<Rightarrow>
             if \<not> up then w
             else w\<lparr>tasks := update_where (is_running task_id)
               (\<lambda>t. t\<lparr>t_state := ''idle'', t_consecutive_failures := 0, t_last_run_at := Some now,
                      t_last_run_duration_ms := duration, t_last_run_result := Some ''success'',
                      t_last_error := None, t_next_run_at := Some next_run\<rparr>) (tasks w)\<rparr>)"

text \<open>
  \<^verbatim>\<open>info.consecutive_failures + 1\<close> is 32-bit arithmetic; the retry delay made the round trip from
  \<open>i32\<close> through \<open>u64\<close> to \<open>i64\<close>.
\<close>

definition on_task_failure ::
  "bool \<Rightarrow> time \<Rightarrow> uuid \<Rightarrow> uuid \<Rightarrow> string \<Rightarrow> string \<Rightarrow> int \<Rightarrow> u64 \<Rightarrow> int \<Rightarrow> scheduler \<Rightarrow> scheduler" where
  "on_task_failure up now task_id run_id result_kind error_message max_retries retry_delay_secs
     consecutive_failures w =
     (let new_failures = i32_wrap (consecutive_failures + 1);
          should_disable = (new_failures \<ge> max_retries);
          next_run = (if should_disable then None else Some (now + seconds (sint retry_delay_secs)))
      in case run_duration now run_id w of
           None \<Rightarrow> w
         | Some duration \<Rightarrow>
             if \<not> up then w
             else w\<lparr>tasks := update_where (is_running task_id)
               (\<lambda>t. t\<lparr>t_state := ''idle'',
                      t_is_enabled := (if should_disable then False else t_is_enabled t),
                      t_consecutive_failures := new_failures, t_last_run_at := Some now,
                      t_last_run_duration_ms := duration, t_last_run_result := Some result_kind,
                      t_last_error := Some error_message, t_next_run_at := next_run\<rparr>) (tasks w)\<rparr>)"

definition on_task_cancelled :: "bool \<Rightarrow> time \<Rightarrow> uuid \<Rightarrow> uuid \<Rightarrow> scheduler \<Rightarrow> scheduler" where
  "on_task_cancelled up now task_id run_id w =
     (case run_duration now run_id w of
        None \<Rightarrow> w
      | Some duration \<Rightarrow>
          if \<not> up then w
          else w\<lparr>tasks := update_where (is_running task_id)
            (\<lambda>t. t\<lparr>t_state := ''idle'', t_last_run_at := Some now, t_last_run_duration_ms := duration,
                   t_last_run_result := Some ''cancelled'',
                   t_last_error := Some ''Cancelled by administrator''\<rparr>) (tasks w)\<rparr>)"

text \<open>
  The spawned task's \<^verbatim>\<open>match handle.await\<close>: \<open>Inl\<close> is the join error of a panicking handler.
  \<open>finish_update\<close> is the first half of the \<^verbatim>\<open>on_task_*\<close> functions (the task row),
  \<open>finish_complete\<close> their final call of \<open>complete_run\<close>, \<open>finish_remove\<close> the removal of the
  registered token after them.
\<close>

definition outcome_result :: "execution \<Rightarrow> string + TaskRunOutcome \<Rightarrow> string \<times> string option" where
  "outcome_result e out =
     (case out of
        Inr Success \<Rightarrow> (''success'', None)
      | Inr (Failure error_message) \<Rightarrow> (''failure'', Some error_message)
      | Inr Cancelled \<Rightarrow> (''cancelled'', Some ''Cancelled by administrator'')
      | Inr Timeout \<Rightarrow> (''timeout'', Some (''Task timed out after '' @ show_u (e_timeout e) @ '' seconds''))
      | Inl err \<Rightarrow> (''failure'', Some (''Task panicked: '' @ err)))"

definition record_outcome ::
  "(string \<Rightarrow> time \<Rightarrow> time option) \<Rightarrow> bool \<Rightarrow> bool \<Rightarrow> time \<Rightarrow> execution \<Rightarrow> string + TaskRunOutcome
     \<Rightarrow> scheduler \<Rightarrow> scheduler" where
  "record_outcome cron_next select_up up now e out w =
     (let fail = (\<lambda>kind msg. on_task_failure up now (e_task e) (e_run e) kind msg
                    (e_max_retries e) (e_retry_delay e) (e_failures e) w)
      in case out of
           Inr Success \<Rightarrow> on_task_success cron_next select_up up now (e_task e) (e_run e) w
         | Inr (Failure error_message) \<Rightarrow> fail ''failure'' error_message
         | Inr Cancelled \<Rightarrow> on_task_cancelled up now (e_task e) (e_run e) w
         | Inr Timeout \<Rightarrow> fail ''timeout''
             (''Task timed out after '' @ show_u (e_timeout e) @ '' seconds'')
         | Inl err \<Rightarrow> fail ''failure'' (''Task panicked: '' @ err))"

definition set_phase :: "execution \<Rightarrow> exec_phase \<Rightarrow> scheduler \<Rightarrow> scheduler" where
  "set_phase e p w =
     w\<lparr>executions := update_where (\<lambda>x. e_token x = e_token e) (\<lambda>x. x\<lparr>e_phase := p\<rparr>) (executions w)\<rparr>"

definition finish_update ::
  "(string \<Rightarrow> time \<Rightarrow> time option) \<Rightarrow> bool \<Rightarrow> bool \<Rightarrow> time \<Rightarrow> execution \<Rightarrow> string + TaskRunOutcome
     \<Rightarrow> scheduler \<Rightarrow> scheduler" where
  "finish_update cron_next select_up up now e out w =
     (let (kind, msg) = outcome_result e out
      in set_phase e (Updated kind msg) (record_outcome cron_next select_up up now e out w))"

definition finish_complete :: "bool \<Rightarrow> time \<Rightarrow> execution \<Rightarrow> scheduler \<Rightarrow> scheduler" where
  "finish_complete up now e w =
     (case e_phase e of
        Updated kind msg \<Rightarrow> set_phase e Completed (complete_run up now (e_run e) kind msg None w)
      | _ \<Rightarrow> w)"

definition finish_remove :: "execution \<Rightarrow> scheduler \<Rightarrow> scheduler" where
  "finish_remove e w =
     w\<lparr>active_tasks := (active_tasks w)(e_task e := None),
       executions := filter (\<lambda>x. e_token x \<noteq> e_token e) (executions w)\<rparr>"

section \<open>Starting a run\<close>

definition spawn_execution :: "ScheduledTaskRow \<Rightarrow> uuid \<Rightarrow> scheduler \<Rightarrow> scheduler" where
  "spawn_execution task run_id w =
     w\<lparr>active_tasks := (active_tasks w)(t_id task \<mapsto> next_token w),
       next_token := Suc (next_token w),
       executions := executions w @
         [\<lparr>e_run = run_id, e_task = t_id task, e_name = t_name task,
           e_timeout = task_timeout_duration (t_timeout_seconds task),
           e_max_retries = t_max_retries task,
           e_retry_delay = word_of_int (t_retry_delay_seconds task),
           e_failures = t_consecutive_failures task,
           e_token = next_token w, e_phase = Handling\<rparr>]\<rparr>"

record exec_env =
  claim_up :: bool
  create_up :: bool
  reset_up :: bool
  generated_id :: uuid
  clock :: time

definition start_run ::
  "exec_env \<Rightarrow> ScheduledTaskRow \<Rightarrow> string \<Rightarrow> scheduler \<Rightarrow> (SchedulerError + uuid) \<times> scheduler" where
  "start_run env task trigger_type w =
     (case create_run (create_up env) (generated_id env) (t_id task) trigger_type (clock env) w of
        (Inr run_id, w') \<Rightarrow> (Inr run_id, spawn_execution task run_id w')
      | (Inl err, w') \<Rightarrow> (Inl err, reset_claim_after_start_failure (reset_up env) (t_id task) w'))"

definition execute_task ::
  "string list \<Rightarrow> exec_env \<Rightarrow> ScheduledTaskRow \<Rightarrow> string \<Rightarrow> scheduler
     \<Rightarrow> (SchedulerError + uuid) \<times> scheduler" where
  "execute_task executors env task trigger_type w =
     (if t_task_type task \<notin> set executors then (Inl (ExecutorNotRegistered (t_task_type task)), w)
      else case claim_task (claim_up env) (t_id task) w of
          (Inl err, w') \<Rightarrow> (Inl err, w')
        | (Inr _, w') \<Rightarrow> start_run env task trigger_type w')"

definition get_task :: "bool \<Rightarrow> uuid \<Rightarrow> scheduler \<Rightarrow> SchedulerError + ScheduledTaskRow" where
  "get_task up task_id w =
     (if \<not> up then Inl Database
      else case List.find (\<lambda>t. t_id t = task_id) (tasks w) of
          Some t \<Rightarrow> Inr t | None \<Rightarrow> Inl (TaskNotFound task_id))"

definition trigger_task ::
  "string list \<Rightarrow> bool \<Rightarrow> exec_env \<Rightarrow> uuid \<Rightarrow> scheduler \<Rightarrow> (SchedulerError + uuid) \<times> scheduler" where
  "trigger_task executors up env task_id w =
     (case get_task up task_id w of
        Inl err \<Rightarrow> (Inl err, w)
      | Inr task \<Rightarrow>
          if t_state task = ''running'' then (Inl (AlreadyRunning task_id), w)
          else execute_task executors env task ''manual'' w)"

definition is_due :: "time \<Rightarrow> ScheduledTaskRow \<Rightarrow> bool" where
  "is_due now t \<longleftrightarrow> t_is_enabled t \<and> t_state t \<noteq> ''running''
     \<and> (case t_next_run_at t of Some n \<Rightarrow> n \<le> now | None \<Rightarrow> False)"

definition fetch_due_tasks :: "bool \<Rightarrow> time \<Rightarrow> scheduler \<Rightarrow> SchedulerError + ScheduledTaskRow list" where
  "fetch_due_tasks up now w =
     (if up then Inr (sort_key (\<lambda>t. the (t_next_run_at t)) (filter (is_due now) (tasks w)))
      else Inl Database)"

fun tick_loop :: "string list \<Rightarrow> (nat \<Rightarrow> exec_env) \<Rightarrow> ScheduledTaskRow list \<Rightarrow> scheduler \<Rightarrow> scheduler" where
  "tick_loop executors envs [] w = w"
| "tick_loop executors envs (task # rest) w =
     tick_loop executors (\<lambda>n. envs (Suc n)) rest (snd (execute_task executors (envs 0) task ''scheduled'' w))"

definition tick ::
  "string list \<Rightarrow> bool \<Rightarrow> time \<Rightarrow> (nat \<Rightarrow> exec_env) \<Rightarrow> scheduler \<Rightarrow> (SchedulerError + unit) \<times> scheduler" where
  "tick executors up now envs w =
     (case fetch_due_tasks up now w of
        Inl err \<Rightarrow> (Inl err, w)
      | Inr due_tasks \<Rightarrow> (Inr (), tick_loop executors envs due_tasks w))"

section \<open>Cancellation\<close>

definition latest_run :: "uuid \<Rightarrow> ScheduledTaskRunRow list \<Rightarrow> ScheduledTaskRunRow option" where
  "latest_run task_id rs =
     (case rev (sort_key r_started_at (filter (\<lambda>r. r_scheduled_task_id r = task_id) rs)) of
        [] \<Rightarrow> None | r # _ \<Rightarrow> Some r)"

definition cancel_token :: "uuid \<Rightarrow> scheduler \<Rightarrow> scheduler" where
  "cancel_token task_id w =
     (case active_tasks w task_id of
        Some tok \<Rightarrow> w\<lparr>active_tasks := (active_tasks w)(task_id := None),
                      cancelled := insert tok (cancelled w)\<rparr>
      | None \<Rightarrow> w)"

definition cancel_runs :: "time \<Rightarrow> uuid \<Rightarrow> scheduler \<Rightarrow> scheduler option" where
  "cancel_runs now task_id w =
     (let matches = (\<lambda>r. r_scheduled_task_id r = task_id \<and> r_state r = ''running'')
      in if \<exists>r \<in> set (runs w). matches r \<and> duration_ms now (r_started_at r) = None then None
         else Some (w\<lparr>runs := update_where matches
           (\<lambda>r. r\<lparr>r_state := ''cancelled'', r_completed_at := Some now,
                  r_duration_ms := duration_ms now (r_started_at r), r_result := Some ''cancelled'',
                  r_error_message := Some ''Cancelled by administrator''\<rparr>) (runs w)\<rparr>))"

definition cancel_task ::
  "bool \<Rightarrow> bool \<Rightarrow> bool \<Rightarrow> time \<Rightarrow> uuid \<Rightarrow> scheduler \<Rightarrow> (SchedulerError + unit) \<times> scheduler" where
  "cancel_task get_up runs_up tasks_up now task_id w =
     (case get_task get_up task_id w of
        Inl err \<Rightarrow> (Inl err, w)
      | Inr task \<Rightarrow>
          if t_state task \<noteq> ''running'' then (Inr (), w)
          else
            (let w1 = cancel_token task_id w
             in case (if runs_up then cancel_runs now task_id w1 else None) of
                  None \<Rightarrow> (Inl Database, w1)
                | Some w2 \<Rightarrow>
                    if \<not> tasks_up then (Inl Database, w2)
                    else (Inr (), w2\<lparr>tasks := update_where (\<lambda>t. t_id t = task_id)
                      (\<lambda>t. t\<lparr>t_state := ''idle'', t_last_run_at := Some now,
                             t_last_run_duration_ms :=
                               Option.bind (latest_run task_id (runs w2)) r_duration_ms,
                             t_last_run_result := Some ''cancelled'',
                             t_last_error := Some ''Cancelled by administrator''\<rparr>) (tasks w2)\<rparr>)))"

section \<open>Listing and seeding\<close>

text \<open>The order of names is the database's collation, a parameter.\<close>

definition list_tasks :: "(string \<Rightarrow> nat) \<Rightarrow> bool \<Rightarrow> scheduler \<Rightarrow> SchedulerError + ScheduledTaskRow list" where
  "list_tasks collation up w =
     (if up then Inr (sort_key (\<lambda>t. collation (t_name t)) (tasks w)) else Inl Database)"

definition list_task_runs ::
  "bool \<Rightarrow> bool \<Rightarrow> uuid \<Rightarrow> int \<Rightarrow> int \<Rightarrow> scheduler \<Rightarrow> SchedulerError + ScheduledTaskRunRow list" where
  "list_task_runs get_up up task_id limit offset w =
     (case get_task get_up task_id w of
        Inl err \<Rightarrow> Inl err
      | Inr _ \<Rightarrow>
          if \<not> up \<or> limit < 0 \<or> offset < 0 then Inl Database
          else Inr (take (nat limit) (drop (nat offset)
            (sort_key (\<lambda>r. - r_started_at r) (filter (\<lambda>r. r_scheduled_task_id r = task_id) (runs w))))))"

definition default_tasks :: "(string \<times> string \<times> string option \<times> int option) list" where
  "default_tasks =
    [(''Library Scan'', ''library_scan'', Some ''0 3 * * *'', None),
     (''Metadata Refresh'', ''metadata_refresh'', Some ''0 4 * * *'', None),
     (''Database Maintenance'', ''database_maintenance'', Some ''0 5 * * 0'', None),
     (''Database Backup'', ''backup_database'', Some ''0 3 * * *'', None),
     (''Backup Verification'', ''backup_verification'', Some ''30 4 * * *'', None),
     (''Backup Retention Cleanup'', ''backup_retention_cleanup'', Some ''0 5 * * 0'', None),
     (''Backup Recovery Drill'', ''backup_recovery_drill'', Some ''0 7 * * 0'', None),
     (''Reindex Maintenance'', ''reindex_maintenance'', Some ''0 2 * * 0'', None),
     (''Partition Management'', ''partition_management'', Some ''0 0 1 * *'', None),
     (''Analyze Parents'', ''analyze_parents'', Some ''0 3 * * *'', None),
     (''Session Cleanup'', ''session_cleanup'', None, Some 3600),
     (''Notification Cleanup'', ''notification_cleanup'', Some ''0 2 * * *'', None),
     (''Disk Space Check'', ''disk_space_check'', None, Some 1800),
     (''Media Health Check'', ''media_health_check'', Some ''0 6 * * 0'', None),
     (''Soft Delete Purge'', ''soft_delete_purge'', Some ''0 1 * * *'', None),
     (''Subtitle Auto-Fetch'', ''subtitle_auto_fetch'', None, Some 1800),
     (''Segment Analysis'', ''segment_analysis'', Some ''0 3 * * *'', None),
     (''Storyboard Generation'', ''storyboard_generation'', Some ''0 4 * * *'', None),
     (''Trakt Sync'', ''trakt_sync'', None, Some 1800),
     (''GeoIP Database Update'', ''geoip_database_update'', Some ''0 3 * * 1'', None),
     (''Collection Sync'', ''collection_sync'', Some ''0 6 * * *'', None),
     (''Overlay Application'', ''overlay_application'', Some ''0 5 * * *'', None),
     (''Asset Directory Scan'', ''asset_directory_scan'', Some ''0 3 * * *'', None),
     (''Download Package Worker'', ''download_package_worker'', None, Some 60)]"

text \<open>One \<^verbatim>\<open>INSERT ... ON CONFLICT (name) DO NOTHING\<close>; the other columns take their defaults.\<close>

definition seed_task ::
  "(string \<Rightarrow> time \<Rightarrow> time option) \<Rightarrow> uuid \<Rightarrow> time \<Rightarrow> string \<times> string \<times> string option \<times> int option
     \<Rightarrow> scheduler \<Rightarrow> scheduler" where
  "seed_task cron_next new_id now d w =
     (case d of (name', task_type, cron_expr, interval_secs) \<Rightarrow>
        if name' \<in> t_name ` set (tasks w) then w
        else w\<lparr>tasks := tasks w @
          [\<lparr>t_id = new_id, t_name = name', t_task_type = task_type, t_cron_expression = cron_expr,
            t_interval_seconds = interval_secs, t_is_enabled = True, t_timeout_seconds = 3600,
            t_max_retries = 3, t_retry_delay_seconds = 300, t_state = ''idle'',
            t_consecutive_failures = 0, t_last_run_at = None, t_last_run_duration_ms = None,
            t_last_run_result = None, t_last_error = None,
            t_next_run_at = Some (compute_next_run cron_next cron_expr interval_secs now),
            t_config = JObject [], t_metadata = JObject []\<rparr>]\<rparr>)"

fun seed_loop ::
  "(string \<Rightarrow> time \<Rightarrow> time option) \<Rightarrow> (bool \<times> uuid \<times> time) list
     \<Rightarrow> (string \<times> string \<times> string option \<times> int option) list \<Rightarrow> scheduler
     \<Rightarrow> (SchedulerError + unit) \<times> scheduler" where
  "seed_loop cron_next (env # envs) (d # ds) w =
     (case env of (up, new_id, now) \<Rightarrow>
        if \<not> up \<or> (new_id \<in> t_id ` set (tasks w) \<and> fst d \<notin> t_name ` set (tasks w))
        then (Inl Database, w)
        else seed_loop cron_next envs ds (seed_task cron_next new_id now d w))"
| "seed_loop cron_next _ _ w = (Inr (), w)"

definition seed_default_tasks ::
  "(string \<Rightarrow> time \<Rightarrow> time option) \<Rightarrow> bool \<Rightarrow> (bool \<times> uuid \<times> time) list \<Rightarrow> scheduler
     \<Rightarrow> (SchedulerError + unit) \<times> scheduler" where
  "seed_default_tasks cron_next up envs w =
     (if \<not> up then (Inl Database, w)
      else if length (tasks w) > 0 then (Inr (), w)
      else seed_loop cron_next envs default_tasks w)"

end
