(* ===== verification/Scheduler_Props.thy ===== *)
theory Scheduler_Props
  imports Scheduler
begin

text \<open>
  The scheduler as a transition system. A call of \<open>execute_task\<close> is split at its database
  statements, so that other calls and the ends of earlier runs interleave between its claim and
  its run record, and a run ends in three steps. \<open>run_step\<close> has every step but cancellation;
  \<open>sched_step\<close> adds \<open>cancel_task\<close>.
\<close>

inductive run_step ::
  "(string \<Rightarrow> time \<Rightarrow> time option) \<Rightarrow> string list \<Rightarrow> scheduler \<Rightarrow> scheduler \<Rightarrow> bool"
  for cron_next :: "string \<Rightarrow> time \<Rightarrow> time option" and executors :: "string list" where
  claim: "t_task_type task \<in> set executors \<Longrightarrow> claim_task up (t_id task) w = (Inr (), w')
    \<Longrightarrow> run_step cron_next executors w (w'\<lparr>starting := (task, trigger) # starting w'\<rparr>)"
| start: "(task, trigger) \<in> set (starting w)
    \<Longrightarrow> run_step cron_next executors w
          (snd (start_run env task trigger (w\<lparr>starting := remove1 (task, trigger) (starting w)\<rparr>)))"
| update: "e \<in> set (executions w) \<Longrightarrow> e_phase e = Handling
    \<Longrightarrow> (out = Inr Cancelled \<Longrightarrow> e_token e \<in> cancelled w)
    \<Longrightarrow> run_step cron_next executors w (finish_update cron_next select_up up now e out w)"
| complete: "e \<in> set (executions w) \<Longrightarrow> e_phase e = Updated kind msg
    \<Longrightarrow> run_step cron_next executors w (finish_complete up now e w)"
| remove: "e \<in> set (executions w) \<Longrightarrow> e_phase e = Completed
    \<Longrightarrow> run_step cron_next executors w (finish_remove e w)"

inductive sched_step ::
  "(string \<Rightarrow> time \<Rightarrow> time option) \<Rightarrow> string list \<Rightarrow> scheduler \<Rightarrow> scheduler \<Rightarrow> bool"
  for cron_next :: "string \<Rightarrow> time \<Rightarrow> time option" and executors :: "string list" where
  run: "run_step cron_next executors w w' \<Longrightarrow> sched_step cron_next executors w w'"
| cancel: "sched_step cron_next executors w (snd (cancel_task get_up runs_up tasks_up now task_id w))"

definition fresh_start :: "scheduler \<Rightarrow> bool" where
  "fresh_start w \<longleftrightarrow> distinct (map t_id (tasks w)) \<and> distinct (map r_id (runs w))
     \<and> starting w = [] \<and> executions w = [] \<and> cancelled w = {}"

text \<open>The calls that hold the claim of a task: between claim and run record, or in the handler.\<close>

definition holders :: "uuid \<Rightarrow> scheduler \<Rightarrow> nat" where
  "holders tid w =
     length (filter (\<lambda>(t, _). t_id t = tid) (starting w))
     + length (filter (\<lambda>e. e_task e = tid \<and> e_phase e = Handling) (executions w))"

definition claim_slots :: "uuid \<Rightarrow> scheduler \<Rightarrow> nat" where
  "claim_slots tid w = (if \<exists>t \<in> set (tasks w). is_running tid t then 1 else 0)"

lemma claim_slots_fields [simp]:
  "claim_slots i (w\<lparr>starting := st\<rparr>) = claim_slots i w"
  "claim_slots i (w\<lparr>executions := es\<rparr>) = claim_slots i w"
  by (simp_all add: claim_slots_def)

definition claims_held :: "scheduler \<Rightarrow> bool" where
  "claims_held w \<longleftrightarrow>
     distinct (map t_id (tasks w))
     \<and> distinct (map e_token (executions w))
     \<and> (\<forall>e \<in> set (executions w). e_token e < next_token w)
     \<and> (\<forall>tid. holders tid w \<le> claim_slots tid w)"

section \<open>Statements keep what they do not name\<close>

definition claimable :: "uuid \<Rightarrow> ScheduledTaskRow \<Rightarrow> bool" where
  "claimable tid t \<longleftrightarrow> t_id t = tid \<and> t_state t \<noteq> ''running''"

lemma claim_task_Inr:
  "claim_task up tid w = (Inr (), w') \<longleftrightarrow>
     up \<and> (\<exists>t \<in> set (tasks w). claimable tid t)
     \<and> w' = w\<lparr>tasks := update_where (claimable tid) (\<lambda>t. t\<lparr>t_state := ''running''\<rparr>) (tasks w)\<rparr>"
proof -
  have c: "claimable tid = (\<lambda>t. t_id t = tid \<and> t_state t \<noteq> ''running'')"
    by (simp add: claimable_def fun_eq_iff)
  have "filter (claimable tid) (tasks w) = [] \<longleftrightarrow> \<not> (\<exists>t \<in> set (tasks w). claimable tid t)"
    by (simp add: filter_empty_conv)
  then show ?thesis
    unfolding claim_task_def Let_def c [symmetric]
    by (cases up; cases "filter (claimable tid) (tasks w) = []") (simp_all, metis)
qed

lemma claim_task_running:
  assumes "claim_task up tid w = (Inr (), w')" "distinct (map t_id (tasks w))"
  shows "\<not> (\<exists>t \<in> set (tasks w). is_running tid t)"
    and "(\<exists>t \<in> set (tasks w'). is_running i t) \<longleftrightarrow> i = tid \<or> (\<exists>t \<in> set (tasks w). is_running i t)"
proof -
  from assms(1) obtain t where t: "t \<in> set (tasks w)" "claimable tid t"
    and w': "tasks w' = update_where (claimable tid) (\<lambda>t. t\<lparr>t_state := ''running''\<rparr>) (tasks w)"
    unfolding claim_task_Inr by auto
  then show "\<not> (\<exists>t \<in> set (tasks w). is_running tid t)"
    using assms(2) unfolding is_running_def claimable_def distinct_map by (metis inj_onD)
  have "is_running i (if claimable tid x then x\<lparr>t_state := ''running''\<rparr> else x)
      \<longleftrightarrow> i = tid \<and> claimable tid x \<or> is_running i x" for x
    by (cases "claimable tid x") (auto simp: is_running_def claimable_def)
  then show "(\<exists>t \<in> set (tasks w'). is_running i t) \<longleftrightarrow> i = tid \<or> (\<exists>t \<in> set (tasks w). is_running i t)"
    using t unfolding w' bex_update_where by (simp only: simp_thms) blast
qed

text \<open>Statements that set a running row idle: what they can change of the running rows.\<close>

definition releases :: "uuid \<Rightarrow> scheduler \<Rightarrow> scheduler \<Rightarrow> bool" where
  "releases tid w w' \<longleftrightarrow>
     map t_id (tasks w') = map t_id (tasks w) \<and> executions w' = executions w
     \<and> starting w' = starting w \<and> next_token w' = next_token w \<and> cancelled w' = cancelled w
     \<and> runs w' = runs w
     \<and> (\<forall>i. i \<noteq> tid \<longrightarrow> (\<exists>t \<in> set (tasks w). is_running i t) \<longrightarrow> (\<exists>t \<in> set (tasks w'). is_running i t))"

lemma releases_refl [simp]: "releases tid w w"
  by (simp add: releases_def)

lemma releases_update:
  assumes "\<And>t. t_id (f t) = t_id t"
  shows "releases tid w (w\<lparr>tasks := update_where (is_running tid) f (tasks w)\<rparr>)"
proof -
  have "\<exists>t \<in> set (update_where (is_running tid) f (tasks w)). is_running i t"
    if "i \<noteq> tid" "t \<in> set (tasks w)" "is_running i t" for i t
  proof -
    have "\<not> is_running tid t" using that by (auto simp: is_running_def)
    then have "t \<in> set (update_where (is_running tid) f (tasks w))"
      using that(2) by (force simp: set_update_where)
    with that show ?thesis by blast
  qed
  then show ?thesis using assms by (auto simp: releases_def)
qed

lemma releases_reset: "releases tid w (reset_claim_after_start_failure up tid w)"
  by (simp add: reset_claim_after_start_failure_def releases_update)

lemma releases_outcome: "releases (e_task e) w (record_outcome cron_next select_up up now e out w)"
  by (auto simp: record_outcome_def on_task_success_def on_task_failure_def on_task_cancelled_def Let_def
      intro!: releases_update split: option.splits sum.splits TaskRunOutcome.splits)

section \<open>One run at a time\<close>

definition handling :: "uuid \<Rightarrow> execution list \<Rightarrow> nat" where
  "handling tid es = length (filter (\<lambda>e. e_task e = tid \<and> e_phase e = Handling) es)"

abbreviation (input) rephase :: "nat \<Rightarrow> exec_phase \<Rightarrow> execution list \<Rightarrow> execution list" where
  "rephase tok p \<equiv> update_where (\<lambda>x. e_token x = tok) (\<lambda>x. x\<lparr>e_phase := p\<rparr>)"

lemma rephase_other: "tok \<notin> e_token ` set es \<Longrightarrow> rephase tok p es = es"
  by (induction es) (auto simp: update_where_def)

lemma handling_rephase:
  assumes "distinct (map e_token es)" "e \<in> set es" "p \<noteq> Handling"
  shows "handling i es =
    handling i (rephase (e_token e) p es) + (if e_task e = i \<and> e_phase e = Handling then 1 else 0)"
  using assms
proof (induction es)
  case (Cons x es)
  show ?case
  proof (cases "x = e")
    case True
    then have "rephase (e_token e) p es = es" using Cons.prems by (intro rephase_other) auto
    with True Cons.prems show ?thesis by (simp add: handling_def update_where_def)
  next
    case False
    then have "e \<in> set es" "e_token x \<noteq> e_token e" using Cons.prems by auto
    with Cons show ?thesis by (simp add: handling_def update_where_def)
  qed
qed simp

lemma handling_filter_token:
  assumes "distinct (map e_token es)" "e \<in> set es" "e_phase e \<noteq> Handling"
  shows "handling i (filter (\<lambda>x. e_token x \<noteq> e_token e) es) = handling i es"
proof -
  have "x = e" if "x \<in> set es" "e_token x = e_token e" for x
    using assms that by (auto simp: distinct_map dest: inj_onD)
  then have "filter (\<lambda>x. (e_task x = i \<and> e_phase x = Handling) \<and> e_token x \<noteq> e_token e) es
      = filter (\<lambda>x. e_task x = i \<and> e_phase x = Handling) es"
    using assms(3) by (intro filter_cong) auto
  then show ?thesis by (simp add: handling_def filter_filter conj_commute)
qed

lemma holders_handling:
  "holders tid w = length (filter (\<lambda>(t, _). t_id t = tid) (starting w)) + handling tid (executions w)"
  by (simp add: holders_def handling_def)

lemma set_phase_fields [simp]:
  "tasks (set_phase e p w) = tasks w" "runs (set_phase e p w) = runs w"
  "starting (set_phase e p w) = starting w" "next_token (set_phase e p w) = next_token w"
  "cancelled (set_phase e p w) = cancelled w"
  "executions (set_phase e p w) = rephase (e_token e) p (executions w)"
  by (simp_all add: set_phase_def)

lemma rephase_tokens [simp]: "map e_token (rephase tok p es) = map e_token es"
  by simp

lemma rephase_token_bound [simp]:
  "(\<forall>x \<in> set (rephase tok p es). e_token x < n) \<longleftrightarrow> (\<forall>x \<in> set es. e_token x < n)"
  by (induction es) (auto simp: update_where_def)

lemma complete_run_fields [simp]:
  "tasks (complete_run up now r k m st w) = tasks w"
  "starting (complete_run up now r k m st w) = starting w"
  "next_token (complete_run up now r k m st w) = next_token w"
  "cancelled (complete_run up now r k m st w) = cancelled w"
  "executions (complete_run up now r k m st w) = executions w"
  by (simp_all add: complete_run_def Let_def)

lemma claims_held_fresh: "fresh_start w \<Longrightarrow> claims_held w"
  by (simp add: fresh_start_def claims_held_def holders_def)

lemma claims_held_claim:
  assumes "claims_held w" "claim_task up (t_id task) w = (Inr (), w')"
  shows "claims_held (w'\<lparr>starting := (task, trigger) # starting w'\<rparr>)"
proof -
  note h = assms(1) [unfolded claims_held_def]
  note run = claim_task_running [OF assms(2)]
  from assms(2) have f: "executions w' = executions w" "starting w' = starting w" "next_token w' = next_token w"
      "map t_id (tasks w') = map t_id (tasks w)"
    by (auto simp: claim_task_Inr)
  have "holders i (w'\<lparr>starting := (task, trigger) # starting w'\<rparr>)
      \<le> claim_slots i w'" for i
    using h [THEN conjunct2, THEN conjunct2, THEN conjunct2, rule_format, of i] run(1) run(2) [of i] h
    by (cases "i = t_id task") (simp_all add: holders_def f claim_slots_def)
  then show ?thesis using h unfolding claims_held_def by (simp add: f)
qed

lemma length_filter_remove1:
  "x \<in> set xs \<Longrightarrow> P x \<Longrightarrow> length (filter P (remove1 x xs)) = length (filter P xs) - 1"
  by (simp add: filter_remove1 length_remove1)

lemma holders_remove_starting:
  assumes "(task, trigger) \<in> set (starting w)"
  shows "holders i w = holders i (w\<lparr>starting := remove1 (task, trigger) (starting w)\<rparr>)
    + (if t_id task = i then 1 else 0)"
proof -
  let ?P = "\<lambda>(t, _). t_id t = i"
  have "length (filter ?P (starting w)) = length (filter ?P (remove1 (task, trigger) (starting w)))
    + (if t_id task = i then 1 else 0)"
  proof (cases "t_id task = i")
    case True
    then have "filter ?P (starting w) \<noteq> []" using assms by (auto simp: filter_empty_conv)
    then have "length (filter ?P (starting w)) > 0" by blast
    with True assms show ?thesis by (simp add: length_filter_remove1)
  next
    case False
    then show ?thesis by (simp add: filter_remove1 remove1_idem)
  qed
  then show ?thesis by (simp add: holders_def)
qed

lemma claims_held_releases:
  assumes "distinct (map t_id (tasks w))" "distinct (map e_token (executions w))"
    "\<forall>e \<in> set (executions w). e_token e < next_token w"
    and "\<And>i. holders i w + (if i = tid then 1 else 0)
           \<le> claim_slots i w"
    and "releases tid w w'"
  shows "claims_held w'"
proof -
  note r = assms(5) [unfolded releases_def]
  have "holders i w' \<le> claim_slots i w'" for i
  proof -
    have "holders i w' = holders i w" using r by (simp add: holders_def)
    then show ?thesis using assms(4) [of i] r by (cases "i = tid") (auto simp: claim_slots_def split: if_splits)
  qed
  then show ?thesis using assms(1-3) r by (simp add: claims_held_def)
qed

lemma create_run_cases:
  obtains (ok) rid w' where "create_run up new_id tid trigger now w = (Inr rid, w')"
  | (fail) e where "create_run up new_id tid trigger now w = (Inl e, w)"
proof -
  have "(\<exists>rid w'. p = (Inr rid, w')) \<or> (\<exists>e. p = (Inl e, w))"
    if "p = (if B then (Inl Database, w) else (Inr i, x))" for p B and i :: uuid and x
    using that by (cases B) auto
  from this [OF create_run_def [of up new_id tid trigger now w]] ok fail show ?thesis by blast
qed

lemma create_run_fields:
  assumes "create_run up new_id tid trigger now w = (Inr rid, w')"
  shows "tasks w' = tasks w" "starting w' = starting w" "executions w' = executions w"
    "next_token w' = next_token w" "cancelled w' = cancelled w" "rid = new_id"
    "new_id \<notin> r_id ` set (runs w)" "\<exists>r. runs w' = runs w @ [r] \<and> r_id r = new_id"
  using assms unfolding create_run_def by (simp_all split: if_split_asm) (auto)

lemma claims_held_start:
  assumes "claims_held w" "(task, trigger) \<in> set (starting w)"
  shows "claims_held (snd (start_run env task trigger (w\<lparr>starting := remove1 (task, trigger) (starting w)\<rparr>)))"
proof -
  let ?w = "w\<lparr>starting := remove1 (task, trigger) (starting w)\<rparr>"
  note h = assms(1) [unfolded claims_held_def]
  note rem = holders_remove_starting [OF assms(2)]
  consider (ok) rid w' where
      "create_run (create_up env) (generated_id env) (t_id task) trigger (clock env) ?w = (Inr rid, w')"
    | (fail) e where
      "create_run (create_up env) (generated_id env) (t_id task) trigger (clock env) ?w = (Inl e, ?w)"
    by (rule create_run_cases)
  then show ?thesis
  proof cases
    case ok
    note f = create_run_fields [OF ok, simplified]
    have "holders i (spawn_execution task rid w') = holders i w" for i
      using rem [of i] by (simp add: holders_def spawn_execution_def f)
    moreover have "claim_slots i (spawn_execution task rid w') = claim_slots i w" for i
      by (simp add: claim_slots_def spawn_execution_def f)
    ultimately have "claims_held (spawn_execution task rid w')"
      using h unfolding claims_held_def by (auto simp: spawn_execution_def f less_Suc_eq)
    then show ?thesis by (simp add: start_run_def ok)
  next
    case fail
    have "holders i ?w + (if i = t_id task then 1 else 0)
        \<le> claim_slots i ?w" for i
      using h [THEN conjunct2, THEN conjunct2, THEN conjunct2, rule_format, of i] rem [of i]
      by auto
    from claims_held_releases [OF _ _ _ this releases_reset] h fail show ?thesis
      by (simp add: start_run_def)
  qed
qed

lemma claims_held_update:
  assumes "claims_held w" "e \<in> set (executions w)" "e_phase e = Handling"
  shows "claims_held (finish_update cron_next select_up up now e out w)"
proof -
  obtain kind msg where o: "outcome_result e out = (kind, msg)" by fastforce
  let ?w = "w\<lparr>executions := rephase (e_token e) (Updated kind msg) (executions w)\<rparr>"
  let ?u = "record_outcome cron_next select_up up now e out w"
  note h = assms(1) [unfolded claims_held_def]
  have rel: "releases (e_task e) w ?u" by (rule releases_outcome)
  have fu: "finish_update cron_next select_up up now e out w = set_phase e (Updated kind msg) ?u"
    by (simp add: finish_update_def o)
  have count: "holders i w = holders i ?w + (if i = e_task e then 1 else 0)" for i
    using handling_rephase [of "executions w" e "Updated kind msg" i] h assms(2,3)
    by (auto simp: holders_handling)
  have "releases (e_task e) ?w (set_phase e (Updated kind msg) ?u)"
    using rel by (simp add: releases_def)
  moreover have "holders i ?w + (if i = e_task e then 1 else 0)
      \<le> claim_slots i ?w" for i
    unfolding count [symmetric] using h by simp
  moreover have "\<forall>x \<in> set (executions ?w). e_token x < next_token w"
    using h by simp
  ultimately show ?thesis unfolding fu using h by (intro claims_held_releases [of ?w]) auto
qed

lemma claims_held_complete:
  assumes "claims_held w" "e \<in> set (executions w)" "e_phase e = Updated kind msg"
  shows "claims_held (finish_complete up now e w)"
proof -
  note h = assms(1) [unfolded claims_held_def]
  have "holders i (finish_complete up now e w) = holders i w" for i
    using handling_rephase [of "executions w" e Completed i] h assms(2,3)
    by (simp add: holders_handling finish_complete_def)
  moreover have "\<forall>x \<in> set (rephase (e_token e) Completed (executions w)). e_token x < next_token w"
    using h by simp
  moreover have "claim_slots i (finish_complete up now e w) = claim_slots i w" for i
    using assms(3) by (simp add: claim_slots_def finish_complete_def)
  ultimately show ?thesis
    using h assms(3) unfolding claims_held_def by (simp add: finish_complete_def)
qed

lemma claims_held_remove:
  assumes "claims_held w" "e \<in> set (executions w)" "e_phase e = Completed"
  shows "claims_held (finish_remove e w)"
proof -
  note h = assms(1) [unfolded claims_held_def]
  have "holders i (finish_remove e w) = holders i w" for i
    using handling_filter_token [of "executions w" e i] h assms(2,3)
    by (simp add: holders_handling finish_remove_def)
  moreover have "claim_slots i (finish_remove e w) = claim_slots i w" for i
    by (simp add: claim_slots_def finish_remove_def)
  ultimately show ?thesis
    using h unfolding claims_held_def by (auto simp: finish_remove_def distinct_map_filter)
qed

lemma claims_held_run_step:
  "run_step cron_next executors w w' \<Longrightarrow> claims_held w \<Longrightarrow> claims_held w'"
  by (induction rule: run_step.induct)
    (auto intro: claims_held_claim claims_held_start claims_held_update claims_held_complete
      claims_held_remove)

lemma claims_held_reachable:
  "(run_step cron_next executors)\<^sup>*\<^sup>* w w' \<Longrightarrow> claims_held w \<Longrightarrow> claims_held w'"
  by (induction rule: rtranclp_induct) (auto intro: claims_held_run_step)

text \<open>
  C3. As long as no run is cancelled, a task never runs twice at once: in every interleaving of
  scheduler ticks, manual triggers, failing statements and ending runs, at most one call holds the
  claim of a task, and none does while its row is not in state running.
\<close>

theorem one_run_at_a_time:
  assumes "fresh_start w" and "(run_step cron_next executors)\<^sup>*\<^sup>* w w'"
  shows "holders tid w' \<le> claim_slots tid w'"
  using claims_held_reachable [OF assms(2) claims_held_fresh [OF assms(1)]]
  unfolding claims_held_def by blast

section \<open>The operations are made of these steps\<close>

lemma execute_task_steps:
  "(run_step cron_next executors)\<^sup>*\<^sup>* w (snd (execute_task executors env task trigger w))"
proof (cases "t_task_type task \<in> set executors")
  case True
  show ?thesis
  proof (cases "claim_task (claim_up env) (t_id task) w")
    case (Pair r w')
    show ?thesis
    proof (cases r)
      case (Inl e)
      with Pair have "w' = w" by (simp add: claim_task_def Let_def split: if_split_asm)
      with True Pair Inl show ?thesis by (simp add: execute_task_def)
    next
      case (Inr u)
      let ?w1 = "w'\<lparr>starting := (task, trigger) # starting w'\<rparr>"
      have "run_step cron_next executors w ?w1"
        using True Pair Inr by (intro run_step.claim) auto
      moreover have "run_step cron_next executors ?w1 (snd (start_run env task trigger w'))"
        using run_step.start [of task trigger ?w1 cron_next executors env] by simp
      ultimately have "(run_step cron_next executors)\<^sup>*\<^sup>* w (snd (start_run env task trigger w'))"
        by (meson converse_rtranclp_into_rtranclp r_into_rtranclp)
      with True Pair Inr show ?thesis by (simp add: execute_task_def)
    qed
  qed
qed (simp add: execute_task_def)

lemma tick_loop_steps:
  "(run_step cron_next executors)\<^sup>*\<^sup>* w (tick_loop executors envs due w)"
proof (induction due arbitrary: envs w)
  case (Cons task rest)
  from execute_task_steps Cons.IH show ?case unfolding tick_loop.simps by (rule rtranclp_trans)
qed simp


section \<open>Which tasks a tick starts\<close>

lemma claim_task_snd:
  "executions (snd (claim_task up tid w)) = executions w"
  by (simp add: claim_task_def Let_def)

lemma start_run_executions:
  "e \<in> set (executions (snd (start_run env task trigger w)))
     \<Longrightarrow> e \<in> set (executions w) \<or> e_task e = t_id task"
proof -
  assume a: "e \<in> set (executions (snd (start_run env task trigger w)))"
  show ?thesis
  proof (rule create_run_cases [of "create_up env" "generated_id env" "t_id task" trigger "clock env" w])
    fix rid w'
    assume ok: "create_run (create_up env) (generated_id env) (t_id task) trigger (clock env) w = (Inr rid, w')"
    show ?thesis using a create_run_fields(3) [OF ok] by (auto simp: start_run_def ok spawn_execution_def)
  next
    fix err
    assume fl: "create_run (create_up env) (generated_id env) (t_id task) trigger (clock env) w = (Inl err, w)"
    show ?thesis using a by (simp add: start_run_def fl reset_claim_after_start_failure_def split: if_splits)
  qed
qed

lemma execute_task_executions:
  "e \<in> set (executions (snd (execute_task executors env task trigger w)))
     \<Longrightarrow> e \<in> set (executions w) \<or> (e_task e = t_id task \<and> t_task_type task \<in> set executors)"
proof -
  assume a: "e \<in> set (executions (snd (execute_task executors env task trigger w)))"
  obtain r w' where c: "claim_task (claim_up env) (t_id task) w = (r, w')" by fastforce
  then have "executions w' = executions w" using claim_task_snd [of "claim_up env" "t_id task" w] by simp
  with a start_run_executions [of e env task trigger w'] show ?thesis
    by (auto simp: execute_task_def c split: if_splits sum.splits)
qed

lemma tick_loop_executions:
  "e \<in> set (executions (tick_loop executors envs due w))
     \<Longrightarrow> e \<in> set (executions w) \<or> (\<exists>t \<in> set due. e_task e = t_id t \<and> t_task_type t \<in> set executors)"
proof (induction due arbitrary: envs w)
  case (Cons t due)
  from Cons.prems Cons.IH [of "\<lambda>n. envs (Suc n)" "snd (execute_task executors (envs 0) t ''scheduled'' w)"]
  show ?case using execute_task_executions [of e executors "envs 0" t "''scheduled''" w] by auto
qed simp

text \<open>
  Every run a tick starts belongs to a task that was enabled, not running and due at the time
  of the tick, and whose type has a registered executor.
\<close>

theorem tick_starts_due_tasks:
  assumes "e \<in> set (executions (snd (tick executors up now envs w)))" and "e \<notin> set (executions w)"
  shows "\<exists>t \<in> set (tasks w). e_task e = t_id t \<and> t_is_enabled t \<and> t_state t \<noteq> ''running''
    \<and> (\<exists>n. t_next_run_at t = Some n \<and> n \<le> now) \<and> t_task_type t \<in> set executors"
proof -
  let ?due = "sort_key (\<lambda>t. the (t_next_run_at t)) (filter (is_due now) (tasks w))"
  from assms have "e \<in> set (executions (tick_loop executors envs ?due w))"
    by (auto simp: tick_def fetch_due_tasks_def split: if_splits)
  from tick_loop_executions [OF this] assms(2)
  obtain t where "t \<in> set (tasks w)" "is_due now t" "e_task e = t_id t" "t_task_type t \<in> set executors"
    by auto
  then show ?thesis unfolding is_due_def by (auto split: option.splits)
qed


section \<open>Run history\<close>

lemma update_where_keeps: "x \<in> set xs \<Longrightarrow> \<not> p x \<Longrightarrow> x \<in> set (update_where p f xs)"
  unfolding set_update_where by force

lemma complete_run_keeps:
  "r \<in> set (runs w) \<Longrightarrow> r_state r \<noteq> ''running'' \<Longrightarrow> r \<in> set (runs (complete_run up now i k m st w))"
  by (simp add: complete_run_def Let_def update_where_keeps)

lemma start_run_keeps: "r \<in> set (runs w) \<Longrightarrow> r \<in> set (runs (snd (start_run env task trigger w)))"
  by (simp add: start_run_def create_run_def spawn_execution_def reset_claim_after_start_failure_def)

lemma run_step_keeps:
  "run_step cron_next executors w w' \<Longrightarrow> r \<in> set (runs w) \<Longrightarrow> r_state r \<noteq> ''running''
     \<Longrightarrow> r \<in> set (runs w')"
proof (induction rule: run_step.induct)
  case (claim task up w w' trigger)
  then show ?case by (auto simp: claim_task_Inr)
next
  case (start task trigger w env)
  then show ?case by (simp add: start_run_keeps)
next
  case (update e w out select_up up now)
  have "runs (record_outcome cron_next select_up up now e out w) = runs w"
    using releases_outcome [of e w cron_next select_up up now out] by (simp add: releases_def)
  with update show ?case by (simp add: finish_update_def split: prod.splits)
next
  case (complete e w kind msg up now)
  then show ?case by (simp add: finish_complete_def complete_run_keeps)
next
  case (remove e w)
  then show ?case by (simp add: finish_remove_def)
qed

lemma cancel_keeps:
  "r \<in> set (runs w) \<Longrightarrow> r_state r \<noteq> ''running''
     \<Longrightarrow> r \<in> set (runs (snd (cancel_task g ru tu now tid w)))"
  by (simp add: cancel_task_def cancel_token_def cancel_runs_def Let_def update_where_keeps
      split: sum.splits option.splits)

text \<open>
  The history of runs is final: no step, cancellation included, deletes a run or changes one
  that is no longer in state running.
\<close>

theorem run_history_final:
  assumes "(sched_step cron_next executors)\<^sup>*\<^sup>* w w'" and "r \<in> set (runs w)" and "r_state r \<noteq> ''running''"
  shows "r \<in> set (runs w')"
  using assms
  by (induction rule: rtranclp_induct) (auto elim!: sched_step.cases dest: run_step_keeps intro: cancel_keeps)

section \<open>Retrying\<close>

text \<open>
  A failed or timed-out run counts against its task: the row returns to idle with the failure
  recorded; below the retry limit the task is due again after its retry delay, at the limit it is
  disabled and has no next run.
\<close>

theorem failure_counts_and_disables:
  assumes "t \<in> set (tasks w)" and "is_running tid t" and "is_i32 delay"
    and "0 \<le> failures" and "failures < 2 ^ 31 - 1"
    and "run_duration now run_id w = Some d"
  shows "\<exists>t' \<in> set (tasks (on_task_failure True now tid run_id kind msg limit (word_of_int delay) failures w)).
      t_id t' = tid \<and> t_state t' = ''idle'' \<and> t_consecutive_failures t' = failures + 1
      \<and> t_last_run_result t' = Some kind \<and> t_last_error t' = Some msg
      \<and> (if limit \<le> failures + 1 then \<not> t_is_enabled t' \<and> t_next_run_at t' = None
         else t_is_enabled t' = t_is_enabled t \<and> t_next_run_at t' = Some (now + seconds delay))"
proof -
  have f: "i32_wrap (failures + 1) = failures + 1"
    using assms(4,5) by (simp add: i32_wrap_id is_i32_def)
  have d: "sint (word_of_int delay :: u64) = delay"
    using assms(3) by (simp add: is_i32_def signed_of_int signed_take_bit_int_eq_self)
  show ?thesis
    unfolding on_task_failure_def Let_def assms(6) f d
    using assms(1,2)
    by (simp add: bex_update_where) (intro conjI impI; rule bexI [of _ t]; simp add: is_running_def)
qed

section \<open>The next run lies in the future\<close>

text \<open>
  When the cron library returns times strictly later than the one it is given, and the
  interval, if any, is positive, the next run is strictly later than the present.
\<close>

theorem next_run_in_future:
  assumes "\<And>expr t n. cron_next expr t = Some n \<Longrightarrow> t < n"
    and "case interval of Some s \<Rightarrow> 0 < s | None \<Rightarrow> True"
  shows "now < compute_next_run cron_next cron interval now"
  using assms
  by (cases cron) (auto simp: compute_next_run_def seconds_def split: option.splits)

section \<open>A concrete scheduler\<close>

definition sample_cron :: "string \<Rightarrow> time \<Rightarrow> time option" where
  "sample_cron expr t = (if expr = ''* * * * *'' then Some (t + seconds 60) else None)"

definition sample_task :: ScheduledTaskRow where
  "sample_task = \<lparr>t_id = 1, t_name = ''Scan'', t_task_type = ''library_scan'',
     t_cron_expression = None, t_interval_seconds = Some 900, t_is_enabled = True,
     t_timeout_seconds = 60, t_max_retries = 3, t_retry_delay_seconds = 300, t_state = ''idle'',
     t_consecutive_failures = 0, t_last_run_at = None, t_last_run_duration_ms = None,
     t_last_run_result = None, t_last_error = None, t_next_run_at = Some 0,
     t_config = JObject [], t_metadata = JObject []\<rparr>"

definition sample_scheduler :: scheduler where
  "sample_scheduler = \<lparr>tasks = [sample_task], runs = [], active_tasks = Map.empty, next_token = 0,
     cancelled = {}, starting = [], executions = []\<rparr>"

definition sample_exec_env :: "uuid \<Rightarrow> time \<Rightarrow> exec_env" where
  "sample_exec_env rid now = \<lparr>claim_up = True, create_up = True, reset_up = True, generated_id = rid, clock = now\<rparr>"

definition sample_started :: scheduler where
  "sample_started = snd (tick [''library_scan''] True 0 (\<lambda>_. sample_exec_env 10 0) sample_scheduler)"

text \<open>
  A run is started and cancelled; before its task has finished, the administrator triggers a
  second run; the end of the first run then releases the claim of the second, so that a third run
  is admitted.
\<close>

definition race_cancelled :: scheduler where
  "race_cancelled = snd (cancel_task True True True 1000000 1 sample_started)"

definition race_second :: scheduler where
  "race_second = snd (trigger_task [''library_scan''] True (sample_exec_env 11 2000000) 1 race_cancelled)"

definition race_updated :: scheduler where
  "race_updated = finish_update sample_cron True True 3000000 (hd (executions race_second)) (Inr Cancelled) race_second"

definition race_completed :: scheduler where
  "race_completed = finish_complete True 3000000 (hd (executions race_updated)) race_updated"

definition race_removed :: scheduler where
  "race_removed = finish_remove (hd (executions race_completed)) race_completed"

definition race_third :: scheduler where
  "race_third = snd (trigger_task [''library_scan''] True (sample_exec_env 12 4000000) 1 race_removed)"

lemma race_evaluates:
  "map (\<lambda>e. (e_run e, e_task e, e_token e, e_phase e)) (executions race_third) =
     [(11, 1, 1, Handling), (12, 1, 2, Handling)]"
  by code_simp

lemma race_cancelled_token: "cancelled race_third = {0}"
  by code_simp

lemma tick_steps: "(run_step cron_next executors)\<^sup>*\<^sup>* w (snd (tick executors up now envs w))"
  by (simp add: tick_def tick_loop_steps split: sum.splits)

lemma trigger_steps: "(run_step cron_next executors)\<^sup>*\<^sup>* w (snd (trigger_task executors up env tid w))"
  by (simp add: trigger_task_def execute_task_steps split: sum.splits)

lemma run_steps_sched:
  "(run_step cron_next executors)\<^sup>*\<^sup>* w w' \<Longrightarrow> (sched_step cron_next executors)\<^sup>*\<^sup>* w w'"
  by (induction rule: rtranclp_induct) (auto intro: rtranclp.rtrancl_into_rtrancl sched_step.run)

lemma sched_steps_snoc:
  "(sched_step cron_next executors)\<^sup>*\<^sup>* w w' \<Longrightarrow> sched_step cron_next executors w' w''
     \<Longrightarrow> (sched_step cron_next executors)\<^sup>*\<^sup>* w w''"
  by (rule rtranclp.rtrancl_into_rtrancl)

lemma sample_fresh: "fresh_start sample_scheduler"
  by (simp add: fresh_start_def sample_scheduler_def)

lemma sample_started_steps: "(run_step sample_cron [''library_scan''])\<^sup>*\<^sup>* sample_scheduler sample_started"
  unfolding sample_started_def by (rule tick_steps)

lemma race_heads:
  "executions race_second \<noteq> [] \<and> e_phase (hd (executions race_second)) = Handling
     \<and> e_token (hd (executions race_second)) \<in> cancelled race_second"
  "executions race_updated \<noteq> [] \<and> e_phase (hd (executions race_updated))
     = Updated ''cancelled'' (Some ''Cancelled by administrator'')"
  "executions race_completed \<noteq> [] \<and> e_phase (hd (executions race_completed)) = Completed"
  by code_simp+

lemma race_steps:
  "(sched_step sample_cron [''library_scan''])\<^sup>*\<^sup>* sample_started race_cancelled"
  "(sched_step sample_cron [''library_scan''])\<^sup>*\<^sup>* race_cancelled race_third"
proof -
  let ?S = "sched_step sample_cron [''library_scan'']"
  have "?S sample_started race_cancelled" unfolding race_cancelled_def by (rule sched_step.cancel)
  then show "?S\<^sup>*\<^sup>* sample_started race_cancelled" by (rule r_into_rtranclp)
  have s1: "?S\<^sup>*\<^sup>* race_cancelled race_second"
    unfolding race_second_def by (intro run_steps_sched trigger_steps)
  have s2: "?S race_second race_updated"
    unfolding race_updated_def using race_heads(1) by (intro sched_step.run run_step.update) auto
  have s3: "?S race_updated race_completed"
    unfolding race_completed_def using race_heads(2) by (intro sched_step.run run_step.complete) auto
  have s4: "?S race_completed race_removed"
    unfolding race_removed_def using race_heads(3) by (intro sched_step.run run_step.remove) auto
  have s5: "?S\<^sup>*\<^sup>* race_removed race_third"
    unfolding race_third_def by (intro run_steps_sched trigger_steps)
  show "?S\<^sup>*\<^sup>* race_cancelled race_third"
    by (rule rtranclp_trans [OF sched_steps_snoc [OF sched_steps_snoc [OF sched_steps_snoc
          [OF s1 s2] s3] s4] s5])
qed

text \<open>
  C37. Cancellation breaks the exclusion: the end of a cancelled run releases whatever claim its
  task has by then and drops the registered token, so that a state is reachable in which two runs
  of one task are in their handlers and neither has been cancelled.
\<close>

theorem cancellation_admits_two_runs:
  "\<exists>w w' e1 e2. fresh_start w \<and> (sched_step sample_cron [''library_scan''])\<^sup>*\<^sup>* w w'
     \<and> e1 \<in> set (executions w') \<and> e2 \<in> set (executions w')
     \<and> e_run e1 \<noteq> e_run e2 \<and> e_task e1 = e_task e2
     \<and> e_phase e1 = Handling \<and> e_phase e2 = Handling
     \<and> e_token e1 \<notin> cancelled w' \<and> e_token e2 \<notin> cancelled w'"
proof -
  obtain e1 e2 where e: "executions race_third = [e1, e2]"
    "e_run e1 = 11" "e_task e1 = 1" "e_token e1 = 1" "e_phase e1 = Handling"
    "e_run e2 = 12" "e_task e2 = 1" "e_token e2 = 2" "e_phase e2 = Handling"
    using race_evaluates by (auto simp: map_eq_Cons_conv)
  have "(sched_step sample_cron [''library_scan''])\<^sup>*\<^sup>* sample_scheduler race_third"
    using run_steps_sched [OF sample_started_steps] race_steps by (meson rtranclp_trans)
  with e race_cancelled_token sample_fresh show ?thesis
    by (intro exI [of _ sample_scheduler] exI [of _ race_third] exI [of _ e1] exI [of _ e2]) simp
qed

theorem one_run_at_a_time_witness:
  "holders 1 sample_started = 1 \<and> holders 1 sample_started \<le> claim_slots 1 sample_started"
proof
  show "holders 1 sample_started = 1" by code_simp
  show "holders 1 sample_started \<le> claim_slots 1 sample_started"
    by (rule one_run_at_a_time [OF sample_fresh sample_started_steps])
qed

theorem tick_starts_due_tasks_witness:
  "\<exists>t \<in> set (tasks sample_scheduler). t_id t = 1 \<and> t_is_enabled t \<and> t_next_run_at t = Some 0"
proof -
  have "map e_task (executions sample_started) = [1]" by code_simp
  then obtain e where e: "executions sample_started = [e]" "e_task e = 1" by (auto simp: map_eq_Cons_conv)
  have "e \<notin> set (executions sample_scheduler)" by (simp add: sample_scheduler_def)
  with tick_starts_due_tasks [of e "[''library_scan'']" True 0 "\<lambda>_. sample_exec_env 10 0" sample_scheduler] e
  show ?thesis by (auto simp: sample_started_def sample_scheduler_def sample_task_def)
qed


theorem run_history_final_witness:
  "\<exists>r \<in> set (runs race_third). r_id r = 10 \<and> r_state r = ''cancelled''"
proof -
  have "map (\<lambda>r. (r_id r, r_state r)) (runs race_cancelled) = [(10, ''cancelled'')]" by code_simp
  then obtain r where r: "r \<in> set (runs race_cancelled)" "r_id r = 10" "r_state r = ''cancelled''"
    by (auto simp: map_eq_Cons_conv)
  then have "r \<in> set (runs race_third)" by (intro run_history_final [OF race_steps(2)]) auto
  with r show ?thesis by blast
qed

theorem failure_counts_and_disables_witness:
  "\<exists>t' \<in> set (tasks (on_task_failure True 1000000 1 10 ''failure'' ''boom'' 3 (word_of_int 300) 2 sample_started)).
     t_id t' = 1 \<and> \<not> t_is_enabled t' \<and> t_next_run_at t' = None"
proof -
  have "map (\<lambda>t. (t_id t, t_state t)) (tasks sample_started) = [(1, ''running'')]"
    and d: "run_duration 1000000 10 sample_started = Some (Some 1000)" by code_simp+
  then obtain t where "t \<in> set (tasks sample_started)" "is_running 1 t"
    by (auto simp: map_eq_Cons_conv is_running_def)
  from failure_counts_and_disables [OF this _ _ _ d, of 300 2 "''failure''" "''boom''" 3]
  show ?thesis by (auto simp: is_i32_def)
qed

theorem next_run_in_future_witness:
  "(5::int) < compute_next_run sample_cron (Some ''not cron'') (Some 900) 5"
  by (rule next_run_in_future) (auto simp: sample_cron_def seconds_def split: if_splits)

end
