(* ===== verification/Admission.thy ===== *)
theory Admission
  imports Json
begin

text \<open>
  services/playback_admission: the ledger of playback reservations. A transaction is a function on
  the store of the tables it touches; the row lock it takes on the household serialises the
  transactions of one household, so each is one step. \<open>transaction\<close> models what the caller learns:
  a failure rolls back, and a lost commit reports \<open>E_Indeterminate\<close> whether or not it took effect.
  What the ledger asks of other parts of the server (sessions, profiles, media access, the live
  catalogue), of serde, of SHA-256 and of the triggers of the database, which can only refuse a
  statement, are the records of functions \<open>authority_env\<close> and \<open>ledger_env\<close>.
\<close>

section \<open>Types\<close>

datatype AdmissionError =
    E_Authority | E_Policy | E_Capacity | E_Expired | E_RequestTime | E_ReceiptCapacity | E_Conflict
  | E_Precondition | E_Pending | E_Closed | E_Retired | E_Storage | E_Indeterminate | E_Cleanup

datatype Subject = Vod uuid uuid | Live uuid uuid

datatype CredentialTransport = Cookie | Bearer | Legacy

type_synonym timestamp = int
type_synonym bytes = "u8 list"

record Scope =
  a_version :: int
  a_user :: uuid
  a_session :: uuid
  a_profile :: uuid
  a_transport :: CredentialTransport
  a_binding :: "bytes option"

record Request =
  q_id :: uuid
  q_actor :: Scope
  q_profile_revision :: int
  q_subject :: Subject

record Fingerprint =
  fp_user :: uuid
  fp_session :: uuid
  fp_profile :: uuid
  fp_version :: int
  fp_profile_revision :: int
  fp_transport :: u8
  fp_subject :: Subject

datatype ReservationState = Held | Retiring | Released

record Receipt =
  rc_id :: uuid
  rc_instance :: uuid
  rc_state :: ReservationState
  rc_deadline :: timestamp
  rc_observed_at :: timestamp
  rc_fresh :: bool
  rc_owned_here :: bool

record Row =
  v_id :: uuid
  v_instance_id :: uuid
  v_household_id :: uuid
  v_fingerprint :: string
  v_kind :: string
  v_assignment_id :: "uuid option"
  v_source_generation :: "int option"
  v_channel_key :: "bytes option"
  v_state :: string
  v_deadline :: timestamp
  v_released_at :: "timestamp option"
  v_prune_after :: "timestamp option"

datatype Mode = DirectPlay | DirectStream | Transcode

definition Mode_as_str :: "Mode \<Rightarrow> string" where
  "Mode_as_str m = (case m of DirectPlay \<Rightarrow> ''direct_play'' | DirectStream \<Rightarrow> ''direct_stream''
     | Transcode \<Rightarrow> ''transcode'')"

record Binding =
  b_intent :: bytes
  b_policy :: bytes
  b_source :: bytes
  b_mode :: Mode
  b_encodes :: bool
  b_source_4k :: bool
  b_ambient :: "(uuid \<times> timestamp) option"

record Policy =
  y_total :: "int option"
  y_transcode :: "int option"
  y_bandwidth :: "int option"
  y_allow_direct_play :: bool
  y_allow_direct_stream :: bool
  y_allow_transcode :: bool
  y_resolution :: "string option"
  y_allow_transcode_4k :: bool
  y_require_direct_play_4k :: bool
  y_supported :: bool
  y_valid :: bool

section \<open>Tables\<close>

record instance_row =
  i_id :: uuid
  i_revision :: int
  i_fenced :: bool
  i_reconciled_at :: "timestamp option"

record user_row =
  u_id :: uuid
  u_max_streams :: "int option"
  u_max_transcode_streams :: "int option"
  u_bandwidth_limit_bps :: "int option"
  u_streaming_policy_id :: "uuid option"

record policy_row =
  p_id :: uuid
  p_is_default :: bool
  p_max_streams :: "int option"
  p_max_transcode_streams :: "int option"
  p_bandwidth_limit_bps :: "int option"
  p_allow_direct_play :: bool
  p_allow_direct_stream :: bool
  p_allow_transcode :: bool
  p_max_transcode_resolution :: "string option"
  p_allow_transcode_4k :: bool
  p_require_direct_play_4k :: bool
  p_supported :: bool

record command_row =
  c_reservation_id :: uuid
  c_intent_hash :: bytes
  c_policy_hash :: bytes
  c_source_hash :: bytes
  c_delivery_mode :: string
  c_encodes :: bool
  c_source_4k :: bool
  c_ambient :: "(uuid \<times> timestamp) option"
  c_state :: string
  c_resources_completed :: bool

record start_intent_row =
  s_id :: uuid
  s_instance_id :: uuid
  s_admission_fenced :: bool
  s_preparation_complete :: bool

record store =
  instances :: "instance_row list"
  users :: "user_row list"
  policies :: "policy_row list"
  reservations :: "Row list"
  commands :: "command_row list"
  controls :: "(uuid \<times> bool) list"
  start_intents :: "start_intent_row list"
  operator_events :: "(uuid \<times> int \<times> string) list"
  cutoff :: timestamp

section \<open>What the ledger calls\<close>

record Verified =
  w_assignment :: "uuid option"
  w_generation :: "int option"
  w_key :: "bytes option"
  w_cap :: "int option"

text \<open>
  \<open>z_viewing\<close> gives the assignment and source generation an actor may watch, \<open>z_snapshot\<close> the
  identifier of the current catalogue snapshot, the two channel lookups the key of a channel.
\<close>

record authority_env =
  z_context_check :: "Scope \<Rightarrow> bool"
  z_active_user :: "uuid \<Rightarrow> (string \<times> bool) option"
  z_session :: "Scope \<Rightarrow> int \<Rightarrow> bool"
  z_owns_profile :: "uuid \<Rightarrow> uuid \<Rightarrow> bool"
  z_capabilities :: "uuid \<Rightarrow> string \<Rightarrow> string list option"
  z_profile_scope :: "uuid \<Rightarrow> uuid \<Rightarrow> bool \<Rightarrow> nat option"
  z_media_file :: "uuid \<Rightarrow> uuid \<Rightarrow> bool"
  z_item_locked :: "uuid \<Rightarrow> bool"
  z_media_access :: "nat \<Rightarrow> uuid \<Rightarrow> bool"
  z_viewing :: "Scope \<Rightarrow> (uuid \<times> int) option"
  z_snapshot :: "uuid \<times> int \<Rightarrow> uuid option"
  z_channel_by_key :: "uuid \<Rightarrow> bytes \<Rightarrow> bytes option"
  z_channel :: "uuid \<Rightarrow> uuid \<Rightarrow> bytes option"
  z_live_caps :: "uuid \<Rightarrow> (int option \<times> int option) option"

record ledger_env =
  l_uuid_version :: "uuid \<Rightarrow> nat"
  l_to_string :: "Fingerprint \<Rightarrow> string option"
  l_from_str :: "string \<Rightarrow> Fingerprint option"
  l_policy_hash :: "Policy \<Rightarrow> bytes option"
  l_ambient_allowed :: "uuid \<Rightarrow> timestamp \<Rightarrow> Request \<Rightarrow> bool"
  l_permitted :: "store \<Rightarrow> uuid \<Rightarrow> Policy \<Rightarrow> bool"
  l_time_error :: "uuid \<Rightarrow> timestamp \<Rightarrow> timestamp \<Rightarrow> nat"
  l_insert_guard :: "store \<Rightarrow> Row \<Rightarrow> AdmissionError option"
  l_command_guard :: "store \<Rightarrow> command_row \<Rightarrow> AdmissionError option"
  l_release_guard :: "store \<Rightarrow> uuid \<Rightarrow> AdmissionError option"
  l_prune_time :: "uuid \<Rightarrow> timestamp \<Rightarrow> timestamp"
  l_authority :: authority_env

section \<open>Fingerprints\<close>

definition Request_encode :: "ledger_env \<Rightarrow> Request \<Rightarrow> AdmissionError + string" where
  "Request_encode env r =
     (let a = q_actor r in
      if l_uuid_version env (q_id r) \<noteq> 7 \<or> a_version a \<le> 0 \<or> q_profile_revision r \<le> 0
      then Inl E_Authority
      else case (case a_transport a of Cookie \<Rightarrow> Some 0 | Bearer \<Rightarrow> Some 1 | Legacy \<Rightarrow> None) of
          None \<Rightarrow> Inl E_Authority
        | Some transport \<Rightarrow>
            (case l_to_string env
                    \<lparr>fp_user = a_user a, fp_session = a_session a, fp_profile = a_profile a,
                     fp_version = a_version a, fp_profile_revision = q_profile_revision r,
                     fp_transport = transport, fp_subject = q_subject r\<rparr> of
               None \<Rightarrow> Inl E_Authority
             | Some value \<Rightarrow> if length value > 2048 then Inl E_Authority else Inr value))"

definition Request_decode :: "ledger_env \<Rightarrow> uuid \<Rightarrow> string \<Rightarrow> AdmissionError + Request" where
  "Request_decode env rid value =
     (if length value > 2048 then Inl E_Authority
      else case l_from_str env value of
          None \<Rightarrow> Inl E_Authority
        | Some f \<Rightarrow>
            (case (if fp_transport f = 0 then Some Cookie
                   else if fp_transport f = 1 then Some Bearer else None) of
               None \<Rightarrow> Inl E_Authority
             | Some transport \<Rightarrow>
                 (let request = \<lparr>q_id = rid,
                        q_actor = \<lparr>a_version = fp_version f, a_user = fp_user f,
                          a_session = fp_session f, a_profile = fp_profile f,
                          a_transport = transport, a_binding = None\<rparr>,
                        q_profile_revision = fp_profile_revision f, q_subject = fp_subject f\<rparr>
                  in case Request_encode env request of
                       Inl e \<Rightarrow> Inl e
                     | Inr s \<Rightarrow> if s \<noteq> value then Inl E_Authority else Inr request)))"

definition parse_state :: "string \<Rightarrow> ReservationState option" where
  "parse_state s =
     (if s = ''held'' then Some Held else if s = ''retiring'' then Some Retiring
      else if s = ''released'' then Some Released else None)"

definition Row_receipt ::
  "ledger_env \<Rightarrow> Row \<Rightarrow> timestamp \<Rightarrow> bool \<Rightarrow> uuid \<Rightarrow> AdmissionError + Receipt" where
  "Row_receipt env row now fresh owner =
     (case Request_decode env (v_id row) (v_fingerprint row) of
        Inl e \<Rightarrow> Inl e
      | Inr original \<Rightarrow>
          (let expected = (case q_subject original of Vod _ _ \<Rightarrow> ''vod'' | Live _ _ \<Rightarrow> ''live'')
           in if v_kind row \<noteq> expected \<or> a_user (q_actor original) \<noteq> v_household_id row
              then Inl E_Storage
              else case parse_state (v_state row) of
                  None \<Rightarrow> Inl E_Storage
                | Some s \<Rightarrow> Inr \<lparr>rc_id = v_id row, rc_instance = v_instance_id row, rc_state = s,
                    rc_deadline = v_deadline row, rc_observed_at = now, rc_fresh = fresh,
                    rc_owned_here = (v_instance_id row = owner)\<rparr>))"

section \<open>Transactions\<close>

datatype commit = Acknowledged | Lost_applied | Lost_dropped

definition transaction ::
  "bool \<Rightarrow> commit \<Rightarrow> (store \<Rightarrow> (AdmissionError + 'a) \<times> store) \<Rightarrow> store
     \<Rightarrow> (AdmissionError + 'a) \<times> store" where
  "transaction up commit action st =
     (if \<not> up then (Inl E_Storage, st)
      else case action st of
          (Inl e, _) \<Rightarrow> (Inl e, st)
        | (Inr v, st') \<Rightarrow>
            (case commit of
               Acknowledged \<Rightarrow> (Inr v, st')
             | Lost_applied \<Rightarrow> (Inl E_Indeterminate, st')
             | Lost_dropped \<Rightarrow> (Inl E_Indeterminate, st)))"

definition check_instance :: "uuid \<Rightarrow> bool \<Rightarrow> store \<Rightarrow> AdmissionError + unit" where
  "check_instance iid active st =
     (case List.find (\<lambda>i. i_id i = iid) (instances st) of
        Some i \<Rightarrow> if \<not> i_fenced i \<or> \<not> active then Inr () else Inl E_Closed
      | None \<Rightarrow> Inl E_Closed)"

definition household :: "uuid \<Rightarrow> store \<Rightarrow> AdmissionError + unit" where
  "household uid st = (if uid \<in> u_id ` set (users st) then Inr () else Inl E_Authority)"

definition find_row :: "uuid \<Rightarrow> store \<Rightarrow> Row option" where
  "find_row rid st = List.find (\<lambda>r. v_id r = rid) (reservations st)"

section \<open>Streaming policy\<close>

definition neg :: "int option \<Rightarrow> bool" where
  "neg x = (case x of Some n \<Rightarrow> n < 0 | None \<Rightarrow> False)"

definition opt_or :: "'a option \<Rightarrow> 'a option \<Rightarrow> 'a option" where
  "opt_or x y = (case x of Some a \<Rightarrow> Some a | None \<Rightarrow> y)"

definition applicable_policies :: "user_row \<Rightarrow> store \<Rightarrow> policy_row list" where
  "applicable_policies u st =
     (case u_streaming_policy_id u of
        Some pid \<Rightarrow> filter (\<lambda>p. p_id p = pid) (policies st)
      | None \<Rightarrow> take 2 (sort_key p_id (filter p_is_default (policies st))))"

definition ceiling :: "uuid \<Rightarrow> store \<Rightarrow> AdmissionError + int option" where
  "ceiling uid st =
     (case List.find (\<lambda>u. u_id u = uid) (users st) of
        None \<Rightarrow> Inl E_Storage
      | Some u \<Rightarrow>
          if neg (u_max_transcode_streams u) then Inl E_Policy
          else
            (case applicable_policies u st of
               [p] \<Rightarrow>
                 if neg (u_max_streams u) then Inl E_Policy
                 else if neg (p_max_streams p) \<or> neg (p_max_transcode_streams p) then Inl E_Policy
                 else Inr (opt_or (u_max_streams u) (p_max_streams p))
             | _ \<Rightarrow> Inl E_Policy))"

definition allows :: "int option \<Rightarrow> int \<Rightarrow> bool" where
  "allows limit count = (case limit of Some n \<Rightarrow> count < n | None \<Rightarrow> True)"

definition Policy_permits :: "Policy \<Rightarrow> Binding \<Rightarrow> bool" where
  "Policy_permits y b \<longleftrightarrow>
     y_valid y \<and> y_supported y
     \<and> (case b_mode b of
          DirectPlay \<Rightarrow> y_allow_direct_play y
        | DirectStream \<Rightarrow> y_allow_direct_stream y
        | Transcode \<Rightarrow> y_allow_transcode y)
     \<and> (\<not> b_encodes b \<or> y_allow_transcode y)
     \<and> (\<not> b_source_4k b
        \<or> ((\<not> b_encodes b \<or> y_allow_transcode_4k y)
           \<and> (b_mode b = DirectPlay \<or> \<not> y_require_direct_play_4k y)))"

text \<open>The SQL function \<^verbatim>\<open>playback_vod_policy\<close>, and the check of its result.\<close>

definition playback_vod_policy :: "uuid \<Rightarrow> store \<Rightarrow> Policy option" where
  "playback_vod_policy uid st =
     (case List.find (\<lambda>u. u_id u = uid) (users st) of
        None \<Rightarrow> None
      | Some u \<Rightarrow>
          (case (case u_streaming_policy_id u of
                   Some pid \<Rightarrow> filter (\<lambda>p. p_id p = pid) (policies st)
                 | None \<Rightarrow> if length (filter p_is_default (policies st)) = 1
                          then filter p_is_default (policies st) else []) of
             [] \<Rightarrow> None
           | p # _ \<Rightarrow> Some
               \<lparr>y_total = opt_or (u_max_streams u) (p_max_streams p),
                y_transcode = opt_or (u_max_transcode_streams u) (p_max_transcode_streams p),
                y_bandwidth = opt_or (u_bandwidth_limit_bps u) (p_bandwidth_limit_bps p),
                y_allow_direct_play = p_allow_direct_play p,
                y_allow_direct_stream = p_allow_direct_stream p,
                y_allow_transcode = p_allow_transcode p,
                y_resolution = p_max_transcode_resolution p,
                y_allow_transcode_4k = p_allow_transcode_4k p,
                y_require_direct_play_4k = p_require_direct_play_4k p,
                y_supported = p_supported p,
                y_valid = (\<not> neg (u_max_streams u) \<and> \<not> neg (u_max_transcode_streams u)
                  \<and> \<not> neg (p_max_streams p) \<and> \<not> neg (p_max_transcode_streams p)
                  \<and> \<not> neg (u_bandwidth_limit_bps u) \<and> \<not> neg (p_bandwidth_limit_bps p))\<rparr>))"

definition vod_policy :: "uuid \<Rightarrow> store \<Rightarrow> AdmissionError + Policy" where
  "vod_policy uid st =
     (case playback_vod_policy uid st of
        None \<Rightarrow> Inl E_Policy
      | Some y \<Rightarrow> if \<not> y_valid y \<or> \<not> y_supported y then Inl E_Policy else Inr y)"

section \<open>Bindings\<close>

definition saved_matches :: "command_row \<Rightarrow> Binding \<Rightarrow> bool" where
  "saved_matches c b \<longleftrightarrow>
     c_intent_hash c = b_intent b \<and> c_policy_hash c = b_policy b \<and> c_source_hash c = b_source b
     \<and> c_delivery_mode c = Mode_as_str (b_mode b) \<and> c_encodes c = b_encodes b
     \<and> c_source_4k c = b_source_4k b \<and> c_ambient c = b_ambient b"

definition vod_matches :: "uuid \<Rightarrow> Binding option \<Rightarrow> store \<Rightarrow> AdmissionError + unit" where
  "vod_matches rid binding st =
     (case (List.find (\<lambda>c. c_reservation_id c = rid) (commands st), binding) of
        (None, None) \<Rightarrow> Inr ()
      | (Some saved, Some b) \<Rightarrow> if saved_matches saved b then Inr () else Inl E_Conflict
      | _ \<Rightarrow> Inl E_Conflict)"

definition vod_insert :: "ledger_env \<Rightarrow> uuid \<Rightarrow> Binding \<Rightarrow> store \<Rightarrow> (AdmissionError + unit) \<times> store" where
  "vod_insert env rid b st =
     (let c = \<lparr>c_reservation_id = rid, c_intent_hash = b_intent b, c_policy_hash = b_policy b,
            c_source_hash = b_source b, c_delivery_mode = Mode_as_str (b_mode b),
            c_encodes = b_encodes b, c_source_4k = b_source_4k b, c_ambient = b_ambient b,
            c_state = ''preparing'', c_resources_completed = False\<rparr>
      in case l_command_guard env st c of
           Some e \<Rightarrow> (Inl e, st)
         | None \<Rightarrow> (Inr (), st\<lparr>commands := commands st @ [c]\<rparr>))"

definition vod_ambient :: "ledger_env \<Rightarrow> Request \<Rightarrow> Binding \<Rightarrow> AdmissionError + unit" where
  "vod_ambient env request b =
     (case b_ambient b of
        None \<Rightarrow> Inr ()
      | Some (cid, revision) \<Rightarrow>
          (case q_subject request of
             Live _ _ \<Rightarrow> Inl E_Authority
           | Vod _ _ \<Rightarrow>
               if l_ambient_allowed env cid revision request then Inr () else Inl E_Authority))"

section \<open>Authority\<close>

definition verify_vod ::
  "authority_env \<Rightarrow> Scope \<Rightarrow> string \<times> bool \<Rightarrow> uuid \<Rightarrow> uuid \<Rightarrow> AdmissionError + Verified" where
  "verify_vod z actor user file' item' =
     (case z_capabilities z (a_user actor) (fst user) of
        None \<Rightarrow> Inl E_Authority
      | Some capabilities \<Rightarrow>
          if ''play_media'' \<notin> set capabilities then Inl E_Authority
          else case z_profile_scope z (a_user actor) (a_profile actor) (snd user) of
              None \<Rightarrow> Inl E_Authority
            | Some scope \<Rightarrow>
                if \<not> z_media_file z file' item' then Inl E_Authority
                else if \<not> z_item_locked z item' then Inl E_Authority
                else if \<not> z_media_access z scope item' then Inl E_Authority
                else Inr \<lparr>w_assignment = None, w_generation = None, w_key = None, w_cap = None\<rparr>)"

definition opt_min :: "int option \<Rightarrow> int option \<Rightarrow> int option" where
  "opt_min a b = (case (a, b) of (Some x, Some y) \<Rightarrow> Some (min x y) | _ \<Rightarrow> opt_or a b)"

definition live_channel ::
  "authority_env \<Rightarrow> uuid \<times> int \<Rightarrow> uuid \<Rightarrow> uuid \<Rightarrow> uuid \<Rightarrow> Row option \<Rightarrow> AdmissionError + bytes" where
  "live_channel z viewing snap requested channel' saved =
     (case saved of
        Some row \<Rightarrow>
          if v_assignment_id row \<noteq> Some (fst viewing) \<or> v_source_generation row \<noteq> Some (snd viewing)
          then Inl E_Authority
          else (case v_channel_key row of
              None \<Rightarrow> Inl E_Authority
            | Some k \<Rightarrow> (case z_channel_by_key z snap k of Some key \<Rightarrow> Inr key | None \<Rightarrow> Inl E_Authority))
      | None \<Rightarrow>
          if requested \<noteq> snap then Inl E_Authority
          else (case z_channel z snap channel' of Some key \<Rightarrow> Inr key | None \<Rightarrow> Inl E_Authority))"

definition verify_live ::
  "authority_env \<Rightarrow> Scope \<Rightarrow> uuid \<Rightarrow> uuid \<Rightarrow> Row option \<Rightarrow> AdmissionError + Verified" where
  "verify_live z actor requested channel' saved =
     (case z_viewing z actor of
        None \<Rightarrow> Inl E_Authority
      | Some viewing \<Rightarrow>
          (case z_snapshot z viewing of
             None \<Rightarrow> Inl E_Authority
           | Some snap \<Rightarrow>
               (case live_channel z viewing snap requested channel' saved of
                  Inl e \<Rightarrow> Inl e
                | Inr key \<Rightarrow>
                    (case z_live_caps z (fst viewing) of
                       None \<Rightarrow> Inl E_Storage
                     | Some (admin, owner) \<Rightarrow>
                         if neg admin \<or> neg owner then Inl E_Policy
                         else Inr \<lparr>w_assignment = Some (fst viewing), w_generation = Some (snd viewing),
                                w_key = Some key, w_cap = opt_min admin owner\<rparr>))))"

definition verify :: "ledger_env \<Rightarrow> Request \<Rightarrow> Row option \<Rightarrow> AdmissionError + Verified" where
  "verify env request saved =
     (let z = l_authority env; actor = q_actor request in
      case Request_encode env request of
        Inl e \<Rightarrow> Inl e
      | Inr _ \<Rightarrow>
          if \<not> z_context_check z actor then Inl E_Conflict
          else case z_active_user z (a_user actor) of
              None \<Rightarrow> Inl E_Authority
            | Some user \<Rightarrow>
                if \<not> z_session z actor (q_profile_revision request) then Inl E_Authority
                else if \<not> z_owns_profile z (a_profile actor) (a_user actor) then Inl E_Authority
                else case q_subject request of
                    Vod f i \<Rightarrow> verify_vod z actor user f i
                  | Live s c \<Rightarrow> verify_live z actor s c saved)"

section \<open>The ledger\<close>

definition active :: "Row \<Rightarrow> bool" where
  "active r \<longleftrightarrow> v_state r \<noteq> ''released''"

definition total_count :: "uuid \<Rightarrow> store \<Rightarrow> int" where
  "total_count uid st = int (length (filter (\<lambda>r. v_household_id r = uid \<and> active r) (reservations st)))"

definition live_count :: "uuid \<Rightarrow> store \<Rightarrow> int" where
  "live_count uid st =
     int (length (filter (\<lambda>r. v_household_id r = uid \<and> active r \<and> v_kind r = ''live'') (reservations st)))"

text \<open>The join of reservations, commands and controls with \<^verbatim>\<open>COALESCE(v.claim_encodes,c.encodes)\<close>.\<close>

definition encodes_now :: "store \<Rightarrow> Row \<Rightarrow> bool" where
  "encodes_now st r =
     (case List.find (\<lambda>c. c_reservation_id c = v_id r) (commands st) of
        None \<Rightarrow> False
      | Some c \<Rightarrow> (case map_of (controls st) (v_id r) of Some b \<Rightarrow> b | None \<Rightarrow> c_encodes c))"

definition transcode_count :: "uuid \<Rightarrow> store \<Rightarrow> int" where
  "transcode_count uid st =
     int (length (filter (\<lambda>r. v_household_id r = uid \<and> active r \<and> encodes_now st r) (reservations st)))"

definition update_rows :: "(Row \<Rightarrow> bool) \<Rightarrow> (Row \<Rightarrow> Row) \<Rightarrow> store \<Rightarrow> store" where
  "update_rows p f st = st\<lparr>reservations := map (\<lambda>r. if p r then f r else r) (reservations st)\<rparr>"

definition retire_row :: "uuid \<Rightarrow> store \<Rightarrow> store" where
  "retire_row rid st =
     update_rows (\<lambda>r. v_id r = rid \<and> v_state r = ''held'') (\<lambda>r. r\<lparr>v_state := ''retiring''\<rparr>) st"

definition claim_existing ::
  "ledger_env \<Rightarrow> uuid \<Rightarrow> timestamp \<Rightarrow> Request \<Rightarrow> string \<Rightarrow> Binding option \<Rightarrow> Row \<Rightarrow> store
     \<Rightarrow> (AdmissionError + Receipt) \<times> store" where
  "claim_existing env inst now request fingerprint binding row st =
     (if v_fingerprint row \<noteq> fingerprint \<or> v_household_id row \<noteq> a_user (q_actor request)
      then (Inl E_Conflict, st)
      else case vod_matches (q_id request) binding st of
          Inl e \<Rightarrow> (Inl e, st)
        | Inr _ \<Rightarrow>
            if v_state row = ''held''
               \<and> (v_deadline row \<le> now \<or> isl (verify env request (Some row)))
            then (Row_receipt env (row\<lparr>v_state := ''retiring''\<rparr>) now False inst, retire_row (v_id row) st)
            else (Row_receipt env row now False inst, st))"

definition missing :: "ledger_env \<Rightarrow> uuid \<Rightarrow> timestamp \<Rightarrow> store \<Rightarrow> AdmissionError + unit" where
  "missing env rid now st =
     (let result = l_time_error env rid now (cutoff st)
      in if result = 0 then Inr () else if result = 1 then Inl E_Expired
         else if result = 2 then Inl E_RequestTime else Inl E_Storage)"

definition check_binding ::
  "ledger_env \<Rightarrow> Request \<Rightarrow> Binding option \<Rightarrow> store \<Rightarrow> AdmissionError + unit" where
  "check_binding env request binding st =
     (case binding of
        None \<Rightarrow> Inr ()
      | Some b \<Rightarrow>
          (case q_subject request of
             Live _ _ \<Rightarrow> Inl E_Authority
           | Vod _ _ \<Rightarrow>
               (case vod_policy (a_user (q_actor request)) st of
                  Inl e \<Rightarrow> Inl e
                | Inr policy \<Rightarrow>
                    if \<not> Policy_permits policy b then Inl E_Policy
                    else if l_policy_hash env policy \<noteq> Some (b_policy b) then Inl E_Policy
                    else case vod_ambient env request b of
                        Inl e \<Rightarrow> Inl e
                      | Inr _ \<Rightarrow>
                          if b_encodes b
                             \<and> \<not> allows (y_transcode policy) (transcode_count (a_user (q_actor request)) st)
                          then Inl E_Capacity else Inr ())))"

definition new_row ::
  "uuid \<Rightarrow> timestamp \<Rightarrow> Request \<Rightarrow> string \<Rightarrow> Verified \<Rightarrow> Row" where
  "new_row inst now2 request fingerprint verified =
     \<lparr>v_id = q_id request, v_instance_id = inst, v_household_id = a_user (q_actor request),
      v_fingerprint = fingerprint,
      v_kind = (case q_subject request of Live _ _ \<Rightarrow> ''live'' | Vod _ _ \<Rightarrow> ''vod''),
      v_assignment_id = w_assignment verified, v_source_generation = w_generation verified,
      v_channel_key = w_key verified, v_state = ''held'', v_deadline = now2 + 60000000,
      v_released_at = None, v_prune_after = None\<rparr>"

definition claim_new ::
  "ledger_env \<Rightarrow> uuid \<Rightarrow> timestamp \<Rightarrow> timestamp \<Rightarrow> Request \<Rightarrow> string \<Rightarrow> Binding option \<Rightarrow> store
     \<Rightarrow> (AdmissionError + Receipt) \<times> store" where
  "claim_new env inst now now2 request fingerprint binding st =
     (let user = a_user (q_actor request);
          is_live = (case q_subject request of Live _ _ \<Rightarrow> True | Vod _ _ \<Rightarrow> False) in
      case ceiling user st of
        Inl e \<Rightarrow> (Inl e, st)
      | Inr cap \<Rightarrow>
          (case check_binding env request binding st of
             Inl e \<Rightarrow> (Inl e, st)
           | Inr _ \<Rightarrow>
               (case verify env request None of
                  Inl e \<Rightarrow> (Inl e, st)
                | Inr verified \<Rightarrow>
                    if \<not> allows cap (total_count user st)
                       \<or> (is_live \<and> \<not> allows (w_cap verified) (live_count user st))
                    then (Inl E_Capacity, st)
                    else
                      (let row = new_row inst now2 request fingerprint verified in
                       case l_insert_guard env st row of
                         Some e \<Rightarrow> (Inl e, st)
                       | None \<Rightarrow>
                           (let st1 = st\<lparr>reservations := reservations st @ [row]\<rparr>;
                                (r, st2) = (case binding of
                                   Some b \<Rightarrow> vod_insert env (q_id request) b st1 | None \<Rightarrow> (Inr (), st1))
                            in case r of
                                 Inl e \<Rightarrow> (Inl e, st2)
                               | Inr _ \<Rightarrow>
                                   (case find_row (q_id request) st2 of
                                      None \<Rightarrow> (Inl E_Storage, st2)
                                    | Some row' \<Rightarrow> (Row_receipt env row' now True inst, st2)))))))"

definition claim_action ::
  "ledger_env \<Rightarrow> uuid \<Rightarrow> timestamp \<Rightarrow> timestamp \<Rightarrow> Request \<Rightarrow> string \<Rightarrow> bool \<Rightarrow> Binding option \<Rightarrow> store
     \<Rightarrow> (AdmissionError + Receipt) \<times> store" where
  "claim_action env inst now now2 request fingerprint allow_insert binding st =
     (case check_instance inst True st of
        Inl e \<Rightarrow> (Inl e, st)
      | Inr _ \<Rightarrow>
          (case household (a_user (q_actor request)) st of
             Inl e \<Rightarrow> (Inl e, st)
           | Inr _ \<Rightarrow>
               (case find_row (q_id request) st of
                  Some row \<Rightarrow> claim_existing env inst now request fingerprint binding row st
                | None \<Rightarrow>
                    if \<not> allow_insert
                    then (case missing env (q_id request) now st of
                            Inl e \<Rightarrow> (Inl e, st) | Inr _ \<Rightarrow> (Inl E_Indeterminate, st))
                    else claim_new env inst now now2 request fingerprint binding st)))"

text \<open>What surrounds a transaction: whether the database answers, the commit, and the two clocks read.\<close>

record tx =
  x_up :: bool
  x_commit :: commit
  x_now :: timestamp
  x_now2 :: timestamp

definition claim ::
  "ledger_env \<Rightarrow> tx \<Rightarrow> uuid \<Rightarrow> Request \<Rightarrow> bool \<Rightarrow> Binding option \<Rightarrow> store
     \<Rightarrow> (AdmissionError + Receipt) \<times> store" where
  "claim env t inst request allow_insert binding st =
     (case Request_encode env request of
        Inl e \<Rightarrow> (Inl e, st)
      | Inr fingerprint \<Rightarrow>
          transaction (x_up t) (x_commit t)
            (claim_action env inst (x_now t) (x_now2 t) request fingerprint allow_insert binding) st)"

definition register :: "tx \<Rightarrow> uuid \<Rightarrow> store \<Rightarrow> (AdmissionError + unit) \<times> store" where
  "register t inst st =
     transaction (x_up t) (x_commit t)
       (\<lambda>s. if inst \<in> i_id ` set (instances s) then (Inl E_Storage, s)
            else (Inr (), s\<lparr>instances := instances s @
              [\<lparr>i_id = inst, i_revision = 1, i_fenced = False, i_reconciled_at = None\<rparr>]\<rparr>)) st"

definition check_usage ::
  "ledger_env \<Rightarrow> Request \<Rightarrow> Binding option \<Rightarrow> store \<Rightarrow> AdmissionError + unit" where
  "check_usage env request binding st =
     (case ceiling (a_user (q_actor request)) st of
        Inl e \<Rightarrow> Inl e
      | Inr _ \<Rightarrow>
          (case vod_matches (q_id request) binding st of
             Inl e \<Rightarrow> Inl e
           | Inr _ \<Rightarrow>
               (case binding of
                  None \<Rightarrow> Inr ()
                | Some b \<Rightarrow>
                    (case vod_ambient env request b of
                       Inl e \<Rightarrow> Inl e
                     | Inr _ \<Rightarrow>
                         (case vod_policy (a_user (q_actor request)) st of
                            Inl e \<Rightarrow> Inl e
                          | Inr policy \<Rightarrow>
                              if l_permitted env st (q_id request) policy then Inr () else Inl E_Policy)))))"

definition renew_row :: "uuid \<Rightarrow> timestamp \<Rightarrow> store \<Rightarrow> (AdmissionError + unit) \<times> store" where
  "renew_row rid now2 st =
     (let p = (\<lambda>r. v_id r = rid \<and> v_deadline r > now2 \<and> v_state r = ''held'')
      in if length (filter p (reservations st)) = 1
         then (Inr (), update_rows p (\<lambda>r. r\<lparr>v_deadline := now2 + 60000000\<rparr>) st)
         else (Inl E_Retired, update_rows p (\<lambda>r. r\<lparr>v_deadline := now2 + 60000000\<rparr>) st))"

definition check_on ::
  "ledger_env \<Rightarrow> uuid \<Rightarrow> timestamp \<Rightarrow> timestamp \<Rightarrow> Request \<Rightarrow> bool \<Rightarrow> Binding option \<Rightarrow> store
     \<Rightarrow> (AdmissionError + Receipt) \<times> store" where
  "check_on env inst now now2 request renew binding st =
     (case Request_encode env request of
        Inl e \<Rightarrow> (Inl e, st)
      | Inr fingerprint \<Rightarrow>
     (case check_instance inst True st of
        Inl e \<Rightarrow> (Inl e, st)
      | Inr _ \<Rightarrow>
     (case household (a_user (q_actor request)) st of
        Inl e \<Rightarrow> (Inl e, st)
      | Inr _ \<Rightarrow>
     (case find_row (q_id request) st of
        None \<Rightarrow> (Inl E_Retired, st)
      | Some row \<Rightarrow>
          if v_instance_id row \<noteq> inst \<or> v_fingerprint row \<noteq> fingerprint then (Inl E_Conflict, st)
          else if v_state row \<noteq> ''held'' \<or> v_deadline row \<le> now then (Inl E_Retired, st)
          else
     (case check_usage env request binding st of
        Inl e \<Rightarrow> (Inl e, st)
      | Inr _ \<Rightarrow>
     (case verify env request (Some row) of
        Inl e \<Rightarrow> (Inl e, st)
      | Inr _ \<Rightarrow>
          (let (r, st1) = (if renew then renew_row (q_id request) now2 st else (Inr (), st))
           in case r of
                Inl e \<Rightarrow> (Inl e, st1)
              | Inr _ \<Rightarrow>
                  (case find_row (q_id request) st1 of
                     None \<Rightarrow> (Inl E_Storage, st1)
                   | Some row' \<Rightarrow> (Row_receipt env row' now False inst, st1)))))))))"

definition check ::
  "ledger_env \<Rightarrow> tx \<Rightarrow> uuid \<Rightarrow> Request \<Rightarrow> bool \<Rightarrow> Binding option \<Rightarrow> store
     \<Rightarrow> (AdmissionError + Receipt) \<times> store" where
  "check env t inst request renew binding st =
     transaction (x_up t) (x_commit t) (check_on env inst (x_now t) (x_now2 t) request renew binding) st"

definition end_command :: "command_row \<Rightarrow> command_row" where
  "end_command c = c\<lparr>c_resources_completed := True,
     c_state := (if c_state c = ''preparing'' then ''failed''
                 else if c_state c = ''ready'' then ''stopping'' else c_state c)\<rparr>"

text \<open>The part of the SQL function \<^verbatim>\<open>playback_vod_complete_outputs\<close> that the counts depend on.\<close>

definition complete_outputs :: "uuid set \<Rightarrow> store \<Rightarrow> store" where
  "complete_outputs rids st =
     st\<lparr>controls := map (\<lambda>(rid, b). (rid, if rid \<in> rids then False else b)) (controls st)\<rparr>"

definition end_commands :: "uuid set \<Rightarrow> store \<Rightarrow> store" where
  "end_commands rids st =
     st\<lparr>commands := map (\<lambda>c. if c_reservation_id c \<in> rids then end_command c else c) (commands st)\<rparr>"

definition release_row :: "ledger_env \<Rightarrow> timestamp \<Rightarrow> Row \<Rightarrow> Row" where
  "release_row env now r =
     (let released = (if active r then now else (case v_released_at r of Some t \<Rightarrow> t | None \<Rightarrow> now))
      in r\<lparr>v_state := ''released'', v_released_at := Some released,
           v_prune_after := Some (l_prune_time env (v_id r) released)\<rparr>)"

definition retire_action ::
  "ledger_env \<Rightarrow> uuid \<Rightarrow> timestamp \<Rightarrow> Request \<Rightarrow> string \<Rightarrow> bool \<Rightarrow> store
     \<Rightarrow> (AdmissionError + unit) \<times> store" where
  "retire_action env inst now request fingerprint release st =
     (case check_instance inst False st of
        Inl e \<Rightarrow> (Inl e, st)
      | Inr _ \<Rightarrow>
          (case find_row (q_id request) st of
             None \<Rightarrow> (Inr (), st)
           | Some row \<Rightarrow>
               if v_instance_id row \<noteq> inst \<or> v_fingerprint row \<noteq> fingerprint then (Inl E_Conflict, st)
               else if release then
                 (let st1 = end_commands {q_id request} (complete_outputs {q_id request} st)
                  in case l_release_guard env st1 (q_id request) of
                       Some e \<Rightarrow> (Inl e, st1)
                     | None \<Rightarrow> (Inr (), update_rows (\<lambda>r. v_id r = q_id request) (release_row env now) st1))
               else (Inr (), retire_row (q_id request) st)))"

definition retire ::
  "ledger_env \<Rightarrow> tx \<Rightarrow> uuid \<Rightarrow> Request \<Rightarrow> bool \<Rightarrow> store \<Rightarrow> (AdmissionError + unit) \<times> store" where
  "retire env t inst request release st =
     (case Request_encode env request of
        Inl e \<Rightarrow> (Inl e, st)
      | Inr fingerprint \<Rightarrow>
          transaction (x_up t) (x_commit t)
            (retire_action env inst (x_now t) request fingerprint release) st)"

section \<open>Pruning\<close>

text \<open>
  \<open>protected\<close> are the rows with a start intent or an operation, which the query skips; the row
  guard of the delete, the pruning of operations and of start intents are counts given by the
  database.
\<close>

definition prune_limit :: "nat \<Rightarrow> nat \<Rightarrow> nat" where
  "prune_limit operations starts =
     (if operations = 0 \<and> starts = 0 then 128 else if operations = 0 \<or> starts = 0 then 64 else 32)"

definition prunable :: "timestamp \<Rightarrow> Row \<Rightarrow> bool" where
  "prunable now r \<longleftrightarrow> v_state r = ''released''
     \<and> (case v_prune_after r of Some t \<Rightarrow> t \<le> now | None \<Rightarrow> False)"

definition prune_candidates :: "timestamp \<Rightarrow> nat \<Rightarrow> store \<Rightarrow> Row list" where
  "prune_candidates now limit st =
     take limit (sort_key (\<lambda>r. the (v_prune_after r)) (sort_key v_id (filter (prunable now) (reservations st))))"

definition prune_action ::
  "uuid \<Rightarrow> timestamp \<Rightarrow> nat \<Rightarrow> uuid set \<Rightarrow> uuid set \<Rightarrow> store
     \<Rightarrow> (AdmissionError + nat \<times> timestamp) \<times> store" where
  "prune_action inst now operations starts protected st =
     (case check_instance inst True st of
        Inl e \<Rightarrow> (Inl e, st)
      | Inr _ \<Rightarrow>
          (let st1 = st\<lparr>cutoff := max (cutoff st) (now - 300000000)\<rparr>;
               started = {r \<in> set (reservations st1). v_id r \<in> starts \<and> prunable now r};
               st2 = st1\<lparr>reservations := filter (\<lambda>r. r \<notin> started) (reservations st1)\<rparr>;
               deleted = filter (\<lambda>r. v_id r \<notin> protected)
                           (prune_candidates now (prune_limit operations (card started)) st2);
               st3 = st2\<lparr>reservations := filter (\<lambda>r. r \<notin> set deleted) (reservations st2)\<rparr>
           in (Inr (length deleted + operations + card started, cutoff st1), st3)))"

definition prune ::
  "tx \<Rightarrow> uuid \<Rightarrow> nat \<Rightarrow> uuid set \<Rightarrow> uuid set \<Rightarrow> store
     \<Rightarrow> (AdmissionError + nat \<times> timestamp) \<times> store" where
  "prune t inst operations starts protected st =
     transaction (x_up t) (x_commit t) (prune_action inst (x_now t) operations starts protected) st"

section \<open>Operator commands\<close>

definition fence_action :: "uuid \<Rightarrow> int \<Rightarrow> store \<Rightarrow> (AdmissionError + int) \<times> store" where
  "fence_action inst expected st =
     (case List.find (\<lambda>i. i_id i = inst \<and> i_revision i = expected \<and> \<not> i_fenced i) (instances st) of
        None \<Rightarrow> (Inl E_Conflict, st)
      | Some i \<Rightarrow>
          (let revision = i_revision i + 1;
               st1 = st\<lparr>instances := map (\<lambda>j. if i_id j = inst \<and> i_revision j = expected \<and> \<not> i_fenced j
                      then j\<lparr>i_fenced := True, i_revision := i_revision j + 1\<rparr> else j) (instances st)\<rparr>;
               st2 = st1\<lparr>start_intents := map (\<lambda>s. if s_instance_id s = inst
                      then s\<lparr>s_admission_fenced := True\<rparr> else s) (start_intents st1)\<rparr>;
               st3 = update_rows (\<lambda>r. v_instance_id r = inst \<and> v_state r = ''held'')
                      (\<lambda>r. r\<lparr>v_state := ''retiring''\<rparr>) st2
           in (Inr revision, st3\<lparr>operator_events := operator_events st3 @ [(inst, revision, ''fence'')]\<rparr>)))"

definition fence :: "tx \<Rightarrow> uuid \<Rightarrow> int \<Rightarrow> store \<Rightarrow> (AdmissionError + int) \<times> store" where
  "fence t inst expected st = transaction (x_up t) (x_commit t) (fence_action inst expected) st"

definition reconcile_action ::
  "ledger_env \<Rightarrow> timestamp \<Rightarrow> uuid \<Rightarrow> int \<Rightarrow> store \<Rightarrow> (AdmissionError + nat) \<times> store" where
  "reconcile_action env now inst revision st =
     (case List.find (\<lambda>i. i_id i = inst) (instances st) of
        None \<Rightarrow> (Inl E_Conflict, st)
      | Some i \<Rightarrow>
          if \<not> (i_fenced i \<and> i_revision i = revision) then (Inl E_Conflict, st)
          else
            (let owned = (\<lambda>r. v_instance_id r = inst \<and> active r);
                 rids = v_id ` set (filter owned (reservations st));
                 st1 = end_commands rids (complete_outputs rids st)
             in case find_map (\<lambda>r. l_release_guard env st1 (v_id r)) (filter owned (reservations st1)) of
                  Some e \<Rightarrow> (Inl e, st1)
                | None \<Rightarrow>
                    (let count = length (filter owned (reservations st1));
                         st2 = update_rows owned (release_row env now) st1;
                         st3 = st2\<lparr>start_intents := map (\<lambda>s. if s_instance_id s = inst
                                 then s\<lparr>s_admission_fenced := True, s_preparation_complete := True\<rparr> else s)
                                 (start_intents st2)\<rparr>;
                         st4 = st3\<lparr>instances := map (\<lambda>j. if i_id j = inst
                                 then j\<lparr>i_reconciled_at := Some now\<rparr> else j) (instances st3)\<rparr>
                     in (Inr count, st4\<lparr>operator_events :=
                           operator_events st4 @ [(inst, revision, ''reconcile'')]\<rparr>))))"

definition reconcile ::
  "ledger_env \<Rightarrow> tx \<Rightarrow> uuid \<Rightarrow> int \<Rightarrow> bool \<Rightarrow> store \<Rightarrow> (AdmissionError + nat) \<times> store" where
  "reconcile env t inst revision resources_gone st =
     (if \<not> resources_gone then (Inl E_Cleanup, st)
      else transaction (x_up t) (x_commit t) (reconcile_action env (x_now t) inst revision) st)"

end
