(* ===== verification/Admission_Props.thy ===== *)
theory Admission_Props
  imports Admission
begin

text \<open>
  The guarantees of the reservation ledger. The locale \<open>shrinking\<close> is the contract of every
  operation that admits nobody: it keeps the settings, moves reservations only forward from held
  to retiring to released, and removes only released ones. All operations but \<open>claim\<close> are
  instances of it; the bounds on reservations follow for every sequence of transactions.
\<close>

section \<open>Rows only move forward\<close>

definition rank :: "string \<Rightarrow> nat" where
  "rank s = (if s = ''held'' then 0 else if s = ''retiring'' then 1 else 2)"

definition row_le :: "Row \<Rightarrow> Row \<Rightarrow> bool" where
  "row_le r r' \<longleftrightarrow>
     v_id r' = v_id r \<and> v_instance_id r' = v_instance_id r \<and> v_household_id r' = v_household_id r
     \<and> v_fingerprint r' = v_fingerprint r \<and> v_kind r' = v_kind r
     \<and> rank (v_state r) \<le> rank (v_state r') \<and> (active r' \<longrightarrow> active r)"

lemma row_le_refl [simp]: "row_le r r"
  by (simp add: row_le_def)

lemma row_le_trans: "row_le a b \<Longrightarrow> row_le b c \<Longrightarrow> row_le a c"
  by (auto simp: row_le_def)

definition shrinks :: "Row list \<Rightarrow> Row list \<Rightarrow> bool" where
  "shrinks rows rows' \<longleftrightarrow>
     (\<exists>keep f. rows' = map f (filter keep rows) \<and> (\<forall>r \<in> set rows. row_le r (f r)))"

lemma shrinks_refl [simp]: "shrinks rows rows"
  unfolding shrinks_def by (rule exI [of _ "\<lambda>_. True"], rule exI [of _ id]) simp

lemma shrinks_map:
  assumes "\<And>r. r \<in> set rows \<Longrightarrow> row_le r (f r)"
  shows "shrinks rows (map f rows)"
  unfolding shrinks_def using assms by (intro exI [of _ "\<lambda>_. True"] exI [of _ f]) simp

lemma shrinks_filter: "shrinks rows (filter keep rows)"
  unfolding shrinks_def by (intro exI [of _ keep] exI [of _ id]) simp

lemma shrinks_trans:
  assumes "shrinks a b" "shrinks b c"
  shows "shrinks a c"
proof -
  from assms(1) obtain k f where b: "b = map f (filter k a)" and f: "\<forall>r \<in> set a. row_le r (f r)"
    unfolding shrinks_def by blast
  from assms(2) obtain l g where c: "c = map g (filter l b)" and g: "\<forall>r \<in> set b. row_le r (g r)"
    unfolding shrinks_def by blast
  define h where "h r = (if k r then g (f r) else f r)" for r
  have "c = map h (filter (\<lambda>r. k r \<and> l (f r)) a)"
    by (simp add: c b filter_map comp_def h_def filter_filter conj_commute)
  moreover have "row_le r (h r)" if "r \<in> set a" for r
    using that f g by (auto simp: h_def b intro: row_le_trans)
  ultimately show ?thesis unfolding shrinks_def by blast
qed

lemma shrinks_count:
  assumes "shrinks rows rows'" and "\<And>r r'. row_le r r' \<Longrightarrow> P r' \<Longrightarrow> P r"
  shows "length (filter P rows') \<le> length (filter P rows)"
proof -
  from assms(1) obtain k f where r: "rows' = map f (filter k rows)" "\<forall>r \<in> set rows. row_le r (f r)"
    unfolding shrinks_def by blast
  have "length (filter P rows') = length (filter (\<lambda>r. k r \<and> P (f r)) rows)"
    by (simp add: r(1) filter_map comp_def filter_filter conj_commute)
  also have "filter (\<lambda>r. k r \<and> P (f r)) rows = filter (\<lambda>r. k r \<and> P (f r)) (filter P rows)"
    unfolding filter_filter using r(2) assms(2) by (intro filter_cong) auto
  also have "length \<dots> \<le> length (filter P rows)" by (rule length_filter_le)
  finally show ?thesis .
qed

lemma shrinks_total: "shrinks (reservations st) (reservations st') \<Longrightarrow> total_count uid st' \<le> total_count uid st"
  unfolding total_count_def by (intro of_nat_mono shrinks_count) (auto simp: row_le_def)

lemma shrinks_live: "shrinks (reservations st) (reservations st') \<Longrightarrow> live_count uid st' \<le> live_count uid st"
  unfolding live_count_def by (intro of_nat_mono shrinks_count) (auto simp: row_le_def)

lemma shrinks_distinct:
  assumes "shrinks rows rows'" "distinct (map v_id rows)"
  shows "distinct (map v_id rows')"
proof -
  from assms(1) obtain k f where r: "rows' = map f (filter k rows)" "\<forall>r \<in> set rows. row_le r (f r)"
    unfolding shrinks_def by blast
  then have "map v_id rows' = map v_id (filter k rows)" by (simp add: row_le_def)
  with assms(2) show ?thesis by (simp add: distinct_map_filter)
qed

lemma shrinks_advance:
  assumes "shrinks rows rows'" "distinct (map v_id rows)" "r \<in> set rows" "r' \<in> set rows'" "v_id r' = v_id r"
  shows "row_le r r'"
proof -
  from assms(1) obtain k f where f: "rows' = map f (filter k rows)" "\<forall>r \<in> set rows. row_le r (f r)"
    unfolding shrinks_def by blast
  with assms(4) obtain q where q: "q \<in> set rows" "r' = f q" by auto
  with f(2) assms(5) have "v_id q = v_id r" by (auto simp: row_le_def)
  with assms(2,3) q(1) have "q = r" by (auto simp: distinct_map dest: inj_onD)
  with q f(2) show ?thesis by blast
qed

section \<open>The contract of operations that admit nobody\<close>

definition settings :: "store \<Rightarrow> user_row list \<times> policy_row list" where
  "settings st = (users st, policies st)"

locale shrinking =
  fixes oper :: "store \<Rightarrow> store"
  assumes rows_shrink: "shrinks (reservations st) (reservations (oper st))"
    and settings_kept: "settings (oper st) = settings st"
    and active_kept: "r \<in> set (reservations st) \<Longrightarrow> active r \<Longrightarrow> v_id r \<in> v_id ` set (reservations (oper st))"
begin

lemma total_bounded: "total_count uid (oper st) \<le> total_count uid st"
  by (rule shrinks_total [OF rows_shrink])

lemma live_bounded: "live_count uid (oper st) \<le> live_count uid st"
  by (rule shrinks_live [OF rows_shrink])

lemma ids_distinct: "distinct (map v_id (reservations st)) \<Longrightarrow> distinct (map v_id (reservations (oper st)))"
  by (rule shrinks_distinct [OF rows_shrink])

lemma rows_advance:
  "distinct (map v_id (reservations st)) \<Longrightarrow> r \<in> set (reservations st)
     \<Longrightarrow> r' \<in> set (reservations (oper st)) \<Longrightarrow> v_id r' = v_id r \<Longrightarrow> row_le r r'"
  by (rule shrinks_advance [OF rows_shrink])

end

lemma transaction_store:
  "snd (transaction up c action st) = st \<or>
     (\<exists>v. action st = (Inr v, snd (transaction up c action st)))"
  by (auto simp: transaction_def split: prod.splits sum.splits commit.splits)

lemma transaction_Inr:
  "transaction up c action st = (Inr v, st') \<longleftrightarrow> up \<and> c = Acknowledged \<and> action st = (Inr v, st')"
  by (auto simp: transaction_def split: prod.splits sum.splits commit.splits)

text \<open>A transaction satisfies the contract when its committed effect does.\<close>

lemma shrinking_transaction:
  assumes "\<And>st v st'. action st = (Inr v, st') \<Longrightarrow>
     shrinks (reservations st) (reservations st') \<and> settings st' = settings st
     \<and> (\<forall>r \<in> set (reservations st). active r \<longrightarrow> v_id r \<in> v_id ` set (reservations st'))"
  shows "shrinking (\<lambda>st. snd (transaction up c action st))"
proof
  fix st
  consider "snd (transaction up c action st) = st"
    | v where "action st = (Inr v, snd (transaction up c action st))"
    using transaction_store by blast
  then show "shrinks (reservations st) (reservations (snd (transaction up c action st)))"
    and "settings (snd (transaction up c action st)) = settings st"
    by (cases; use assms in auto)+
  fix r
  assume "r \<in> set (reservations st)" "active r"
  then show "v_id r \<in> v_id ` set (reservations (snd (transaction up c action st)))"
    using transaction_store [of up c action st] assms by (metis imageI)
qed

lemma update_rows_contract:
  assumes "\<And>r. p r \<Longrightarrow> row_le r (f r)"
  shows "shrinks (reservations st) (reservations (update_rows p f st))"
    and "settings (update_rows p f st) = settings st"
    and "v_id ` set (reservations (update_rows p f st)) = v_id ` set (reservations st)"
proof -
  have le: "row_le r (if p r then f r else r)" for r using assms by simp
  then show "shrinks (reservations st) (reservations (update_rows p f st))"
    unfolding update_rows_def by (simp add: shrinks_map)
  show "settings (update_rows p f st) = settings st" by (simp add: settings_def update_rows_def)
  show "v_id ` set (reservations (update_rows p f st)) = v_id ` set (reservations st)"
  proof -
    have "map v_id (reservations (update_rows p f st)) = map v_id (reservations st)"
      using le by (auto simp: update_rows_def row_le_def)
    then show ?thesis by (metis set_map)
  qed
qed

lemma row_le_retiring: "v_state r = ''held'' \<Longrightarrow> row_le r (r\<lparr>v_state := ''retiring''\<rparr>)"
  by (simp add: row_le_def rank_def active_def)

lemma row_le_release: "row_le r (release_row env now r)"
  by (simp add: row_le_def rank_def release_row_def active_def Let_def)

lemma row_le_deadline: "row_le r (r\<lparr>v_deadline := d\<rparr>)"
  by (simp add: row_le_def active_def)

lemma end_commands_kept [simp]:
  "reservations (end_commands rids (complete_outputs rids st)) = reservations st"
  "settings (end_commands rids (complete_outputs rids st)) = settings st"
  by (simp_all add: end_commands_def complete_outputs_def settings_def)

lemma retire_row_contract:
  "shrinks (reservations st) (reservations (retire_row rid st))"
  "settings (retire_row rid st) = settings st"
  "v_id ` set (reservations (retire_row rid st)) = v_id ` set (reservations st)"
  unfolding retire_row_def by (auto intro!: update_rows_contract row_le_retiring)

lemma renew_row_contract:
  assumes "renew_row rid now2 st = (r, st')"
  shows "shrinks (reservations st) (reservations st') \<and> settings st' = settings st
    \<and> v_id ` set (reservations st') = v_id ` set (reservations st)"
proof -
  have "st' = update_rows (\<lambda>r. v_id r = rid \<and> v_deadline r > now2 \<and> v_state r = ''held'')
      (\<lambda>r. r\<lparr>v_deadline := now2 + 60000000\<rparr>) st"
    using assms by (auto simp: renew_row_def Let_def split: if_splits)
  then show ?thesis by (simp add: update_rows_contract row_le_deadline)
qed

lemma check_on_contract:
  assumes "check_on env inst now now2 request renew binding st = (Inr v, st')"
  shows "shrinks (reservations st) (reservations st') \<and> settings st' = settings st
    \<and> v_id ` set (reservations st') = v_id ` set (reservations st)"
proof (cases renew)
  case False
  with assms have "st' = st" by (auto simp: check_on_def split: sum.splits option.splits if_splits)
  then show ?thesis by simp
next
  case True
  obtain r st1 where r: "renew_row (q_id request) now2 st = (r, st1)" by fastforce
  with True assms have "st' = st1"
    by (auto simp: check_on_def split: sum.splits option.splits if_splits)
  with renew_row_contract [OF r] show ?thesis by simp
qed

lemma retire_action_contract:
  assumes "retire_action env inst now request fingerprint release st = (Inr v, st')"
  shows "shrinks (reservations st) (reservations st') \<and> settings st' = settings st
    \<and> v_id ` set (reservations st') = v_id ` set (reservations st)"
proof -
  let ?u = "update_rows (\<lambda>r. v_id r = q_id request) (release_row env now)
    (end_commands {q_id request} (complete_outputs {q_id request} st))"
  have "st' = st \<or> st' = retire_row (q_id request) st \<or> st' = ?u"
    using assms by (auto simp: retire_action_def Let_def split: sum.splits option.splits if_splits)
  then show ?thesis
    using retire_row_contract [where st = st and rid = "q_id request"]
      update_rows_contract [where p = "\<lambda>r. v_id r = q_id request" and f = "release_row env now"
        and st = "end_commands {q_id request} (complete_outputs {q_id request} st)", OF row_le_release]
    by (elim disjE) simp_all
qed

lemma prune_action_rows:
  assumes "prune_action inst now operations starts protected st = (Inr v, st')"
  shows "\<exists>keep. reservations st' = filter keep (reservations st) \<and> (\<forall>r. active r \<longrightarrow> keep r)
    \<and> settings st' = settings st"
proof -
  define started where "started = {r \<in> set (reservations st). v_id r \<in> starts \<and> prunable now r}"
  define st2 where "st2 = st\<lparr>cutoff := max (cutoff st) (now - 300000000),
    reservations := filter (\<lambda>r. r \<notin> started) (reservations st)\<rparr>"
  define deleted where "deleted = filter (\<lambda>r. v_id r \<notin> protected)
    (prune_candidates now (prune_limit operations (card started)) st2)"
  have st': "st' = st2\<lparr>reservations := filter (\<lambda>r. r \<notin> set deleted) (reservations st2)\<rparr>"
    using assms by (auto simp: prune_action_def Let_def started_def st2_def deleted_def split: sum.splits)
  have "set deleted \<subseteq> {r. prunable now r}"
    by (auto simp: deleted_def prune_candidates_def dest!: in_set_takeD)
  then have "r \<notin> started \<and> r \<notin> set deleted" if "active r" for r
    using that by (auto simp: started_def prunable_def active_def)
  then show ?thesis
    by (intro exI [of _ "\<lambda>r. r \<notin> started \<and> r \<notin> set deleted"])
      (auto simp: st' st2_def settings_def conj_commute)
qed

lemma prune_keeps_active:
  assumes "prune_action inst now operations starts protected st = (Inr v, st')"
    and "r \<in> set (reservations st)" and "active r"
  shows "r \<in> set (reservations st')"
  using prune_action_rows [OF assms(1)] assms(2,3) by auto

lemma prune_action_contract:
  assumes "prune_action inst now operations starts protected st = (Inr v, st')"
  shows "shrinks (reservations st) (reservations st') \<and> settings st' = settings st
    \<and> (\<forall>r \<in> set (reservations st). active r \<longrightarrow> v_id r \<in> v_id ` set (reservations st'))"
  using prune_action_rows [OF assms] by (auto simp: shrinks_filter)

lemma fence_action_contract:
  assumes "fence_action inst expected st = (Inr v, st')"
  shows "shrinks (reservations st) (reservations st') \<and> settings st' = settings st
    \<and> v_id ` set (reservations st') = v_id ` set (reservations st)"
proof -
  let ?p = "\<lambda>r. v_instance_id r = inst \<and> v_state r = ''held''"
  let ?f = "\<lambda>r :: Row. r\<lparr>v_state := ''retiring''\<rparr>"
  from assms obtain st2 where "reservations st2 = reservations st" "settings st2 = settings st"
    "reservations st' = reservations (update_rows ?p ?f st2)" "settings st' = settings (update_rows ?p ?f st2)"
    by (auto simp: fence_action_def Let_def settings_def update_rows_def split: option.splits)
  with update_rows_contract [where p = ?p and f = ?f and st = st2] row_le_retiring show ?thesis by simp
qed

lemma reconcile_action_contract:
  assumes "reconcile_action env now inst revision st = (Inr v, st')"
  shows "shrinks (reservations st) (reservations st') \<and> settings st' = settings st
    \<and> v_id ` set (reservations st') = v_id ` set (reservations st)"
proof -
  let ?p = "\<lambda>r. v_instance_id r = inst \<and> active r"
  from assms obtain st1 where "reservations st1 = reservations st" "settings st1 = settings st"
    "reservations st' = reservations (update_rows ?p (release_row env now) st1)"
    "settings st' = settings (update_rows ?p (release_row env now) st1)"
    by (auto simp: reconcile_action_def Let_def settings_def update_rows_def end_commands_def
        complete_outputs_def split: option.splits if_splits)
  with update_rows_contract [where p = ?p and f = "release_row env now" and st = st1] row_le_release
  show ?thesis by simp
qed

interpretation check_op: shrinking "\<lambda>st. snd (check env t inst request renew binding st)"
  for env t inst request renew binding
  unfolding check_def by (rule shrinking_transaction) (drule check_on_contract, auto)

interpretation prune_op: shrinking "\<lambda>st. snd (prune t inst operations starts protected st)"
  for t inst operations starts protected
  unfolding prune_def by (rule shrinking_transaction) (rule prune_action_contract)

interpretation fence_op: shrinking "\<lambda>st. snd (fence t inst expected st)" for t inst expected
  unfolding fence_def by (rule shrinking_transaction) (drule fence_action_contract, auto)

lemma shrinking_id: "shrinking (\<lambda>st. st)"
  by unfold_locales auto

interpretation retire_op: shrinking "\<lambda>st. snd (retire env t inst request release st)"
  for env t inst request release
proof (cases "Request_encode env request")
  case (Inl e)
  then show "shrinking (\<lambda>st. snd (retire env t inst request release st))"
    using shrinking_id by (simp add: retire_def)
next
  case (Inr fingerprint)
  have "shrinking (\<lambda>st. snd (transaction (x_up t) (x_commit t)
      (retire_action env inst (x_now t) request fingerprint release) st))"
    by (rule shrinking_transaction) (drule retire_action_contract, auto)
  with Inr show "shrinking (\<lambda>st. snd (retire env t inst request release st))"
    by (simp add: retire_def)
qed

interpretation reconcile_op: shrinking "\<lambda>st. snd (reconcile env t inst revision gone st)"
  for env t inst revision gone
proof (cases gone)
  case False
  then show "shrinking (\<lambda>st. snd (reconcile env t inst revision gone st))"
    using shrinking_id by (simp add: reconcile_def)
next
  case True
  have "shrinking (\<lambda>st. snd (transaction (x_up t) (x_commit t)
      (reconcile_action env (x_now t) inst revision) st))"
    by (rule shrinking_transaction) (drule reconcile_action_contract, auto)
  with True show "shrinking (\<lambda>st. snd (reconcile env t inst revision gone st))"
    by (simp add: reconcile_def)
qed

interpretation register_op: shrinking "\<lambda>st. snd (register t inst st)" for t inst
  unfolding register_def
  by (rule shrinking_transaction) (auto simp: settings_def split: if_splits)

section \<open>Claims\<close>

lemma claim_existing_contract:
  assumes "claim_existing env inst now request fingerprint binding row st = (Inr v, st')"
  shows "rc_fresh v = False \<and> (st' = st \<or> st' = retire_row (v_id row) st)"
  using assms
  by (auto simp: claim_existing_def Row_receipt_def Let_def split: if_splits sum.splits option.splits Subject.splits)

lemma vod_insert_rows: "vod_insert env rid b st = (r, st') \<Longrightarrow> reservations st' = reservations st \<and> settings st' = settings st"
  by (auto simp: vod_insert_def Let_def settings_def split: option.splits)

definition is_live :: "Request \<Rightarrow> bool" where
  "is_live request = (case q_subject request of Live _ _ \<Rightarrow> True | Vod _ _ \<Rightarrow> False)"

text \<open>What a newly admitted claim has been checked against, and what it writes.\<close>

lemma claim_new_contract:
  assumes "claim_new env inst now now2 request fingerprint binding st = (Inr v, st')"
  shows "\<exists>cap verified. ceiling (a_user (q_actor request)) st = Inr cap
    \<and> check_binding env request binding st = Inr ()
    \<and> verify env request None = Inr verified
    \<and> allows cap (total_count (a_user (q_actor request)) st)
    \<and> (is_live request \<longrightarrow> allows (w_cap verified) (live_count (a_user (q_actor request)) st))
    \<and> reservations st' = reservations st @ [new_row inst now2 request fingerprint verified]
    \<and> settings st' = settings st \<and> rc_fresh v"
proof -
  obtain cap where cap: "ceiling (a_user (q_actor request)) st = Inr cap"
    using assms by (auto simp: claim_new_def Let_def split: sum.splits)
  have b: "check_binding env request binding st = Inr ()"
    using assms cap by (auto simp: claim_new_def Let_def split: sum.splits)
  obtain verified where ver: "verify env request None = Inr verified"
    using assms cap b by (auto simp: claim_new_def Let_def split: sum.splits)
  define row where "row = new_row inst now2 request fingerprint verified"
  define st1 where "st1 = st\<lparr>reservations := reservations st @ [row]\<rparr>"
  obtain r st2 where r: "(case binding of Some b \<Rightarrow> vod_insert env (q_id request) b st1 | None \<Rightarrow> (Inr (), st1)) = (r, st2)"
    by fastforce
  have st2: "reservations st2 = reservations st1 \<and> settings st2 = settings st1"
    using r by (auto split: option.splits dest: vod_insert_rows)
  have s1: "reservations st1 = reservations st @ [row]" "settings st1 = settings st"
    by (simp_all add: st1_def settings_def)
  have live: "(case q_subject request of Live _ _ \<Rightarrow> True | Vod _ _ \<Rightarrow> False) = is_live request"
    by (simp add: is_live_def)
  note E = assms [unfolded claim_new_def Let_def cap b ver live, simplified, folded row_def, folded st1_def, unfolded r]
  have "allows cap (total_count (a_user (q_actor request)) st)"
    "is_live request \<longrightarrow> allows (w_cap verified) (live_count (a_user (q_actor request)) st)"
    "st' = st2" "rc_fresh v"
    using E by (auto simp: Row_receipt_def Let_def split: if_splits option.splits sum.splits)
  then show ?thesis using cap b ver st2 s1 by (auto simp: row_def)
qed

lemma claim_cases:
  obtains (unchanged) "snd (claim env t inst request allow binding st) = st"
  | (retired) "snd (claim env t inst request allow binding st) = retire_row (q_id request) st"
  | (admitted) fingerprint v where "find_row (q_id request) st = None"
      "check_instance inst True st = Inr ()"
      "claim_new env inst (x_now t) (x_now2 t) request fingerprint binding st
         = (Inr v, snd (claim env t inst request allow binding st))"
proof (cases "Request_encode env request")
  case (Inl e)
  then show ?thesis using unchanged by (simp add: claim_def)
next
  case (Inr fingerprint)
  let ?a = "claim_action env inst (x_now t) (x_now2 t) request fingerprint allow binding"
  have c: "snd (claim env t inst request allow binding st) = snd (transaction (x_up t) (x_commit t) ?a st)"
    by (simp add: claim_def Inr)
  from transaction_store [of "x_up t" "x_commit t" ?a st] show ?thesis
  proof (elim disjE exE)
    fix v
    assume v: "?a st = (Inr v, snd (transaction (x_up t) (x_commit t) ?a st))"
    have i: "check_instance inst True st = Inr ()"
      using v by (auto simp: claim_action_def split: sum.splits)
    show ?thesis
    proof (cases "find_row (q_id request) st")
      case None
      then show ?thesis using admitted [of fingerprint v] v c i
        by (auto simp: claim_action_def split: sum.splits if_splits)
    next
      case (Some row)
      then have "v_id row = q_id request" by (auto simp: find_row_def dest: find_Some_set)
      with Some v have "snd (transaction (x_up t) (x_commit t) ?a st) = st
          \<or> snd (transaction (x_up t) (x_commit t) ?a st) = retire_row (q_id request) st"
        by (auto simp: claim_action_def split: sum.splits dest!: claim_existing_contract)
      with c unchanged retired show ?thesis by metis
    qed
  qed (use c unchanged in simp)
qed

lemma ceiling_settings: "settings st' = settings st \<Longrightarrow> ceiling uid st' = ceiling uid st"
  by (auto simp: ceiling_def settings_def applicable_policies_def split: option.splits)

lemma total_count_append:
  "reservations st' = reservations st @ [row] \<Longrightarrow>
     total_count uid st' = total_count uid st + (if v_household_id row = uid \<and> active row then 1 else 0)"
  by (simp add: total_count_def)

lemma new_row_fields [simp]:
  "v_id (new_row inst now2 request fp ver) = q_id request"
  "v_household_id (new_row inst now2 request fp ver) = a_user (q_actor request)"
  "active (new_row inst now2 request fp ver)"
  by (simp_all add: new_row_def active_def)

lemma claim_total:
  assumes "ceiling uid st = Inr (Some n)"
  shows "total_count uid (snd (claim env t inst request allow binding st)) \<le> max (total_count uid st) n
    \<and> settings (snd (claim env t inst request allow binding st)) = settings st"
proof (cases rule: claim_cases [of env t inst request allow binding st])
  case unchanged
  then show ?thesis by simp
next
  case retired
  have "total_count uid (retire_row (q_id request) st) \<le> total_count uid st"
    by (rule shrinks_total) (rule retire_row_contract)
  then show ?thesis by (simp add: retired retire_row_contract)
next
  case (admitted fingerprint v)
  from claim_new_contract [OF admitted(3)] obtain cap verified where
    c: "ceiling (a_user (q_actor request)) st = Inr cap"
       "allows cap (total_count (a_user (q_actor request)) st)"
       "reservations (snd (claim env t inst request allow binding st))
          = reservations st @ [new_row inst (x_now2 t) request fingerprint verified]"
       "settings (snd (claim env t inst request allow binding st)) = settings st"
    by blast
  show ?thesis
  proof (cases "a_user (q_actor request) = uid")
    case True
    with c(1,2) assms have "total_count uid st < n" by (auto simp: allows_def)
    with True c(4) total_count_append [OF c(3), of uid] show ?thesis by simp
  next
    case False
    with c(4) total_count_append [OF c(3), of uid] show ?thesis by simp
  qed
qed

section \<open>Every sequence of transactions\<close>

inductive ledger_step :: "store \<Rightarrow> store \<Rightarrow> bool" where
  claim: "ledger_step st (snd (claim env t inst request allow binding st))"
| check: "ledger_step st (snd (check env t inst request renew binding st))"
| retire: "ledger_step st (snd (retire env t inst request release st))"
| prune: "ledger_step st (snd (prune t inst operations starts protected st))"
| fence: "ledger_step st (snd (fence t inst expected st))"
| reconcile: "ledger_step st (snd (reconcile env t inst revision gone st))"
| register: "ledger_step st (snd (register t inst st))"

lemmas totals_bounded = check_op.total_bounded retire_op.total_bounded prune_op.total_bounded
  fence_op.total_bounded reconcile_op.total_bounded register_op.total_bounded

lemmas all_settings_kept = check_op.settings_kept retire_op.settings_kept prune_op.settings_kept
  fence_op.settings_kept reconcile_op.settings_kept register_op.settings_kept

lemma ledger_step_total:
  assumes "ledger_step st st'" "ceiling uid st = Inr (Some n)"
  shows "total_count uid st' \<le> max (total_count uid st) n \<and> ceiling uid st' = Inr (Some n)"
proof -
  have "total_count uid st' \<le> max (total_count uid st) n \<and> settings st' = settings st"
    using assms
  proof (cases rule: ledger_step.cases)
    case (claim env t inst request allow binding)
    with assms(2) claim_total show ?thesis by blast
  qed (simp_all add: all_settings_kept, (metis totals_bounded max.coboundedI1)+)
  with assms(2) show ?thesis using ceiling_settings by metis
qed

text \<open>
  C1. Households never exceed their stream limit: whatever claims, renewals, retirements, pruning,
  fencing and reconciliation are run by any number of server instances, with any transaction
  failing or losing its commit, the reservations of a household that are not released stay at
  most at the limit of its policy, or at what they were when that was more.
\<close>

theorem household_limit_respected:
  assumes "ledger_step\<^sup>*\<^sup>* st st'" and "ceiling uid st = Inr (Some n)"
  shows "total_count uid st' \<le> max (total_count uid st) n"
proof -
  from assms(1) have "total_count uid st' \<le> max (total_count uid st) n \<and> ceiling uid st' = Inr (Some n)"
  proof (induction rule: rtranclp_induct)
    case base
    then show ?case using assms(2) by simp
  next
    case (step y z)
    with ledger_step_total [of y z uid n] show ?case by linarith
  qed
  then show ?thesis by simp
qed

text \<open>
  C13. A freshly admitted reservation has passed every limit: the household total and, for live
  television, the live limit of the assignment were below their bounds, the total has grown by
  exactly one, and an encoding of the source was admitted only within the transcode limit.
\<close>

theorem fresh_claim_within_limits:
  assumes "claim env t inst request allow binding st = (Inr receipt, st')" and "rc_fresh receipt"
  defines "user \<equiv> a_user (q_actor request)"
  shows "allow \<and> total_count user st' = total_count user st + 1
    \<and> (\<exists>cap. ceiling user st = Inr cap \<and> allows cap (total_count user st))
    \<and> (\<exists>verified. verify env request None = Inr verified
         \<and> (is_live request \<longrightarrow> allows (w_cap verified) (live_count user st)))
    \<and> (case binding of
         Some b \<Rightarrow> \<exists>policy. vod_policy user st = Inr policy \<and> Policy_permits policy b
           \<and> (b_encodes b \<longrightarrow> allows (y_transcode policy) (transcode_count user st))
       | None \<Rightarrow> True)"
proof -
  from assms(1) obtain fingerprint where f: "claim_action env inst (x_now t) (x_now2 t) request fingerprint
      allow binding st = (Inr receipt, st')"
    by (auto simp: claim_def transaction_Inr split: sum.splits)
  have "allow" and n: "claim_new env inst (x_now t) (x_now2 t) request fingerprint binding st = (Inr receipt, st')"
    using f assms(2)
    by (auto simp: claim_action_def split: sum.splits option.splits if_splits dest!: claim_existing_contract)
  from claim_new_contract [OF n] obtain cap verified where
    c: "ceiling user st = Inr cap" "check_binding env request binding st = Inr ()"
       "verify env request None = Inr verified" "allows cap (total_count user st)"
       "is_live request \<longrightarrow> allows (w_cap verified) (live_count user st)"
       "reservations st' = reservations st @ [new_row inst (x_now2 t) request fingerprint verified]"
    unfolding user_def by blast
  have "case binding of
         Some b \<Rightarrow> \<exists>policy. vod_policy user st = Inr policy \<and> Policy_permits policy b
           \<and> (b_encodes b \<longrightarrow> allows (y_transcode policy) (transcode_count user st))
       | None \<Rightarrow> True"
    using c(2) by (auto simp: check_binding_def user_def split: option.splits Subject.splits sum.splits if_splits)
  with \<open>allow\<close> c total_count_append [OF c(6), of user] show ?thesis by (auto simp: user_def)
qed

section \<open>Reservations move forward\<close>

lemma claim_rows:
  assumes "distinct (map v_id (reservations st))"
  shows "shrinks (reservations st) (reservations (snd (claim env t inst request allow binding st)))
    \<or> (\<exists>row. reservations (snd (claim env t inst request allow binding st)) = reservations st @ [row]
         \<and> v_id row \<notin> v_id ` set (reservations st))"
proof (cases rule: claim_cases [of env t inst request allow binding st])
  case (admitted fingerprint v)
  from admitted(1) have "q_id request \<notin> v_id ` set (reservations st)"
    by (auto simp: find_row_def find_None_iff)
  with claim_new_contract [OF admitted(3)] show ?thesis by (metis new_row_fields(1))
qed (simp_all add: retire_row_contract)

lemma ledger_step_rows:
  assumes "ledger_step st st'" "distinct (map v_id (reservations st))"
  shows "shrinks (reservations st) (reservations st')
    \<or> (\<exists>row. reservations st' = reservations st @ [row] \<and> v_id row \<notin> v_id ` set (reservations st))"
  using assms
proof (cases rule: ledger_step.cases)
  case (claim env t inst request allow binding)
  with assms(2) claim_rows show ?thesis by blast
qed (simp_all add: check_op.rows_shrink retire_op.rows_shrink prune_op.rows_shrink
    fence_op.rows_shrink reconcile_op.rows_shrink register_op.rows_shrink)

lemma ledger_step_distinct:
  assumes "ledger_step st st'" "distinct (map v_id (reservations st))"
  shows "distinct (map v_id (reservations st'))"
  using ledger_step_rows [OF assms] shrinks_distinct assms(2) by auto

text \<open>
  C14. A request holds at most one reservation, whatever is retried: in every sequence of
  transactions the identifiers of the ledger stay distinct, so repeating a claim whose commit was
  lost cannot admit a second stream.
\<close>

theorem one_reservation_per_request:
  assumes "ledger_step\<^sup>*\<^sup>* st st'" and "distinct (map v_id (reservations st))"
  shows "length (filter (\<lambda>r. v_id r = rid) (reservations st')) \<le> 1"
proof -
  from assms have "distinct (map v_id (reservations st'))"
    by (induction rule: rtranclp_induct) (auto intro: ledger_step_distinct)
  then have "distinct (filter (\<lambda>i. i = rid) (map v_id (reservations st')))" by simp
  then have "length (filter (\<lambda>i. i = rid) (map v_id (reservations st'))) \<le> 1"
    by (metis (mono_tags, lifting) card_le_Suc0_iff_eq distinct_card finite_set mem_Collect_eq
        set_filter One_nat_def)
  then show ?thesis by (simp add: filter_map comp_def)
qed

text \<open>
  C15. No transaction moves a reservation backwards from retiring to held or from released, changes
  whom it belongs to, or removes one that is not released.
\<close>

theorem reservations_only_advance:
  assumes "ledger_step st st'" and "distinct (map v_id (reservations st))" and "r \<in> set (reservations st)"
  shows "(\<forall>r' \<in> set (reservations st'). v_id r' = v_id r \<longrightarrow>
        rank (v_state r) \<le> rank (v_state r') \<and> v_household_id r' = v_household_id r
        \<and> v_instance_id r' = v_instance_id r \<and> v_fingerprint r' = v_fingerprint r)
    \<and> (active r \<longrightarrow> (\<exists>r' \<in> set (reservations st'). v_id r' = v_id r))"
proof
  show "\<forall>r' \<in> set (reservations st'). v_id r' = v_id r \<longrightarrow>
        rank (v_state r) \<le> rank (v_state r') \<and> v_household_id r' = v_household_id r
        \<and> v_instance_id r' = v_instance_id r \<and> v_fingerprint r' = v_fingerprint r"
  proof (intro ballI impI)
    fix r'
    assume r': "r' \<in> set (reservations st')" "v_id r' = v_id r"
    from ledger_step_rows [OF assms(1,2)] have "row_le r r'"
    proof (elim disjE exE conjE)
      fix row
      assume row: "reservations st' = reservations st @ [row]" "v_id row \<notin> v_id ` set (reservations st)"
      with r' assms(3) have "r' \<in> set (reservations st)" by auto
      with r' assms(2,3) have "r' = r" by (auto simp: distinct_map dest: inj_onD)
      then show ?thesis by simp
    qed (use shrinks_advance assms r' in blast)
    then show "rank (v_state r) \<le> rank (v_state r') \<and> v_household_id r' = v_household_id r
        \<and> v_instance_id r' = v_instance_id r \<and> v_fingerprint r' = v_fingerprint r"
      by (simp add: row_le_def)
  qed
  have "active r \<longrightarrow> v_id r \<in> v_id ` set (reservations st')"
    using assms(1)
  proof (cases rule: ledger_step.cases)
    case (claim env t inst request allow binding)
    show ?thesis
    proof (cases rule: claim_cases [of env t inst request allow binding st])
      case (admitted fingerprint v)
      from claim_new_contract [OF admitted(3)] claim assms(3) show ?thesis by auto
    qed (use claim assms(3) in \<open>simp_all add: retire_row_contract\<close>)
  qed (use assms(3) in \<open>blast dest: check_op.active_kept retire_op.active_kept prune_op.active_kept
      fence_op.active_kept reconcile_op.active_kept register_op.active_kept\<close>)+
  then show "active r \<longrightarrow> (\<exists>r' \<in> set (reservations st'). v_id r' = v_id r)" by force
qed

section \<open>Renewal\<close>

text \<open>
  A successful renewal was of a reservation this instance still held, and sets its deadline
  sixty seconds from the time of the update; a successful check without renewal changes nothing.
\<close>

theorem renewal_extends_deadline:
  assumes "check env t inst request renew binding st = (Inr receipt, st')"
    and "distinct (map v_id (reservations st))"
  shows "\<exists>row. find_row (q_id request) st = Some row \<and> v_instance_id row = inst \<and> v_state row = ''held''
    \<and> x_now t < v_deadline row \<and> rc_id receipt = v_id row
    \<and> (if renew then rc_deadline receipt = x_now2 t + 60000000
       else rc_deadline receipt = v_deadline row \<and> st' = st)"
proof -
  from assms(1) have c: "check_on env inst (x_now t) (x_now2 t) request renew binding st = (Inr receipt, st')"
    by (auto simp: check_def transaction_Inr)
  then obtain row where row: "find_row (q_id request) st = Some row"
    by (auto simp: check_on_def split: sum.splits option.splits)
  have own: "v_instance_id row = inst" "v_state row = ''held''" "x_now t < v_deadline row"
    using c row by (auto simp: check_on_def split: sum.splits if_splits)
  have rid: "v_id row = q_id request" using row by (auto simp: find_row_def dest: find_Some_set)
  have receipt: "rc_id receipt = v_id row' \<and> rc_deadline receipt = v_deadline row'"
    if "Row_receipt env row' now fr inst = Inr receipt" for row' now fr
    using that by (auto simp: Row_receipt_def Let_def split: sum.splits if_splits option.splits)
  show ?thesis
  proof (cases renew)
    case False
    with c row have "st' = st" "Row_receipt env row (x_now t) False inst = Inr receipt"
      by (auto simp: check_on_def split: sum.splits if_splits)
    with row own False receipt show ?thesis by auto
  next
    case True
    let ?p = "\<lambda>r. v_id r = q_id request \<and> v_deadline r > x_now2 t \<and> v_state r = ''held''"
    from c True row obtain st1 row' where
      st1: "renew_row (q_id request) (x_now2 t) st = (Inr (), st1)"
      and row': "find_row (q_id request) st1 = Some row'" "Row_receipt env row' (x_now t) False inst = Inr receipt"
      by (auto simp: check_on_def split: sum.splits if_splits option.splits prod.splits)
    then have u: "st1 = update_rows ?p (\<lambda>r. r\<lparr>v_deadline := x_now2 t + 60000000\<rparr>) st"
      and one: "length (filter ?p (reservations st)) = 1"
      by (auto simp: renew_row_def Let_def split: if_splits)
    from one have "filter ?p (reservations st) \<noteq> []" by force
    then obtain q where q: "q \<in> set (reservations st)" "?p q" unfolding filter_empty_conv by blast
    have "row' \<in> set (reservations st1)" "v_id row' = q_id request"
      using row'(1) by (auto simp: find_row_def dest: find_Some_set)
    then obtain x where x: "x \<in> set (reservations st)" "v_id x = q_id request"
        "row' = (if ?p x then x\<lparr>v_deadline := x_now2 t + 60000000\<rparr> else x)"
      unfolding u update_rows_def by (auto split: if_splits)
    have "x = q" using x(1,2) q assms(2) unfolding distinct_map by (metis inj_onD)
    with x q have "v_deadline row' = x_now2 t + 60000000" "v_id row' = v_id row" using rid by auto
    with receipt [OF row'(2)] row own True show ?thesis by auto
  qed
qed

section \<open>Operators\<close>

lemma fence_action_instances:
  assumes "fence_action inst expected st = (Inr revision, st')" "distinct (map i_id (instances st))"
  shows "\<exists>i \<in> set (instances st'). i_id i = inst \<and> i_fenced i \<and> i_revision i = revision"
    and "\<forall>i \<in> set (instances st'). i_id i = inst \<longrightarrow> i_fenced i"
    and "revision = expected + 1"
proof -
  let ?p = "\<lambda>i. i_id i = inst \<and> i_revision i = expected \<and> \<not> i_fenced i"
  let ?f = "\<lambda>j. if ?p j then j\<lparr>i_fenced := True, i_revision := i_revision j + 1\<rparr> else j"
  from assms(1) obtain i where i: "List.find ?p (instances st) = Some i"
    and r: "revision = i_revision i + 1" and st': "instances st' = map ?f (instances st)"
    by (auto simp: fence_action_def Let_def update_rows_def split: option.splits)
  from i have i': "i \<in> set (instances st)" "?p i" by (auto dest: find_Some_set)
  from i'(1) have "?f i \<in> set (instances st')" unfolding st' set_map by (rule imageI)
  then show "\<exists>i \<in> set (instances st'). i_id i = inst \<and> i_fenced i \<and> i_revision i = revision"
    by (rule bexI [rotated]) (use i'(2) r in simp)
  have "j = i" if "j \<in> set (instances st)" "i_id j = inst" for j
    using that i' assms(2) unfolding distinct_map by (metis inj_onD)
  with i' show "\<forall>i \<in> set (instances st'). i_id i = inst \<longrightarrow> i_fenced i" unfolding st' by auto
  show "revision = expected + 1" using r i'(2) by simp
qed

lemma fence_action_rows:
  assumes "fence_action inst expected st = (Inr revision, st')"
  shows "r \<in> set (reservations st') \<Longrightarrow> v_instance_id r = inst \<Longrightarrow> v_state r \<noteq> ''held''"
proof -
  let ?g = "\<lambda>r. if v_instance_id r = inst \<and> v_state r = ''held'' then r\<lparr>v_state := ''retiring''\<rparr> else r"
  have r: "reservations st' = map ?g (reservations st)"
    using assms by (auto simp: fence_action_def Let_def update_rows_def split: option.splits)
  have "v_instance_id (?g x) = inst \<Longrightarrow> v_state (?g x) \<noteq> ''held''" for x by (simp split: if_splits)
  then show "r \<in> set (reservations st') \<Longrightarrow> v_instance_id r = inst \<Longrightarrow> v_state r \<noteq> ''held''"
    unfolding r set_map by blast
qed

text \<open>
  Fencing stops an instance: after a successful fence at the expected revision none of its
  reservations is held, and every later claim, check or pruning of that instance is refused and
  changes nothing.
\<close>

theorem fenced_instance_is_stopped:
  assumes "fence t inst expected st = (Inr revision, st')" and "distinct (map i_id (instances st))"
  shows "revision = expected + 1
    \<and> (\<nexists>r. r \<in> set (reservations st') \<and> v_instance_id r = inst \<and> v_state r = ''held'')
    \<and> isl (fst (claim env t' inst request allow binding st')) \<and> snd (claim env t' inst request allow binding st') = st'
    \<and> isl (fst (check env t' inst request renew binding st')) \<and> snd (check env t' inst request renew binding st') = st'"
proof -
  from assms(1) have f: "fence_action inst expected st = (Inr revision, st')"
    by (simp add: fence_def transaction_Inr)
  note i = fence_action_instances [OF f assms(2)]
  have "check_instance inst True st' = Inl E_Closed"
    using i(2) by (auto simp: check_instance_def split: option.splits dest: find_Some_set)
  then have "isl (fst (claim_action env inst now now2 request fp allow binding st'))"
    and "isl (fst (check_on env inst now now2 request renew binding st'))" for now now2 fp
    by (auto simp: claim_action_def check_on_def split: sum.splits)
  moreover have "isl (fst (transaction up c action st')) \<and> snd (transaction up c action st') = st'"
    if "isl (fst (action st'))" for up c and action :: "store \<Rightarrow> (AdmissionError + Receipt) \<times> store"
    using that by (auto simp: transaction_def split: prod.splits sum.splits)
  ultimately show ?thesis
    using i(3) fence_action_rows [OF f] by (auto simp: claim_def check_def split: sum.splits)
qed

text \<open>
  Reconciliation clears a fenced instance: it needs the operator's assurance and the revision
  of the fence, afterwards the instance has no reservation that is not released, the number
  reported is the number released, and reservations of other instances are as they were.
\<close>

theorem reconcile_releases_instance:
  assumes "reconcile env t inst revision gone st = (Inr count, st')"
  shows "gone \<and> (\<exists>i \<in> set (instances st). i_id i = inst \<and> i_fenced i \<and> i_revision i = revision)
    \<and> (\<nexists>r. r \<in> set (reservations st') \<and> v_instance_id r = inst \<and> active r)
    \<and> count = length (filter (\<lambda>r. v_instance_id r = inst \<and> active r) (reservations st))
    \<and> filter (\<lambda>r. v_instance_id r \<noteq> inst) (reservations st') = filter (\<lambda>r. v_instance_id r \<noteq> inst) (reservations st)"
proof -
  let ?p = "\<lambda>r. v_instance_id r = inst \<and> active r"
  let ?g = "\<lambda>r. if ?p r then release_row env (x_now t) r else r"
  from assms have gone: gone and a: "reconcile_action env (x_now t) inst revision st = (Inr count, st')"
    by (auto simp: reconcile_def transaction_Inr split: if_splits)
  from a have i: "\<exists>i \<in> set (instances st). i_id i = inst \<and> i_fenced i \<and> i_revision i = revision"
    by (auto simp: reconcile_action_def split: option.splits if_splits dest!: find_Some_set)
  from a have r: "reservations st' = map ?g (reservations st)"
    and c: "count = length (filter ?p (reservations st))"
    by (auto simp: reconcile_action_def Let_def update_rows_def end_commands_def complete_outputs_def
        split: option.splits if_splits)
  have g: "v_instance_id (?g r) = v_instance_id r" "\<not> ?p (?g r)" for r
    by (auto simp: release_row_def active_def Let_def)
  have "\<nexists>r. r \<in> set (reservations st') \<and> ?p r" unfolding r set_map using g(2) by blast
  moreover have "filter (\<lambda>r. v_instance_id r \<noteq> inst) (reservations st')
      = filter (\<lambda>r. v_instance_id r \<noteq> inst) (reservations st)"
  proof -
    have "filter (\<lambda>r. v_instance_id r \<noteq> inst) (map ?g rows) = filter (\<lambda>r. v_instance_id r \<noteq> inst) rows" for rows
      by (induction rows) (auto simp: release_row_def Let_def)
    then show ?thesis unfolding r .
  qed
  ultimately show ?thesis using gone i c by blast
qed

section \<open>Fingerprints identify requests\<close>

lemma decode_encodes:
  assumes "Request_decode env rid value = Inr request"
  shows "Request_encode env request = Inr value \<and> q_id request = rid"
  using assms by (auto simp: Request_decode_def Let_def split: if_splits option.splits sum.splits)

text \<open>
  A fingerprint decodes to the request that was encoded (without the session binding, which it
  does not store), and only a canonical fingerprint decodes at all: what decodes encodes back to
  the same text.
\<close>

theorem fingerprint_roundtrip:
  assumes "\<And>f s. l_to_string env f = Some s \<Longrightarrow> l_from_str env s = Some f"
    and "Request_encode env request = Inr value"
  shows "Request_decode env (q_id request) value = Inr (request\<lparr>q_actor := (q_actor request)\<lparr>a_binding := None\<rparr>\<rparr>)
    \<and> (\<forall>rid other. Request_decode env rid value = Inr other \<longrightarrow> Request_encode env other = Inr value)"
proof
  let ?a = "q_actor request"
  let ?r = "request\<lparr>q_actor := ?a\<lparr>a_binding := None\<rparr>\<rparr>"
  from assms(2) obtain tr where tr: "(a_transport ?a = Cookie \<and> tr = 0) \<or> (a_transport ?a = Bearer \<and> tr = 1)"
    and s: "l_to_string env \<lparr>fp_user = a_user ?a, fp_session = a_session ?a, fp_profile = a_profile ?a,
        fp_version = a_version ?a, fp_profile_revision = q_profile_revision request,
        fp_transport = tr, fp_subject = q_subject request\<rparr> = Some value"
    and l: "length value \<le> 2048"
    by (auto simp: Request_encode_def Let_def split: if_splits option.splits CredentialTransport.splits)
  have e: "Request_encode env ?r = Inr value"
    using assms(2) by (cases "a_transport ?a") (simp_all add: Request_encode_def Let_def split: if_splits)
  show "Request_decode env (q_id request) value = Inr ?r"
  proof -
    have r: "?r = \<lparr>q_id = q_id request,
        q_actor = \<lparr>a_version = a_version ?a, a_user = a_user ?a, a_session = a_session ?a,
          a_profile = a_profile ?a, a_transport = a_transport ?a, a_binding = None\<rparr>,
        q_profile_revision = q_profile_revision request, q_subject = q_subject request\<rparr>"
      by simp
    show ?thesis
      using tr l e assms(1) [OF s] unfolding r by (auto simp: Request_decode_def Let_def)
  qed
  show "\<forall>rid other. Request_decode env rid value = Inr other \<longrightarrow> Request_encode env other = Inr value"
    using decode_encodes by blast
qed

section \<open>A concrete ledger\<close>

definition sample_fp :: Fingerprint where
  "sample_fp = \<lparr>fp_user = 5, fp_session = 6, fp_profile = 7, fp_version = 1, fp_profile_revision = 1,
     fp_transport = 0, fp_subject = Vod 8 9\<rparr>"

definition sample_authority :: authority_env where
  "sample_authority = \<lparr>z_context_check = (\<lambda>_. True), z_active_user = (\<lambda>_. Some (''member'', True)),
     z_session = (\<lambda>_ _. True), z_owns_profile = (\<lambda>_ _. True),
     z_capabilities = (\<lambda>_ _. Some [''play_media'']), z_profile_scope = (\<lambda>_ _ _. Some 0),
     z_media_file = (\<lambda>_ _. True), z_item_locked = (\<lambda>_. True), z_media_access = (\<lambda>_ _. True),
     z_viewing = (\<lambda>_. None), z_snapshot = (\<lambda>_. None), z_channel_by_key = (\<lambda>_ _. None),
     z_channel = (\<lambda>_ _. None), z_live_caps = (\<lambda>_. None)\<rparr>"

definition sample_ledger :: ledger_env where
  "sample_ledger = \<lparr>l_uuid_version = (\<lambda>_. 7),
     l_to_string = (\<lambda>f. if f = sample_fp then Some ''fp'' else None),
     l_from_str = (\<lambda>s. if s = ''fp'' then Some sample_fp else None),
     l_policy_hash = (\<lambda>_. None), l_ambient_allowed = (\<lambda>_ _ _. False), l_permitted = (\<lambda>_ _ _. True),
     l_time_error = (\<lambda>_ _ _. 0), l_insert_guard = (\<lambda>_ _. None), l_command_guard = (\<lambda>_ _. None),
     l_release_guard = (\<lambda>_ _. None), l_prune_time = (\<lambda>_ t. t + 86400000000),
     l_authority = sample_authority\<rparr>"

definition sample_request :: Request where
  "sample_request = \<lparr>q_id = 3, q_actor = \<lparr>a_version = 1, a_user = 5, a_session = 6, a_profile = 7,
       a_transport = Cookie, a_binding = Some [1]\<rparr>,
     q_profile_revision = 1, q_subject = Vod 8 9\<rparr>"

definition sample_store :: store where
  "sample_store = \<lparr>instances = [\<lparr>i_id = 1, i_revision = 1, i_fenced = False, i_reconciled_at = None\<rparr>],
     users = [\<lparr>u_id = 5, u_max_streams = Some 1, u_max_transcode_streams = None,
       u_bandwidth_limit_bps = None, u_streaming_policy_id = None\<rparr>],
     policies = [\<lparr>p_id = 2, p_is_default = True, p_max_streams = Some 4, p_max_transcode_streams = None,
       p_bandwidth_limit_bps = None, p_allow_direct_play = True, p_allow_direct_stream = True,
       p_allow_transcode = True, p_max_transcode_resolution = None, p_allow_transcode_4k = False,
       p_require_direct_play_4k = False, p_supported = True\<rparr>],
     reservations = [], commands = [], controls = [], start_intents = [], operator_events = [],
     cutoff = 0\<rparr>"

definition sample_tx :: "timestamp \<Rightarrow> tx" where
  "sample_tx now = \<lparr>x_up = True, x_commit = Acknowledged, x_now = now, x_now2 = now + 10\<rparr>"

definition sample_claim :: "(AdmissionError + Receipt) \<times> store" where
  "sample_claim = claim sample_ledger (sample_tx 0) 1 sample_request True None sample_store"

definition sample_claimed :: store where
  "sample_claimed = snd sample_claim"

lemma sample_claim_step: "ledger_step\<^sup>*\<^sup>* sample_store sample_claimed"
  unfolding sample_claimed_def sample_claim_def by (rule r_into_rtranclp) (rule ledger_step.claim)

theorem household_limit_respected_witness:
  "total_count 5 sample_claimed = 1 \<and> total_count 5 sample_claimed \<le> max (total_count 5 sample_store) 1"
proof
  show "total_count 5 sample_claimed = 1" by code_simp
  show "total_count 5 sample_claimed \<le> max (total_count 5 sample_store) 1"
    by (rule household_limit_respected [OF sample_claim_step]) code_simp
qed

theorem fresh_claim_within_limits_witness:
  "total_count 5 (snd sample_claim) = total_count 5 sample_store + 1"
proof -
  have "\<not> isl (fst sample_claim) \<and> rc_fresh (projr (fst sample_claim))" by code_simp
  then obtain receipt where "sample_claim = (Inr receipt, snd sample_claim)" "rc_fresh receipt"
    by (metis prod.collapse sum.collapse(2))
  from fresh_claim_within_limits [OF this(1) [unfolded sample_claim_def] this(2)]
  show ?thesis by (simp add: sample_request_def sample_claim_def)
qed

theorem one_reservation_per_request_witness:
  "length (filter (\<lambda>r. v_id r = 3) (reservations sample_claimed)) = 1
   \<and> length (filter (\<lambda>r. v_id r = 3) (reservations sample_claimed)) \<le> 1"
proof
  show "length (filter (\<lambda>r. v_id r = 3) (reservations sample_claimed)) = 1" by code_simp
  show "length (filter (\<lambda>r. v_id r = 3) (reservations sample_claimed)) \<le> 1"
    by (rule one_reservation_per_request [OF sample_claim_step]) (simp add: sample_store_def)
qed

lemma sample_claimed_rows:
  "map (\<lambda>r. (v_id r, v_state r)) (reservations sample_claimed) = [(3, ''held'')]"
  by code_simp

theorem reservations_only_advance_witness:
  "\<exists>r' \<in> set (reservations (snd (retire sample_ledger (sample_tx 100) 1 sample_request True sample_claimed))).
     v_id r' = 3"
proof -
  from sample_claimed_rows obtain r where r: "reservations sample_claimed = [r]" "v_id r = 3" "v_state r = ''held''"
    by (auto simp: map_eq_Cons_conv)
  from reservations_only_advance [OF ledger_step.retire [of sample_claimed sample_ledger "sample_tx 100" 1
        sample_request True], of r] r
  show ?thesis by (simp add: active_def)
qed

theorem renewal_extends_deadline_witness:
  "\<exists>receipt st'. check sample_ledger (sample_tx 30000000) 1 sample_request True None sample_claimed = (Inr receipt, st')
     \<and> rc_deadline receipt = 90000010"
proof -
  let ?c = "check sample_ledger (sample_tx 30000000) 1 sample_request True None sample_claimed"
  have "\<not> isl (fst ?c)" by code_simp
  then obtain receipt st' where c: "?c = (Inr receipt, st')" by (metis prod.collapse sum.collapse(2))
  have "distinct (map v_id (reservations sample_claimed))" by code_simp
  from renewal_extends_deadline [OF c this] c show ?thesis by (auto simp: sample_tx_def)
qed

lemma sample_fence:
  obtains st' where "fence (sample_tx 200) 1 1 sample_claimed = (Inr 2, st')"
proof -
  have "fst (fence (sample_tx 200) 1 1 sample_claimed) = Inr 2" by code_simp
  then show ?thesis using that by (metis prod.collapse)
qed

theorem fenced_instance_is_stopped_witness:
  "\<exists>st'. fence (sample_tx 200) 1 1 sample_claimed = (Inr 2, st')
     \<and> isl (fst (claim sample_ledger (sample_tx 300) 1 sample_request True None st'))"
proof -
  obtain st' where f: "fence (sample_tx 200) 1 1 sample_claimed = (Inr 2, st')" by (rule sample_fence)
  have "distinct (map i_id (instances sample_claimed))" by code_simp
  from fenced_instance_is_stopped [OF f this] f show ?thesis by blast
qed

theorem reconcile_releases_instance_witness:
  "\<exists>st'. reconcile sample_ledger (sample_tx 400) 1 2 True (snd (fence (sample_tx 200) 1 1 sample_claimed)) = (Inr 1, st')
     \<and> (\<nexists>r. r \<in> set (reservations st') \<and> v_instance_id r = 1 \<and> active r)"
proof -
  let ?r = "reconcile sample_ledger (sample_tx 400) 1 2 True (snd (fence (sample_tx 200) 1 1 sample_claimed))"
  have "fst ?r = Inr 1" by code_simp
  then obtain st' where r: "?r = (Inr 1, st')" by (metis prod.collapse)
  from reconcile_releases_instance [OF r] r show ?thesis by blast
qed

theorem fingerprint_roundtrip_witness:
  "Request_decode sample_ledger 3 ''fp'' =
     Inr (sample_request\<lparr>q_actor := (q_actor sample_request)\<lparr>a_binding := None\<rparr>\<rparr>)"
proof -
  have "l_from_str sample_ledger s = Some f" if "l_to_string sample_ledger f = Some s" for f s
    using that by (auto simp: sample_ledger_def split: if_splits)
  moreover have "Request_encode sample_ledger sample_request = Inr ''fp''" by code_simp
  ultimately have "Request_decode sample_ledger (q_id sample_request) ''fp'' =
      Inr (sample_request\<lparr>q_actor := (q_actor sample_request)\<lparr>a_binding := None\<rparr>\<rparr>)"
    by (rule fingerprint_roundtrip [THEN conjunct1])
  then show ?thesis by (simp add: sample_request_def)
qed

end
