(* ===== verification/Admission_Owner.thy ===== *)
theory Admission_Owner
  imports Admission_Props
begin

text \<open>
  services/playback_admission/owner: the part of the process that owns the streams it has admitted.
  Every admitted request has an entry behind a lock (the gate); commands, the monitor and the
  streams themselves are tasks that run concurrently and share entries by reference, so entries
  live in a heap and the gate maps request identifiers to places in it. A task is an entry with a
  stage, and each step of a task is what it does up to its next database call or between the
  accesses to shared flags that other tasks can observe. A lock poisoned by a panic is not
  modelled. The raw SQL wrappers of sql.rs are left out.
\<close>

type_synonym instant = int

definition REGULAR_OPERATIONS :: nat where
  "REGULAR_OPERATIONS = 7"

record Entry =
  en_request :: Request
  en_binding :: "Binding option"
  en_cancelled :: bool
  en_pending :: bool
  en_attached :: bool
  en_checking :: bool
  en_deadline :: "instant option"
  en_completed :: bool

datatype stage =
    S_Claim Request "Binding option" bool
  | S_Claimed Request bool instant "AdmissionError + Receipt"
  | S_Settled bool
  | S_Check Request bool
  | S_Checked bool instant "AdmissionError + Receipt"
  | S_Monitor
  | S_Monitored bool
  | S_Retire
  | S_Retired
  | S_Release
  | S_Remove
  | S_Monitor_End
  | S_Running
  | S_Stopping
  | S_Failing
  | S_Complete
  | S_Completed
  | S_Finish bool

record owner =
  o_instance :: uuid
  o_closed :: bool
  o_gate :: "(uuid \<times> nat) list"
  o_heap :: "Entry list"
  o_permits :: nat
  o_maintenance :: nat
  o_lost :: bool
  o_failed :: bool
  o_scan :: u64
  o_snapshot :: "nat list"
  o_jobs :: "(nat \<times> stage) list"
  o_store :: store

definition AdmissionOwner_create :: "uuid \<Rightarrow> store \<Rightarrow> owner" where
  "AdmissionOwner_create inst st =
     \<lparr>o_instance = inst, o_closed = False, o_gate = [], o_heap = [], o_permits = REGULAR_OPERATIONS,
      o_maintenance = 1, o_lost = False, o_failed = False, o_scan = 0, o_snapshot = [], o_jobs = [],
      o_store = st\<rparr>"

definition new_entry :: "Request \<Rightarrow> Binding option \<Rightarrow> Entry" where
  "new_entry request binding =
     \<lparr>en_request = request, en_binding = binding, en_cancelled = False, en_pending = True,
      en_attached = False, en_checking = False, en_deadline = None, en_completed = False\<rparr>"

definition set_entry :: "nat \<Rightarrow> (Entry \<Rightarrow> Entry) \<Rightarrow> owner \<Rightarrow> owner" where
  "set_entry n f w = w\<lparr>o_heap := (o_heap w)[n := f (o_heap w ! n)]\<rparr>"

definition cancel :: "nat \<Rightarrow> owner \<Rightarrow> owner" where
  "cancel n = set_entry n (\<lambda>e. e\<lparr>en_cancelled := True\<rparr>)"

definition remove :: "uuid \<Rightarrow> owner \<Rightarrow> owner" where
  "remove rid w = w\<lparr>o_gate := filter (\<lambda>(i, _). i \<noteq> rid) (o_gate w)\<rparr>"

definition entries :: "owner \<Rightarrow> nat list" where
  "entries w = map snd (o_gate w)"

definition next_stage :: "nat \<Rightarrow> stage \<Rightarrow> (nat \<times> stage) list \<Rightarrow> owner \<Rightarrow> owner" where
  "next_stage n s js w = w\<lparr>o_jobs := js @ remove1 (n, s) (o_jobs w)\<rparr>"

definition fail :: "owner \<Rightarrow> owner" where
  "fail w = w\<lparr>o_failed := True\<rparr>"

definition release_permit :: "owner \<Rightarrow> owner" where
  "release_permit w = w\<lparr>o_permits := Suc (o_permits w)\<rparr>"

section \<open>Commands\<close>

definition enqueue ::
  "ledger_env \<Rightarrow> Request \<Rightarrow> Binding option \<Rightarrow> owner \<Rightarrow> (AdmissionError + unit) \<times> owner" where
  "enqueue env request binding w =
     (case Request_encode env request of
        Inl e \<Rightarrow> (Inl e, w)
      | Inr fingerprint \<Rightarrow>
          if o_permits w = 0 then (Inl E_Capacity, w)
          else if o_closed w \<or> o_failed w \<or> o_lost w then (Inl E_Closed, w)
          else case map_of (o_gate w) (q_id request) of
              Some n \<Rightarrow>
                (case Request_encode env (en_request (o_heap w ! n)) of
                   Inl e \<Rightarrow> (Inl e, w)
                 | Inr held \<Rightarrow>
                     if held \<noteq> fingerprint \<or> en_binding (o_heap w ! n) \<noteq> binding then (Inl E_Conflict, w)
                     else if en_pending (o_heap w ! n) then (Inl E_Pending, w)
                     else (Inr (), w\<lparr>o_permits := o_permits w - 1,
                            o_jobs := (n, S_Claim request binding False) # o_jobs w\<rparr>))
            | None \<Rightarrow>
                if length (o_gate w) \<ge> 128 then (Inl E_Capacity, w)
                else (Inr (), w\<lparr>o_permits := o_permits w - 1,
                       o_heap := o_heap w @ [new_entry request binding],
                       o_gate := insort_key fst (q_id request, length (o_heap w)) (o_gate w),
                       o_jobs := (length (o_heap w), S_Claim request binding True) # o_jobs w\<rparr>))"

definition claim_run ::
  "ledger_env \<Rightarrow> tx \<Rightarrow> instant \<Rightarrow> nat \<Rightarrow> Request \<Rightarrow> Binding option \<Rightarrow> bool \<Rightarrow> owner \<Rightarrow> owner" where
  "claim_run env t began n request binding inserted w =
     (let (r, st) = claim env t (o_instance w) request inserted binding (o_store w)
      in next_stage n (S_Claim request binding inserted) [(n, S_Claimed request inserted began r)]
           (w\<lparr>o_store := st\<rparr>))"

definition deadline_after :: "instant \<Rightarrow> Receipt \<Rightarrow> instant" where
  "deadline_after began receipt = began + max 0 (rc_deadline receipt - rc_observed_at receipt)"

definition claim_settle ::
  "nat \<Rightarrow> Request \<Rightarrow> bool \<Rightarrow> instant \<Rightarrow> AdmissionError + Receipt \<Rightarrow> owner \<Rightarrow> owner" where
  "claim_settle n request inserted began r w =
     (let settled = (n, S_Settled inserted);
          done = next_stage n (S_Claimed request inserted began r) [settled] in
      if \<not> inserted then done w
      else case r of
          Inr receipt \<Rightarrow>
            if rc_fresh receipt \<and> rc_state receipt = Held then
              (let w1 = set_entry n (\<lambda>e. e\<lparr>en_deadline := Some (deadline_after began receipt)\<rparr>) w in
               if \<not> o_closed w1 \<and> \<not> en_cancelled (o_heap w1 ! n)
               then next_stage n (S_Claimed request inserted began r) [settled, (n, S_Running)]
                      (set_entry n (\<lambda>e. e\<lparr>en_attached := True\<rparr>) w1)
               else done (cancel n w1))
            else done (remove (q_id request) w)
        | Inl e \<Rightarrow> if e = E_Indeterminate then done (cancel n w) else done (remove (q_id request) w))"

definition claim_done :: "nat \<Rightarrow> bool \<Rightarrow> owner \<Rightarrow> owner" where
  "claim_done n inserted w =
     release_permit (next_stage n (S_Settled inserted) []
       (if inserted then set_entry n (\<lambda>e. e\<lparr>en_pending := False\<rparr>) w else w))"

definition queue_check ::
  "ledger_env \<Rightarrow> Request \<Rightarrow> bool \<Rightarrow> owner \<Rightarrow> (AdmissionError + unit) \<times> owner" where
  "queue_check env request renew w =
     (if o_permits w = 0 then (Inl E_Capacity, w)
      else if o_closed w \<or> o_failed w then (Inl E_Closed, w)
      else case map_of (o_gate w) (q_id request) of
          None \<Rightarrow> (Inl E_Retired, w)
        | Some n \<Rightarrow>
            (case Request_encode env (en_request (o_heap w ! n)) of
               Inl e \<Rightarrow> (Inl e, w)
             | Inr held \<Rightarrow>
                 (case Request_encode env request of
                    Inl e \<Rightarrow> (Inl e, w)
                  | Inr fingerprint \<Rightarrow>
                      if held \<noteq> fingerprint then (Inl E_Conflict, w)
                      else if en_pending (o_heap w ! n) \<or> en_cancelled (o_heap w ! n) then (Inl E_Retired, w)
                      else (Inr (), w\<lparr>o_permits := o_permits w - 1,
                             o_jobs := (n, S_Check request renew) # o_jobs w\<rparr>))))"

definition check_run ::
  "ledger_env \<Rightarrow> tx \<Rightarrow> instant \<Rightarrow> nat \<Rightarrow> Request \<Rightarrow> bool \<Rightarrow> owner \<Rightarrow> owner" where
  "check_run env t began n request renew w =
     (let (r, st) = check env t (o_instance w) request renew (en_binding (o_heap w ! n)) (o_store w)
      in next_stage n (S_Check request renew) [(n, S_Checked renew began r)] (w\<lparr>o_store := st\<rparr>))"

definition check_done :: "nat \<Rightarrow> bool \<Rightarrow> instant \<Rightarrow> AdmissionError + Receipt \<Rightarrow> owner \<Rightarrow> owner" where
  "check_done n renew began r w =
     release_permit (next_stage n (S_Checked renew began r) []
       (case r of
          Inr receipt \<Rightarrow>
            if renew then set_entry n (\<lambda>e. e\<lparr>en_deadline := Some (deadline_after began receipt)\<rparr>) w else w
        | Inl _ \<Rightarrow> cancel n w))"

definition stop :: "uuid \<Rightarrow> owner \<Rightarrow> owner" where
  "stop rid w = (case map_of (o_gate w) rid of Some n \<Rightarrow> cancel n w | None \<Rightarrow> w)"

definition close :: "owner \<Rightarrow> owner" where
  "close w = (foldr cancel (entries w) w)\<lparr>o_closed := True\<rparr>"

section \<open>The monitor\<close>

definition monitor :: "owner \<Rightarrow> owner" where
  "monitor w =
     (let es = entries w in
      if es = [] then w
      else w\<lparr>o_scan := o_scan w + word_of_nat REGULAR_OPERATIONS,
             o_snapshot := rotate (unat (o_scan w) mod length es) es\<rparr>)"

definition monitor_entry :: "owner \<Rightarrow> owner" where
  "monitor_entry w =
     (case o_snapshot w of
        [] \<Rightarrow> w
      | n # rest \<Rightarrow>
          if en_pending (o_heap w ! n) \<or> en_checking (o_heap w ! n) then w\<lparr>o_snapshot := rest\<rparr>
          else if o_permits w = 0 then w\<lparr>o_snapshot := rest\<rparr>
          else (let w1 = set_entry n (\<lambda>e. e\<lparr>en_checking := True\<rparr>) w in
            if o_closed w then w1\<lparr>o_snapshot := []\<rparr>
            else w1\<lparr>o_snapshot := rest, o_permits := o_permits w - 1,
                    o_jobs := (n, S_Monitor) # o_jobs w\<rparr>))"

definition monitor_check :: "ledger_env \<Rightarrow> tx \<Rightarrow> nat \<Rightarrow> owner \<Rightarrow> owner" where
  "monitor_check env t n w =
     (let e = o_heap w ! n in
      if en_cancelled e then next_stage n S_Monitor [(n, S_Monitored False)] w
      else let (r, st) = check env t (o_instance w) (en_request e) False (en_binding e) (o_store w)
           in next_stage n S_Monitor [(n, S_Monitored (isl r))] (w\<lparr>o_store := st\<rparr>))"

definition monitor_decide :: "nat \<Rightarrow> bool \<Rightarrow> owner \<Rightarrow> owner" where
  "monitor_decide n refused w =
     (let w1 = (if refused then cancel n w else w) in
      next_stage n (S_Monitored refused)
        [(n, if en_cancelled (o_heap w1 ! n) then S_Retire else S_Monitor_End)] w1)"

definition monitor_retire :: "ledger_env \<Rightarrow> tx \<Rightarrow> nat \<Rightarrow> owner \<Rightarrow> owner" where
  "monitor_retire env t n w =
     (let (r, st) = retire env t (o_instance w) (en_request (o_heap w ! n)) False (o_store w);
          w1 = next_stage n S_Retire [(n, S_Retired)] (w\<lparr>o_store := st\<rparr>)
      in if isl r then fail w1 else w1)"

definition monitor_retired :: "nat \<Rightarrow> owner \<Rightarrow> owner" where
  "monitor_retired n w =
     (let e = o_heap w ! n in
      next_stage n S_Retired
        [(n, if \<not> en_attached e \<or> en_completed e then S_Release else S_Monitor_End)] w)"

definition monitor_release :: "ledger_env \<Rightarrow> tx \<Rightarrow> nat \<Rightarrow> owner \<Rightarrow> owner" where
  "monitor_release env t n w =
     (let (r, st) = retire env t (o_instance w) (en_request (o_heap w ! n)) True (o_store w)
      in next_stage n S_Release [(n, if isl r then S_Monitor_End else S_Remove)] (w\<lparr>o_store := st\<rparr>))"

definition monitor_remove :: "nat \<Rightarrow> owner \<Rightarrow> owner" where
  "monitor_remove n w =
     next_stage n S_Remove [(n, S_Monitor_End)] (remove (q_id (en_request (o_heap w ! n))) w)"

definition monitor_end :: "nat \<Rightarrow> owner \<Rightarrow> owner" where
  "monitor_end n w =
     release_permit (next_stage n S_Monitor_End [] (set_entry n (\<lambda>e. e\<lparr>en_checking := False\<rparr>) w))"

section \<open>A running stream\<close>

text \<open>
  \<open>resource\<close> waits for the stream's task, its cancellation or its deadline. The steps that
  call the ledger acquire a permit first, so they wait while there is none.
\<close>

definition resource_expired :: "instant \<Rightarrow> nat \<Rightarrow> owner \<Rightarrow> owner" where
  "resource_expired now n w =
     (case en_deadline (o_heap w ! n) of
        Some d \<Rightarrow> if d \<le> now then cancel n w else w
      | None \<Rightarrow> cancel n w)"

definition resource_cancelled :: "ledger_env \<Rightarrow> tx \<Rightarrow> nat \<Rightarrow> owner \<Rightarrow> owner" where
  "resource_cancelled env t n w =
     (if en_cancelled (o_heap w ! n) \<and> 0 < o_permits w
      then let (r, st) = retire env t (o_instance w) (en_request (o_heap w ! n)) False (o_store w)
           in next_stage n S_Running [(n, S_Stopping)] (w\<lparr>o_store := st\<rparr>)
      else w)"

definition resource_returned :: "nat \<Rightarrow> stage \<Rightarrow> bool \<Rightarrow> owner \<Rightarrow> owner" where
  "resource_returned n s ok w =
     next_stage n s [(n, if ok then S_Complete else S_Failing)] (cancel n w)"

definition resource_failing :: "ledger_env \<Rightarrow> tx \<Rightarrow> nat \<Rightarrow> owner \<Rightarrow> owner" where
  "resource_failing env t n w =
     (if 0 < o_permits w
      then let (r, st) = retire env t (o_instance w) (en_request (o_heap w ! n)) False (o_store w)
           in fail (next_stage n S_Failing [] (w\<lparr>o_store := st\<rparr>))
      else w)"

definition resource_complete :: "nat \<Rightarrow> owner \<Rightarrow> owner" where
  "resource_complete n w =
     (if 0 < o_permits w
      then next_stage n S_Complete [(n, S_Completed)]
             ((set_entry n (\<lambda>e. e\<lparr>en_completed := (en_binding e \<noteq> None)\<rparr>) w)\<lparr>o_permits := o_permits w - 1\<rparr>)
      else w)"

definition resource_release :: "ledger_env \<Rightarrow> tx \<Rightarrow> nat \<Rightarrow> owner \<Rightarrow> owner" where
  "resource_release env t n w =
     (let (r, st) = retire env t (o_instance w) (en_request (o_heap w ! n)) True (o_store w)
      in next_stage n S_Completed [(n, S_Finish (isl r))] (w\<lparr>o_store := st\<rparr>))"

definition resource_finish :: "nat \<Rightarrow> bool \<Rightarrow> owner \<Rightarrow> owner" where
  "resource_finish n refused w =
     release_permit (next_stage n (S_Finish refused) []
       (if refused then fail w else remove (q_id (en_request (o_heap w ! n))) w))"

section \<open>Maintenance and shutdown\<close>

definition enqueue_maintenance :: "owner \<Rightarrow> (AdmissionError + unit) \<times> owner" where
  "enqueue_maintenance w =
     (if o_maintenance w = 0 then (Inl E_Pending, w)
      else if o_closed w \<or> o_lost w then (Inl E_Closed, w)
      else (Inr (), w\<lparr>o_maintenance := o_maintenance w - 1\<rparr>))"

text \<open>The maintenance task prunes; when it is dropped before it is done, maintenance is lost.\<close>

definition maintenance_run :: "tx \<Rightarrow> nat \<Rightarrow> uuid set \<Rightarrow> uuid set \<Rightarrow> owner \<Rightarrow> owner" where
  "maintenance_run t operations starts protected w =
     (if o_maintenance w = 0
      then w\<lparr>o_store := snd (prune t (o_instance w) operations starts protected (o_store w)), o_maintenance := 1\<rparr>
      else w)"

definition maintenance_dropped :: "owner \<Rightarrow> owner" where
  "maintenance_dropped w = (if o_maintenance w = 0 then w\<lparr>o_lost := True, o_maintenance := 1\<rparr> else w)"

definition drain_entry :: "ledger_env \<Rightarrow> tx \<Rightarrow> nat \<Rightarrow> owner \<Rightarrow> owner" where
  "drain_entry env t n w =
     (let e = o_heap w ! n in
      if \<not> en_attached e \<or> en_completed e
      then let (r, st) = retire env t (o_instance w) (en_request e) True (o_store w);
               w1 = w\<lparr>o_store := st\<rparr>
           in if isl r then fail w1 else remove (q_id (en_request e)) w1
      else w)"

text \<open>
  \<open>drain\<close> after the tasks have ended: an attempt on every entry, with the environment of its
  database call, then the verdict.
\<close>

fun drain_loop :: "(nat \<Rightarrow> ledger_env \<times> tx) \<Rightarrow> nat list \<Rightarrow> owner \<Rightarrow> owner" where
  "drain_loop envs [] w = w"
| "drain_loop envs (n # ns) w = drain_loop envs ns (drain_entry (fst (envs n)) (snd (envs n)) n w)"

definition drain :: "(nat \<Rightarrow> ledger_env \<times> tx) \<Rightarrow> owner \<Rightarrow> (AdmissionError + unit) \<times> owner" where
  "drain envs w =
     (let w1 = drain_loop envs (entries w) w in
      (if o_failed w1 \<or> o_lost w1 \<or> entries w1 \<noteq> [] then Inl E_Cleanup else Inr (), w1))"

end
