(* ===== verification/Owner_Props.thy ===== *)
theory Owner_Props
  imports Admission_Owner
begin

text \<open>
  The owner of streams as a transition system over the ledger: every step of its tasks, the calls
  of clients and of shutdown, and the transactions of other instances and of the operator on the
  same store. \<open>owner_step False\<close> leaves out one thing: that a request identifier whose entry has
  gone is enqueued again.
\<close>

section \<open>Transactions of others\<close>

inductive foreign_step :: "uuid \<Rightarrow> store \<Rightarrow> store \<Rightarrow> bool" for inst :: uuid where
  claim: "other \<noteq> inst \<Longrightarrow> foreign_step inst st (snd (claim env t other request allow binding st))"
| check: "other \<noteq> inst \<Longrightarrow> foreign_step inst st (snd (check env t other request renew binding st))"
| retire: "other \<noteq> inst \<Longrightarrow> foreign_step inst st (snd (retire env t other request release st))"
| prune: "foreign_step inst st (snd (prune t other operations starts protected st))"
| fence: "foreign_step inst st (snd (fence t other expected st))"
| reconcile: "other \<noteq> inst \<Longrightarrow> foreign_step inst st (snd (reconcile env t other revision gone st))"
| register: "foreign_step inst st (snd (register t other st))"

lemma foreign_ledger: "foreign_step inst st st' \<Longrightarrow> ledger_step st st'"
  by (induction rule: foreign_step.induct) (rule ledger_step.intros)+

section \<open>The steps\<close>

inductive owner_step :: "bool \<Rightarrow> owner \<Rightarrow> owner \<Rightarrow> bool" for retry :: bool where
  enqueue: "retry \<or> q_id request \<in> fst ` set (o_gate w) \<or> q_id request \<notin> (q_id \<circ> en_request) ` set (o_heap w)
    \<Longrightarrow> owner_step retry w (snd (enqueue env request binding w))"
| claim_run: "(n, S_Claim request binding inserted) \<in> set (o_jobs w)
    \<Longrightarrow> owner_step retry w (claim_run env t began n request binding inserted w)"
| claim_settle: "(n, S_Claimed request inserted began r) \<in> set (o_jobs w)
    \<Longrightarrow> owner_step retry w (claim_settle n request inserted began r w)"
| claim_done: "(n, S_Settled inserted) \<in> set (o_jobs w) \<Longrightarrow> owner_step retry w (claim_done n inserted w)"
| queue_check: "owner_step retry w (snd (queue_check env request renew w))"
| check_run: "(n, S_Check request renew) \<in> set (o_jobs w)
    \<Longrightarrow> owner_step retry w (check_run env t began n request renew w)"
| check_done: "(n, S_Checked renew began r) \<in> set (o_jobs w)
    \<Longrightarrow> owner_step retry w (check_done n renew began r w)"
| stop: "owner_step retry w (stop rid w)"
| close: "owner_step retry w (close w)"
| monitor: "o_snapshot w = [] \<Longrightarrow> owner_step retry w (monitor w)"
| monitor_entry: "owner_step retry w (monitor_entry w)"
| monitor_check: "(n, S_Monitor) \<in> set (o_jobs w) \<Longrightarrow> owner_step retry w (monitor_check env t n w)"
| monitor_decide: "(n, S_Monitored refused) \<in> set (o_jobs w)
    \<Longrightarrow> owner_step retry w (monitor_decide n refused w)"
| monitor_retire: "(n, S_Retire) \<in> set (o_jobs w) \<Longrightarrow> owner_step retry w (monitor_retire env t n w)"
| monitor_retired: "(n, S_Retired) \<in> set (o_jobs w) \<Longrightarrow> owner_step retry w (monitor_retired n w)"
| monitor_release: "(n, S_Release) \<in> set (o_jobs w) \<Longrightarrow> owner_step retry w (monitor_release env t n w)"
| monitor_remove: "(n, S_Remove) \<in> set (o_jobs w) \<Longrightarrow> owner_step retry w (monitor_remove n w)"
| monitor_end: "(n, S_Monitor_End) \<in> set (o_jobs w) \<Longrightarrow> owner_step retry w (monitor_end n w)"
| resource_expired: "(n, S_Running) \<in> set (o_jobs w) \<Longrightarrow> owner_step retry w (resource_expired now n w)"
| resource_cancelled: "(n, S_Running) \<in> set (o_jobs w)
    \<Longrightarrow> owner_step retry w (resource_cancelled env t n w)"
| resource_returned: "(n, s) \<in> set (o_jobs w) \<Longrightarrow> s \<in> {S_Running, S_Stopping}
    \<Longrightarrow> owner_step retry w (resource_returned n s ok w)"
| resource_timeout: "(n, S_Stopping) \<in> set (o_jobs w) \<Longrightarrow> owner_step retry w (fail w)"
| resource_failing: "(n, S_Failing) \<in> set (o_jobs w) \<Longrightarrow> owner_step retry w (resource_failing env t n w)"
| resource_complete: "(n, S_Complete) \<in> set (o_jobs w) \<Longrightarrow> owner_step retry w (resource_complete n w)"
| resource_release: "(n, S_Completed) \<in> set (o_jobs w) \<Longrightarrow> owner_step retry w (resource_release env t n w)"
| resource_finish: "(n, S_Finish refused) \<in> set (o_jobs w)
    \<Longrightarrow> owner_step retry w (resource_finish n refused w)"
| enqueue_maintenance: "owner_step retry w (snd (enqueue_maintenance w))"
| maintenance_run: "owner_step retry w (maintenance_run t operations starts protected w)"
| maintenance_dropped: "owner_step retry w (maintenance_dropped w)"
| drain_entry: "o_jobs w = [] \<Longrightarrow> o_closed w \<Longrightarrow> n \<in> set (entries w)
    \<Longrightarrow> owner_step retry w (drain_entry env t n w)"
| foreign: "foreign_step (o_instance w) (o_store w) st \<Longrightarrow> owner_step retry w (w\<lparr>o_store := st\<rparr>)"

section \<open>Who can release a reservation\<close>

definition holds :: "uuid \<Rightarrow> uuid \<Rightarrow> uuid \<Rightarrow> store \<Rightarrow> bool" where
  "holds inst rid uid st \<longleftrightarrow>
     (\<exists>r \<in> set (reservations st). v_id r = rid \<and> v_instance_id r = inst \<and> v_household_id r = uid \<and> active r)"

lemma holds_update_rows:
  assumes "holds inst rid uid st" and "\<And>r. p r \<Longrightarrow> row_le r (f r)"
    and "\<And>r. p r \<Longrightarrow> v_id r = rid \<Longrightarrow> v_instance_id r = inst \<Longrightarrow> active r \<Longrightarrow> active (f r)"
  shows "holds inst rid uid (update_rows p f st)"
proof -
  from assms(1) obtain r where r: "r \<in> set (reservations st)" "v_id r = rid" "v_instance_id r = inst"
      "v_household_id r = uid" "active r"
    unfolding holds_def by blast
  let ?r = "if p r then f r else r"
  have "?r \<in> set (reservations (update_rows p f st))" using r(1) by (simp add: update_rows_def)
  moreover have "v_id ?r = rid \<and> v_instance_id ?r = inst \<and> v_household_id ?r = uid"
    using r(2,3,4) assms(2) [of r] by (simp add: row_le_def)
  moreover have "active ?r" using r assms(3) by simp
  ultimately show ?thesis unfolding holds_def by blast
qed

lemma holds_rows: "reservations st' = reservations st \<Longrightarrow> holds inst rid uid st' = holds inst rid uid st"
  by (simp add: holds_def)

lemma holds_transaction:
  assumes "holds inst rid uid st"
    and "\<And>v st'. action st = (Inr v, st') \<Longrightarrow> holds inst rid uid st'"
  shows "holds inst rid uid (snd (transaction up c action st))"
  using transaction_store [of up c action st] assms by auto

lemma holds_retire_row: "holds inst rid uid st \<Longrightarrow> holds inst rid uid (retire_row i st)"
  unfolding retire_row_def by (erule holds_update_rows) (simp_all add: row_le_retiring active_def)

lemma holds_check:
  assumes "holds inst rid uid st"
  shows "holds inst rid uid (snd (check env t other request renew binding st))"
  unfolding check_def
proof (rule holds_transaction [OF assms])
  fix v st'
  assume c: "check_on env other (x_now t) (x_now2 t) request renew binding st = (Inr v, st')"
  show "holds inst rid uid st'"
  proof (cases renew)
    case False
    with c have "st' = st" by (auto simp: check_on_def split: sum.splits option.splits if_splits)
    with assms show ?thesis by simp
  next
    case True
    obtain r st1 where r: "renew_row (q_id request) (x_now2 t) st = (r, st1)" by fastforce
    with True c have "st' = st1" by (auto simp: check_on_def split: sum.splits option.splits if_splits)
    moreover have "st1 = update_rows (\<lambda>r. v_id r = q_id request \<and> v_deadline r > x_now2 t \<and> v_state r = ''held'')
        (\<lambda>r. r\<lparr>v_deadline := x_now2 t + 60000000\<rparr>) st"
      using r by (auto simp: renew_row_def Let_def split: if_splits)
    ultimately show ?thesis using assms by (auto intro!: holds_update_rows row_le_deadline simp: active_def)
  qed
qed

lemma holds_append: "reservations st' = reservations st @ [row] \<Longrightarrow> holds inst rid uid st \<Longrightarrow> holds inst rid uid st'"
  by (auto simp: holds_def)

lemma holds_claim:
  assumes "holds inst rid uid st"
  shows "holds inst rid uid (snd (claim env t other request allow binding st))"
proof (cases rule: claim_cases [of env t other request allow binding st])
  case (admitted fingerprint v)
  from claim_new_contract [OF admitted(3)] obtain row where
    "reservations (snd (claim env t other request allow binding st)) = reservations st @ [row]" by blast
  then show ?thesis using assms by (rule holds_append)
qed (simp_all add: assms holds_retire_row)

lemma holds_prune:
  assumes "holds inst rid uid st"
  shows "holds inst rid uid (snd (prune t other operations starts protected st))"
  unfolding prune_def
proof (rule holds_transaction [OF assms])
  fix v st'
  assume p: "prune_action other (x_now t) operations starts protected st = (Inr v, st')"
  have "r \<in> set (reservations st')" if "r \<in> set (reservations st)" "active r" for r
    using prune_keeps_active [OF p that] .
  with assms show "holds inst rid uid st'" unfolding holds_def by blast
qed

lemma holds_fence:
  assumes "holds inst rid uid st"
  shows "holds inst rid uid (snd (fence t other expected st))"
  unfolding fence_def
proof (rule holds_transaction [OF assms])
  fix v st'
  let ?p = "\<lambda>r. v_instance_id r = other \<and> v_state r = ''held''"
  let ?f = "\<lambda>r :: Row. r\<lparr>v_state := ''retiring''\<rparr>"
  assume "fence_action other expected st = (Inr v, st')"
  then have s: "reservations st' = reservations (update_rows ?p ?f st)"
    by (auto simp: fence_action_def Let_def update_rows_def split: option.splits)
  moreover have "holds inst rid uid (update_rows ?p ?f st)"
    using assms by (rule holds_update_rows) (simp_all add: row_le_retiring active_def)
  ultimately show "holds inst rid uid st'" by (simp only: holds_rows [OF s])
qed

lemma holds_reconcile:
  assumes "holds inst rid uid st" and "other \<noteq> inst"
  shows "holds inst rid uid (snd (reconcile env t other revision gone st))"
proof (cases gone)
  case True
  have "holds inst rid uid (snd (transaction (x_up t) (x_commit t) (reconcile_action env (x_now t) other revision) st))"
  proof (rule holds_transaction [OF assms(1)])
    fix v st'
    let ?p = "\<lambda>r. v_instance_id r = other \<and> active r"
    assume "reconcile_action env (x_now t) other revision st = (Inr v, st')"
    then have s: "reservations st' = reservations (update_rows ?p (release_row env (x_now t)) st)"
      by (auto simp: reconcile_action_def Let_def update_rows_def end_commands_def complete_outputs_def
          split: option.splits if_splits)
    moreover have "holds inst rid uid (update_rows ?p (release_row env (x_now t)) st)"
      using assms(1) by (rule holds_update_rows) (simp_all add: row_le_release assms(2) [symmetric])
    ultimately show "holds inst rid uid st'" by (simp only: holds_rows [OF s])
  qed
  with True show ?thesis by (simp add: reconcile_def)
qed (simp add: reconcile_def assms)

lemma holds_register: "holds inst rid uid st \<Longrightarrow> holds inst rid uid (snd (register t other st))"
proof -
  assume h: "holds inst rid uid st"
  show ?thesis unfolding register_def by (rule holds_transaction [OF h]) (use h in \<open>auto simp: holds_def split: if_splits\<close>)
qed

lemma holds_retire:
  assumes "holds inst rid uid st" and "distinct (map v_id (reservations st))"
    and "release \<Longrightarrow> other = inst \<Longrightarrow> q_id request \<noteq> rid"
  shows "holds inst rid uid (snd (retire env t other request release st))"
proof (cases "Request_encode env request")
  case (Inr fp)
  have "holds inst rid uid (snd (transaction (x_up t) (x_commit t)
      (retire_action env other (x_now t) request fp release) st))"
  proof (rule holds_transaction [OF assms(1)])
    fix v st'
    assume a: "retire_action env other (x_now t) request fp release st = (Inr v, st')"
    let ?u = "update_rows (\<lambda>r. v_id r = q_id request) (release_row env (x_now t))
      (end_commands {q_id request} (complete_outputs {q_id request} st))"
    from a consider "st' = st \<or> st' = retire_row (q_id request) st"
      | row where "release" "find_row (q_id request) st = Some row" "v_instance_id row = other" "st' = ?u"
      by (auto simp: retire_action_def Let_def split: sum.splits option.splits if_splits)
    then show "holds inst rid uid st'"
    proof cases
      case 1
      with assms(1) holds_retire_row show ?thesis by auto
    next
      case 2
      then have row: "row \<in> set (reservations st)" "v_id row = q_id request"
        by (auto simp: find_row_def dest: find_Some_set)
      have "False" if "r \<in> set (reservations st)" "v_id r = q_id request" "v_id r = rid" "v_instance_id r = inst" for r
      proof -
        have "r = row" using inj_onD [of v_id "set (reservations st)" r row] that row assms(2) by (simp add: distinct_map)
        with that 2 assms(3) show False by auto
      qed
      then obtain r where r: "r \<in> set (reservations st)" "v_id r = rid" "v_instance_id r = inst"
          "v_household_id r = uid" "active r" "v_id r \<noteq> q_id request"
        using assms(1) unfolding holds_def by blast
      have "reservations ?u = map (\<lambda>r. if v_id r = q_id request then release_row env (x_now t) r else r) (reservations st)"
        by (simp add: update_rows_def)
      then have "r \<in> set (reservations ?u)" using r(1,6) by (auto simp: image_iff intro: bexI [of _ r])
      with r show ?thesis unfolding holds_def 2(4) by blast
    qed
  qed
  with Inr show ?thesis by (simp add: retire_def)
qed (simp add: retire_def assms)

lemma holds_foreign:
  assumes "foreign_step inst st st'" "holds inst rid uid st" "distinct (map v_id (reservations st))"
  shows "holds inst rid uid st'"
  using assms
  by (cases rule: foreign_step.cases)
    (auto intro: holds_claim holds_check holds_retire holds_prune holds_fence holds_reconcile holds_register)

section \<open>The invariant\<close>

definition jobs_of :: "nat \<Rightarrow> owner \<Rightarrow> stage list" where
  "jobs_of n w = map snd (filter (\<lambda>j. fst j = n) (o_jobs w))"

fun claiming :: "stage \<Rightarrow> bool" where
  "claiming (S_Claim _ _ inserted) = inserted"
| "claiming (S_Claimed _ inserted _ _) = inserted"
| "claiming (S_Settled inserted) = inserted"
| "claiming _ = False"

definition running :: "stage \<Rightarrow> bool" where
  "running s \<longleftrightarrow> s = S_Running \<or> s = S_Stopping"

fun resourcing :: "stage \<Rightarrow> bool" where
  "resourcing S_Running = True"
| "resourcing S_Stopping = True"
| "resourcing S_Failing = True"
| "resourcing S_Complete = True"
| "resourcing S_Completed = True"
| "resourcing (S_Finish _) = True"
| "resourcing _ = False"

fun admitted :: "stage \<Rightarrow> bool" where
  "admitted S_Running = True"
| "admitted S_Stopping = True"
| "admitted (S_Claimed _ True _ (Inr receipt)) = rc_fresh receipt"
| "admitted _ = False"

text \<open>What a task in a stage knows of its entry.\<close>

fun stage_ok :: "Entry \<Rightarrow> stage \<Rightarrow> bool" where
  "stage_ok e (S_Claim r _ inserted) = (inserted \<longrightarrow> r = en_request e \<and> en_pending e \<and> \<not> en_attached e \<and> \<not> en_completed e)"
| "stage_ok e (S_Claimed r inserted _ _) = (inserted \<longrightarrow> r = en_request e \<and> en_pending e \<and> \<not> en_attached e \<and> \<not> en_completed e)"
| "stage_ok e (S_Settled inserted) = (inserted \<longrightarrow> en_pending e)"
| "stage_ok e (S_Check _ _) = True"
| "stage_ok e (S_Checked _ _ _) = True"
| "stage_ok e S_Running = (en_attached e \<and> \<not> en_completed e)"
| "stage_ok e S_Stopping = (en_attached e \<and> \<not> en_completed e)"
| "stage_ok e S_Failing = (en_attached e \<and> \<not> en_completed e)"
| "stage_ok e S_Complete = (en_attached e \<and> \<not> en_completed e)"
| "stage_ok e S_Completed = en_attached e"
| "stage_ok e (S_Finish _) = en_attached e"
| "stage_ok e S_Release = (\<not> en_pending e \<and> (\<not> en_attached e \<or> en_completed e))"
| "stage_ok e _ = (\<not> en_pending e)"

definition entry_holds :: "uuid \<Rightarrow> Entry \<Rightarrow> store \<Rightarrow> bool" where
  "entry_holds inst e = holds inst (q_id (en_request e)) (a_user (q_actor (en_request e)))"

definition local_inv :: "uuid \<Rightarrow> store \<Rightarrow> Entry \<Rightarrow> stage list \<Rightarrow> bool" where
  "local_inv inst st e ss \<longleftrightarrow>
     length (filter claiming ss) \<le> 1 \<and> length (filter resourcing ss) \<le> 1
     \<and> (\<forall>s \<in> set ss. stage_ok e s) \<and> ((\<exists>s \<in> set ss. admitted s) \<longrightarrow> entry_holds inst e st)"

definition owner_inv :: "owner \<Rightarrow> bool" where
  "owner_inv w \<longleftrightarrow>
     distinct (map (q_id \<circ> en_request) (o_heap w)) \<and> distinct (map v_id (reservations (o_store w)))
     \<and> fst ` set (o_jobs w) \<subseteq> {..<length (o_heap w)} \<and> set (o_snapshot w) \<subseteq> {..<length (o_heap w)}
     \<and> set (entries w) \<subseteq> {..<length (o_heap w)}
     \<and> (\<forall>n < length (o_heap w). local_inv (o_instance w) (o_store w) (o_heap w ! n) (jobs_of n w))"

lemma remove1_filter_length:
  "x \<in> set xs \<Longrightarrow> length (filter P (remove1 x xs)) = length (filter P xs) - (if P x then 1 else 0)"
  by (simp add: filter_remove1 length_remove1)

lemma others_excluded:
  assumes "length (filter P xs) \<le> 1" and "x \<in> set xs" and "P x" and "y \<in> set (remove1 x xs)"
  shows "\<not> P y"
proof -
  have "length (filter P (remove1 x xs)) = 0"
    using assms(1-3) by (simp add: remove1_filter_length)
  with assms(4) show ?thesis by (auto simp: filter_empty_conv)
qed

lemma jobs_of_next_stage:
  assumes "fst ` set js \<subseteq> {n}"
  shows "jobs_of m (next_stage n s js w) = (if m = n then map snd js @ remove1 s (jobs_of n w) else jobs_of m w)"
proof -
  have rem: "map snd (filter (\<lambda>j. fst j = m) (remove1 (n, s) xs)) =
      (if m = n then remove1 s (map snd (filter (\<lambda>j. fst j = n) xs)) else map snd (filter (\<lambda>j. fst j = m) xs))"
    for xs :: "(nat \<times> stage) list"
    by (induction xs) auto
  have new: "map snd (filter (\<lambda>j. fst j = m) js) = (if m = n then map snd js else [])"
    using assms by (induction js) auto
  show ?thesis by (simp add: jobs_of_def next_stage_def rem new)
qed

lemma jobs_of_mem: "(n, s) \<in> set (o_jobs w) \<longleftrightarrow> s \<in> set (jobs_of n w)"
  by (force simp: jobs_of_def)

text \<open>A step of one entry's tasks keeps the invariant when it keeps that entry's share of it.\<close>

lemma owner_inv_update:
  assumes inv: "owner_inv w" and n: "n < length (o_heap w)"
    and heap: "o_heap w' = (o_heap w)[n := e']" and req: "en_request e' = en_request (o_heap w ! n)"
    and jobs: "\<And>m. m \<noteq> n \<Longrightarrow> jobs_of m w' = jobs_of m w"
    and idx: "fst ` set (o_jobs w') \<subseteq> insert n (fst ` set (o_jobs w))"
    and snap: "set (o_snapshot w') \<subseteq> set (o_snapshot w) \<union> set (entries w)"
    and gate: "set (entries w') \<subseteq> set (entries w)" and inst: "o_instance w' = o_instance w"
    and dist: "distinct (map v_id (reservations (o_store w')))"
    and keep: "\<And>rid uid. rid \<noteq> q_id (en_request e') \<Longrightarrow> holds (o_instance w) rid uid (o_store w)
        \<Longrightarrow> holds (o_instance w) rid uid (o_store w')"
    and loc: "local_inv (o_instance w) (o_store w') e' (jobs_of n w')"
  shows "owner_inv w'"
proof -
  have ids: "distinct (map (q_id \<circ> en_request) (o_heap w))"
    and loc_old: "\<And>m. m < length (o_heap w) \<Longrightarrow> local_inv (o_instance w) (o_store w) (o_heap w ! m) (jobs_of m w)"
    using inv by (simp_all add: owner_inv_def)
  have same: "map (q_id \<circ> en_request) (o_heap w') = map (q_id \<circ> en_request) (o_heap w)"
    using n req by (intro nth_equalityI) (simp_all add: heap nth_list_update)
  have "local_inv (o_instance w') (o_store w') (o_heap w' ! m) (jobs_of m w')" if m: "m < length (o_heap w')" for m
  proof (cases "m = n")
    case True
    then show ?thesis using loc n by (simp add: heap inst)
  next
    case False
    have "q_id (en_request (o_heap w ! m)) \<noteq> q_id (en_request e')"
      using ids m n False heap req by (auto simp: distinct_conv_nth)
    then show ?thesis
      using loc_old [of m] m False jobs [OF False] keep
      by (simp add: local_inv_def heap inst entry_holds_def)
  qed
  moreover have old: "fst ` set (o_jobs w) \<subseteq> {..<length (o_heap w)}" "set (o_snapshot w) \<subseteq> {..<length (o_heap w)}"
    "set (entries w) \<subseteq> {..<length (o_heap w)}"
    using inv by (simp_all only: owner_inv_def)
  moreover have "fst ` set (o_jobs w') \<subseteq> {..<length (o_heap w)}"
    using idx old(1) n by (meson insert_subset lessThan_iff order_trans)
  moreover have "set (o_snapshot w') \<subseteq> {..<length (o_heap w)}" using snap old by (meson Un_least order_trans)
  moreover have "set (entries w') \<subseteq> {..<length (o_heap w)}" using gate old(3) by (rule order_trans)
  ultimately show ?thesis using ids dist unfolding owner_inv_def same by (simp add: heap)
qed

lemma owner_inv_stage:
  assumes inv: "owner_inv w" and s: "(n, s) \<in> set (o_jobs w)"
    and heap: "o_heap w' = (o_heap w)[n := e']" and req: "en_request e' = en_request (o_heap w ! n)"
    and jobs: "o_jobs w' = js @ remove1 (n, s) (o_jobs w)" and js: "fst ` set js \<subseteq> {n}"
    and snap: "o_snapshot w' = o_snapshot w" and gate: "set (entries w') \<subseteq> set (entries w)"
    and inst: "o_instance w' = o_instance w" and dist: "distinct (map v_id (reservations (o_store w')))"
    and keep: "\<And>rid uid. rid \<noteq> q_id (en_request e') \<Longrightarrow> holds (o_instance w) rid uid (o_store w)
        \<Longrightarrow> holds (o_instance w) rid uid (o_store w')"
    and loc: "local_inv (o_instance w) (o_store w) (o_heap w ! n) (jobs_of n w) \<Longrightarrow> s \<in> set (jobs_of n w)
        \<Longrightarrow> local_inv (o_instance w) (o_store w') e' (map snd js @ remove1 s (jobs_of n w))"
  shows "owner_inv w'"
proof -
  have n: "n < length (o_heap w)" using inv s by (force simp: owner_inv_def)
  have j: "jobs_of m w' = jobs_of m (next_stage n s js w)" for m
    by (simp add: jobs_of_def next_stage_def jobs)
  have "fst ` set (o_jobs w') \<subseteq> insert n (fst ` set (o_jobs w))"
  proof -
    have "set (o_jobs w') \<subseteq> set js \<union> set (o_jobs w)"
      unfolding jobs set_append using set_remove1_subset by (rule Un_mono [OF subset_refl])
    from image_mono [OF this, of fst] js show ?thesis unfolding image_Un by blast
  qed
  moreover have "jobs_of n w' = map snd js @ remove1 s (jobs_of n w)" "\<And>m. m \<noteq> n \<Longrightarrow> jobs_of m w' = jobs_of m w"
    by (simp_all add: j jobs_of_next_stage [OF js])
  moreover have "local_inv (o_instance w) (o_store w) (o_heap w ! n) (jobs_of n w)"
    using inv n by (simp add: owner_inv_def)
  ultimately show ?thesis
    using loc s
    by (intro owner_inv_update [OF inv n heap req _ _ _ gate inst dist keep]) (simp_all add: jobs_of_mem snap)
qed

lemma stage_ok_flags:
  "en_request e' = en_request e \<Longrightarrow> en_pending e' = en_pending e \<Longrightarrow> en_attached e' = en_attached e
     \<Longrightarrow> en_completed e' = en_completed e \<Longrightarrow> stage_ok e' s = stage_ok e s"
  by (cases s) auto

lemma local_replace:
  assumes L: "local_inv inst st e ss" and s: "s \<in> set ss"
    and c: "length (filter claiming news) \<le> (if claiming s then 1 else 0)"
    and r: "length (filter resourcing news) \<le> (if resourcing s then 1 else 0)"
    and ok: "\<And>x. x \<in> set (remove1 s ss) \<Longrightarrow> stage_ok e x \<Longrightarrow> stage_ok e' x"
    and news: "\<forall>x \<in> set news. stage_ok e' x" and req: "en_request e' = en_request e"
    and keep: "entry_holds inst e st \<Longrightarrow> entry_holds inst e st'"
    and adm: "(\<exists>x \<in> set news. admitted x) \<Longrightarrow> admitted s \<or> entry_holds inst e st'"
  shows "local_inv inst st' e' (news @ remove1 s ss)"
proof -
  have count: "length (filter P (news @ remove1 s ss)) \<le> 1"
    if "length (filter P ss) \<le> 1" "length (filter P news) \<le> (if P s then 1 else 0)" for P
    using that s by (cases "P s") (auto simp: remove1_filter_length)
  have sub: "set (remove1 s ss) \<subseteq> set ss" by (rule set_remove1_subset)
  have "entry_holds inst e st'" if "\<exists>x \<in> set (news @ remove1 s ss). admitted x"
    using that L s adm keep sub unfolding local_inv_def by fastforce
  then have "(\<exists>x \<in> set (news @ remove1 s ss). admitted x) \<longrightarrow> entry_holds inst e' st'"
    by (simp add: entry_holds_def req)
  moreover have "\<forall>x \<in> set (news @ remove1 s ss). stage_ok e' x"
    using news ok sub L unfolding local_inv_def by auto
  ultimately show ?thesis
    using count [of claiming, OF _ c] count [of resourcing, OF _ r] L unfolding local_inv_def by blast
qed

lemma owner_inv_move:
  assumes inv: "owner_inv w" and s: "(n, s) \<in> set (o_jobs w)"
    and heap: "o_heap w' = (o_heap w)[n := e']" and req: "en_request e' = en_request (o_heap w ! n)"
    and jobs: "o_jobs w' = map (Pair n) news @ remove1 (n, s) (o_jobs w)"
    and snap: "o_snapshot w' = o_snapshot w" and gate: "set (entries w') \<subseteq> set (entries w)"
    and inst: "o_instance w' = o_instance w" and dist: "distinct (map v_id (reservations (o_store w')))"
    and keep: "\<And>rid uid. holds (o_instance w) rid uid (o_store w) \<Longrightarrow> holds (o_instance w) rid uid (o_store w')"
    and c: "length (filter claiming news) \<le> (if claiming s then 1 else 0)"
    and r: "length (filter resourcing news) \<le> (if resourcing s then 1 else 0)"
    and ok: "\<And>x. local_inv (o_instance w) (o_store w) (o_heap w ! n) (jobs_of n w) \<Longrightarrow> s \<in> set (jobs_of n w)
        \<Longrightarrow> stage_ok (o_heap w ! n) s \<Longrightarrow> x \<in> set (remove1 s (jobs_of n w))
        \<Longrightarrow> stage_ok (o_heap w ! n) x \<Longrightarrow> stage_ok e' x"
    and new: "stage_ok (o_heap w ! n) s \<Longrightarrow> \<forall>x \<in> set news. stage_ok e' x"
    and adm: "stage_ok (o_heap w ! n) s \<Longrightarrow> \<exists>x \<in> set news. admitted x
        \<Longrightarrow> admitted s \<or> entry_holds (o_instance w) (o_heap w ! n) (o_store w')"
  shows "owner_inv w'"
proof (rule owner_inv_stage [OF inv s heap req jobs _ snap gate inst dist keep])
  show "fst ` set (map (Pair n) news) \<subseteq> {n}" by auto
  assume L: "local_inv (o_instance w) (o_store w) (o_heap w ! n) (jobs_of n w)" and m: "s \<in> set (jobs_of n w)"
  then have so: "stage_ok (o_heap w ! n) s" by (simp add: local_inv_def)
  have "local_inv (o_instance w) (o_store w') e' (news @ remove1 s (jobs_of n w))"
    using ok [OF L m so] new [OF so] adm [OF so] keep
    by (intro local_replace [OF L m c r _ _ req]) (auto simp: entry_holds_def)
  then show "local_inv (o_instance w) (o_store w') e' (map snd (map (Pair n) news) @ remove1 s (jobs_of n w))"
    by (simp add: comp_def)
qed

lemma distinct_after: "owner_inv w \<Longrightarrow> ledger_step (o_store w) st \<Longrightarrow> distinct (map v_id (reservations st))"
  using ledger_step_distinct by (auto simp: owner_inv_def)

lemma store_distinct: "owner_inv w \<Longrightarrow> distinct (map v_id (reservations (o_store w)))"
  by (simp add: owner_inv_def)

definition cancelled_entry :: "Entry \<Rightarrow> Entry" where
  "cancelled_entry e = e\<lparr>en_cancelled := True\<rparr>"

lemma fields_set_entry [simp]:
  "o_heap (set_entry n f w) = (o_heap w)[n := f (o_heap w ! n)]" "o_jobs (set_entry n f w) = o_jobs w"
  "o_store (set_entry n f w) = o_store w" "o_instance (set_entry n f w) = o_instance w"
  "o_snapshot (set_entry n f w) = o_snapshot w" "entries (set_entry n f w) = entries w"
  "o_permits (set_entry n f w) = o_permits w" "o_closed (set_entry n f w) = o_closed w"
  by (simp_all add: set_entry_def entries_def)

lemma fields_cancel [simp]:
  "o_heap (cancel n w) = (o_heap w)[n := cancelled_entry (o_heap w ! n)]" "o_jobs (cancel n w) = o_jobs w"
  "o_store (cancel n w) = o_store w" "o_instance (cancel n w) = o_instance w"
  "o_snapshot (cancel n w) = o_snapshot w" "entries (cancel n w) = entries w"
  by (simp_all add: cancel_def cancelled_entry_def)

lemma fields_remove [simp]:
  "o_heap (remove rid w) = o_heap w" "o_jobs (remove rid w) = o_jobs w" "o_store (remove rid w) = o_store w"
  "o_instance (remove rid w) = o_instance w" "o_snapshot (remove rid w) = o_snapshot w"
  by (simp_all add: remove_def)

lemma entries_remove: "set (entries (remove rid w)) \<subseteq> set (entries w)"
  by (auto simp: entries_def remove_def)

lemma fields_next_stage [simp]:
  "o_heap (next_stage n s js w) = o_heap w" "o_jobs (next_stage n s js w) = js @ remove1 (n, s) (o_jobs w)"
  "o_store (next_stage n s js w) = o_store w" "o_instance (next_stage n s js w) = o_instance w"
  "o_snapshot (next_stage n s js w) = o_snapshot w" "entries (next_stage n s js w) = entries w"
  by (simp_all add: next_stage_def entries_def)

lemma fields_flags [simp]:
  "o_heap (fail w) = o_heap w" "o_jobs (fail w) = o_jobs w" "o_store (fail w) = o_store w"
  "o_instance (fail w) = o_instance w" "o_snapshot (fail w) = o_snapshot w" "entries (fail w) = entries w"
  "o_heap (release_permit w) = o_heap w" "o_jobs (release_permit w) = o_jobs w"
  "o_store (release_permit w) = o_store w" "o_instance (release_permit w) = o_instance w"
  "o_snapshot (release_permit w) = o_snapshot w" "entries (release_permit w) = entries w"
  by (simp_all add: fail_def release_permit_def entries_def)

lemma fields_update [simp]:
  "entries (w\<lparr>o_store := st\<rparr>) = entries w" "entries (w\<lparr>o_permits := k\<rparr>) = entries w"
  by (simp_all add: entries_def)

lemma stage_ok_cancelled [simp]: "stage_ok (cancelled_entry e) s = stage_ok e s"
  by (rule stage_ok_flags) (simp_all add: cancelled_entry_def)

lemma fields_cancelled [simp]:
  "en_request (cancelled_entry e) = en_request e" "en_pending (cancelled_entry e) = en_pending e"
  "en_cancelled (cancelled_entry e)"
  by (simp_all add: cancelled_entry_def)

lemma stage_ok_unread [simp]:
  "stage_ok (e\<lparr>en_deadline := d\<rparr>) s = stage_ok e s" "stage_ok (e\<lparr>en_checking := c\<rparr>) s = stage_ok e s"
  by (rule stage_ok_flags; simp)+

lemmas inv_move = owner_inv_move [where news = "[]"] owner_inv_move [where news = "[x]" for x]
  owner_inv_move [where news = "[x, y]" for x y]

lemma inv_check_run:
  assumes "owner_inv w" "(n, S_Check request renew) \<in> set (o_jobs w)"
  shows "owner_inv (check_run env t began n request renew w)"
  by (rule inv_move(2) [OF assms, where e' = "o_heap w ! n"])
    (auto simp: check_run_def case_prod_beta intro: distinct_after [OF assms(1)] ledger_step.intros holds_check)

lemma inv_check_done:
  assumes "owner_inv w" "(n, S_Checked renew began r) \<in> set (o_jobs w)"
  shows "owner_inv (check_done n renew began r w)"
proof (cases r)
  case (Inl e)
  show ?thesis
    by (rule inv_move(1) [OF assms, where e' = "cancelled_entry (o_heap w ! n)"])
      (simp_all add: check_done_def Inl store_distinct [OF assms(1)])
next
  case (Inr receipt)
  show ?thesis
  proof (cases renew)
    case True
    show ?thesis
      by (rule inv_move(1) [OF assms,
            where e' = "(o_heap w ! n)\<lparr>en_deadline := Some (deadline_after began receipt)\<rparr>"])
        (simp_all add: check_done_def Inr True store_distinct [OF assms(1)])
  next
    case False
    show ?thesis
      by (rule inv_move(1) [OF assms, where e' = "o_heap w ! n"])
        (simp_all add: check_done_def Inr False store_distinct [OF assms(1)])
  qed
qed

lemma claiming_excluded:
  "local_inv inst st e ss \<Longrightarrow> s \<in> set ss \<Longrightarrow> claiming s \<Longrightarrow> x \<in> set (remove1 s ss) \<Longrightarrow> \<not> claiming x"
  using others_excluded [of claiming ss s x] by (auto simp: local_inv_def)

lemma resourcing_excluded:
  "local_inv inst st e ss \<Longrightarrow> s \<in> set ss \<Longrightarrow> resourcing s \<Longrightarrow> x \<in> set (remove1 s ss) \<Longrightarrow> \<not> resourcing x"
  using others_excluded [of resourcing ss s x] by (auto simp: local_inv_def)

lemma stage_ok_settled:
  "stage_ok e x \<Longrightarrow> \<not> claiming x \<Longrightarrow> stage_ok (e\<lparr>en_pending := False\<rparr>) x"
  by (cases x) auto

lemma inv_claim_done:
  assumes "owner_inv w" "(n, S_Settled inserted) \<in> set (o_jobs w)"
  shows "owner_inv (claim_done n inserted w)"
proof (cases inserted)
  case True
  show ?thesis
    by (rule inv_move(1) [OF assms, where e' = "(o_heap w ! n)\<lparr>en_pending := False\<rparr>"])
      (simp_all add: claim_done_def True store_distinct [OF assms(1)] stage_ok_settled claiming_excluded)
next
  case False
  show ?thesis
    by (rule inv_move(1) [OF assms, where e' = "o_heap w ! n"])
      (simp_all add: claim_done_def False store_distinct [OF assms(1)])
qed

lemma claim_fresh_holds:
  assumes "claim env t inst request allow binding st = (Inr receipt, st')" "rc_fresh receipt"
  shows "holds inst (q_id request) (a_user (q_actor request)) st'"
proof -
  from assms(1) obtain fp where f: "claim_action env inst (x_now t) (x_now2 t) request fp allow binding st = (Inr receipt, st')"
    by (auto simp: claim_def transaction_Inr split: sum.splits)
  have "claim_new env inst (x_now t) (x_now2 t) request fp binding st = (Inr receipt, st')"
    using f assms(2)
    by (auto simp: claim_action_def split: sum.splits option.splits if_splits dest!: claim_existing_contract)
  from claim_new_contract [OF this] obtain verified where
    "reservations st' = reservations st @ [new_row inst (x_now2 t) request fp verified]" by blast
  then show ?thesis
    unfolding holds_def by (intro bexI [of _ "new_row inst (x_now2 t) request fp verified"])
      (simp_all add: new_row_def active_def)
qed

lemma inv_claim_run:
  assumes "owner_inv w" "(n, S_Claim request binding inserted) \<in> set (o_jobs w)"
  shows "owner_inv (claim_run env t began n request binding inserted w)"
proof -
  let ?c = "claim env t (o_instance w) request inserted binding (o_store w)"
  have fresh: "entry_holds (o_instance w) (o_heap w ! n) (snd ?c)"
    if "stage_ok (o_heap w ! n) (S_Claim request binding inserted)" "admitted (S_Claimed request inserted began (fst ?c))"
  proof -
    from that(2) obtain receipt where r: "inserted" "fst ?c = Inr receipt" "rc_fresh receipt"
      by (cases "fst ?c"; cases inserted) auto
    then have "?c = (Inr receipt, snd ?c)" by (metis prod.collapse)
    from claim_fresh_holds [OF this r(3)] that(1) r(1) show ?thesis by (simp add: entry_holds_def)
  qed
  show ?thesis
    by (rule inv_move(2) [OF assms, where e' = "o_heap w ! n"])
      (use fresh in \<open>auto simp: claim_run_def case_prod_beta
        intro: distinct_after [OF assms(1)] ledger_step.intros holds_claim\<close>)
qed

lemma stage_ok_attached:
  "stage_ok e x \<Longrightarrow> en_pending e \<Longrightarrow> \<not> claiming x \<Longrightarrow> stage_ok (e\<lparr>en_deadline := d, en_attached := True\<rparr>) x"
  by (cases x) auto

lemma resourcing_attached: "stage_ok e x \<Longrightarrow> resourcing x \<Longrightarrow> en_attached e"
  by (cases x) auto

lemma inv_launch:
  assumes "owner_inv w" "(n, S_Claimed request True began (Inr receipt)) \<in> set (o_jobs w)" "rc_fresh receipt"
  shows "owner_inv (next_stage n (S_Claimed request True began (Inr receipt)) [(n, S_Settled True), (n, S_Running)]
    (set_entry n (\<lambda>e. e\<lparr>en_attached := True\<rparr>) (set_entry n (\<lambda>e. e\<lparr>en_deadline := d\<rparr>) w)))"
proof (rule owner_inv_stage [OF assms(1,2), where e' = "(o_heap w ! n)\<lparr>en_deadline := d, en_attached := True\<rparr>"
      and js = "[(n, S_Settled True), (n, S_Running)]"])
  let ?s = "S_Claimed request True began (Inr receipt)" and ?e = "o_heap w ! n"
  let ?e' = "?e\<lparr>en_deadline := d, en_attached := True\<rparr>"
  have n: "n < length (o_heap w)" using assms(1,2) by (force simp: owner_inv_def)
  then show "o_heap (next_stage n ?s [(n, S_Settled True), (n, S_Running)]
    (set_entry n (\<lambda>e. e\<lparr>en_attached := True\<rparr>) (set_entry n (\<lambda>e. e\<lparr>en_deadline := d\<rparr>) w))) = (o_heap w)[n := ?e']"
    by simp
  assume L: "local_inv (o_instance w) (o_store w) ?e (jobs_of n w)" and m: "?s \<in> set (jobs_of n w)"
  have so: "stage_ok ?e ?s" using L m by (auto simp: local_inv_def)
  have "admitted ?s" using assms(3) by simp
  with L m have h: "entry_holds (o_instance w) ?e (o_store w)" unfolding local_inv_def by blast
  have nr: "\<not> resourcing x" if "x \<in> set (jobs_of n w)" for x
    using L that so resourcing_attached [of ?e x] by (auto simp: local_inv_def)
  have nc: "\<not> claiming x" if "x \<in> set (remove1 ?s (jobs_of n w))" for x
    using claiming_excluded [OF L m _ that] by simp
  have sub: "set (remove1 ?s (jobs_of n w)) \<subseteq> set (jobs_of n w)" by (rule set_remove1_subset)
  have "filter claiming (remove1 ?s (jobs_of n w)) = []" "filter resourcing (remove1 ?s (jobs_of n w)) = []"
    using nc nr sub by (auto simp: filter_empty_conv)
  moreover have "stage_ok ?e' x" if "x \<in> set (remove1 ?s (jobs_of n w))" for x
    using that sub L so nc by (intro stage_ok_attached) (auto simp: local_inv_def)
  ultimately show "local_inv (o_instance w)
      (o_store (next_stage n ?s [(n, S_Settled True), (n, S_Running)]
        (set_entry n (\<lambda>e. e\<lparr>en_attached := True\<rparr>) (set_entry n (\<lambda>e. e\<lparr>en_deadline := d\<rparr>) w))))
      ?e' (map snd [(n, S_Settled True), (n, S_Running)] @ remove1 ?s (jobs_of n w))"
    using so h by (auto simp: local_inv_def entry_holds_def)
qed (simp_all add: store_distinct [OF assms(1)])

lemma heap_index: "owner_inv w \<Longrightarrow> (n, s) \<in> set (o_jobs w) \<Longrightarrow> n < length (o_heap w)"
  by (force simp: owner_inv_def)

lemma inv_claim_settle:
  assumes "owner_inv w" "(n, S_Claimed request inserted began r) \<in> set (o_jobs w)"
  shows "owner_inv (claim_settle n request inserted began r w)"
proof -
  let ?s = "S_Claimed request inserted began r" and ?e = "o_heap w ! n"
  note n = heap_index [OF assms]
  note move = inv_move(2) [OF assms]
  note s = claim_settle_def Let_def store_distinct [OF assms(1)] entries_remove
  show ?thesis
  proof (cases inserted)
    case False
    show ?thesis by (rule move [where e' = ?e]) ((simp_all add: s False)+)
  next
    case ins: True
    show ?thesis
    proof (cases r)
      case (Inl e)
      show ?thesis
      proof (cases "e = E_Indeterminate")
        case True
        show ?thesis by (rule move [where e' = "cancelled_entry ?e"]) ((simp_all add: s ins Inl True)+)
      next
        case False
        show ?thesis by (rule move [where e' = ?e]) ((simp_all add: s ins Inl False)+)
      qed
    next
      case (Inr receipt)
      let ?d = "Some (deadline_after began receipt)"
      consider (launch) "rc_fresh receipt" "rc_state receipt = Held" "\<not> o_closed w" "\<not> en_cancelled ?e"
        | (late) "rc_fresh receipt" "rc_state receipt = Held" "o_closed w \<or> en_cancelled ?e"
        | (old) "\<not> (rc_fresh receipt \<and> rc_state receipt = Held)"
        by blast
      then show ?thesis
      proof cases
        case launch
        with inv_launch [of w n request began receipt ?d] assms n show ?thesis by (simp add: s ins Inr)
      next
        case late
        then have no: "\<not> (\<not> o_closed w \<and> \<not> en_cancelled ?e)" by blast
        have "claim_settle n request inserted began r w = next_stage n ?s [(n, S_Settled True)]
            (cancel n (set_entry n (\<lambda>e. e\<lparr>en_deadline := ?d\<rparr>) w))"
          using late(1,2) no n by (auto simp: claim_settle_def Let_def ins Inr simp del: fields_cancel)
        then show ?thesis
          by (intro move [where e' = "cancelled_entry (?e\<lparr>en_deadline := ?d\<rparr>)" and x = "S_Settled True"])
            (simp_all add: n ins store_distinct [OF assms(1)])
      next
        case old
        then have "claim_settle n request inserted began r w =
            next_stage n ?s [(n, S_Settled True)] (remove (q_id request) w)"
          by (auto simp: claim_settle_def Let_def ins Inr)
        then show ?thesis
          by (intro move [where e' = ?e and x = "S_Settled True"]) (simp_all add: s ins)
      qed
    qed
  qed
qed

section \<open>The steps of the monitor and of a stream\<close>

lemma inv_monitor_check:
  assumes "owner_inv w" "(n, S_Monitor) \<in> set (o_jobs w)"
  shows "owner_inv (monitor_check env t n w)"
proof (cases "en_cancelled (o_heap w ! n)")
  case True
  show ?thesis
    by (rule inv_move(2) [OF assms, where e' = "o_heap w ! n"])
      ((simp_all add: monitor_check_def True store_distinct [OF assms(1)])+)
next
  case False
  show ?thesis
    by (rule inv_move(2) [OF assms, where e' = "o_heap w ! n"])
      (use False in \<open>auto simp: monitor_check_def case_prod_beta Let_def
        intro: distinct_after [OF assms(1)] ledger_step.intros holds_check\<close>)
qed

lemma inv_monitor_decide:
  assumes "owner_inv w" "(n, S_Monitored refused) \<in> set (o_jobs w)"
  shows "owner_inv (monitor_decide n refused w)"
proof -
  let ?w = "if refused then cancel n w else w"
  show ?thesis
    by (rule inv_move(2) [OF assms, where e' = "if refused then cancelled_entry (o_heap w ! n) else o_heap w ! n"
          and x = "if en_cancelled (o_heap ?w ! n) then S_Retire else S_Monitor_End"])
      (simp_all add: monitor_decide_def Let_def store_distinct [OF assms(1)] split: if_splits)
qed

lemma inv_monitor_retire:
  assumes "owner_inv w" "(n, S_Retire) \<in> set (o_jobs w)"
  shows "owner_inv (monitor_retire env t n w)"
  by (rule inv_move(2) [OF assms, where e' = "o_heap w ! n"])
    (auto simp: monitor_retire_def case_prod_beta Let_def
      intro: distinct_after [OF assms(1)] ledger_step.intros holds_retire store_distinct [OF assms(1)])

lemma inv_monitor_retired:
  assumes "owner_inv w" "(n, S_Retired) \<in> set (o_jobs w)"
  shows "owner_inv (monitor_retired n w)"
  by (rule inv_move(2) [OF assms, where e' = "o_heap w ! n" and
        x = "if \<not> en_attached (o_heap w ! n) \<or> en_completed (o_heap w ! n) then S_Release else S_Monitor_End"])
    (simp_all add: monitor_retired_def Let_def store_distinct [OF assms(1)] split: if_splits)

lemma inv_monitor_remove:
  assumes "owner_inv w" "(n, S_Remove) \<in> set (o_jobs w)"
  shows "owner_inv (monitor_remove n w)"
  by (rule inv_move(2) [OF assms, where e' = "o_heap w ! n"])
    ((simp_all add: monitor_remove_def store_distinct [OF assms(1)] entries_remove)+)

lemma inv_monitor_end:
  assumes "owner_inv w" "(n, S_Monitor_End) \<in> set (o_jobs w)"
  shows "owner_inv (monitor_end n w)"
  by (rule inv_move(1) [OF assms, where e' = "(o_heap w ! n)\<lparr>en_checking := False\<rparr>"])
    ((simp_all add: monitor_end_def store_distinct [OF assms(1)])+)

lemma inv_resource_cancelled:
  assumes "owner_inv w" "(n, S_Running) \<in> set (o_jobs w)"
  shows "owner_inv (resource_cancelled env t n w)"
proof (cases "en_cancelled (o_heap w ! n) \<and> 0 < o_permits w")
  case True
  show ?thesis
    by (rule inv_move(2) [OF assms, where e' = "o_heap w ! n"])
      (use True in \<open>auto simp: resource_cancelled_def case_prod_beta Let_def
        intro: distinct_after [OF assms(1)] ledger_step.intros holds_retire store_distinct [OF assms(1)]\<close>)
next
  case False
  then show ?thesis using assms by (auto simp: resource_cancelled_def)
qed

lemma inv_resource_returned:
  assumes "owner_inv w" "(n, s) \<in> set (o_jobs w)" "s \<in> {S_Running, S_Stopping}"
  shows "owner_inv (resource_returned n s ok w)"
  by (rule inv_move(2) [OF assms(1,2), where e' = "cancelled_entry (o_heap w ! n)"
        and x = "if ok then S_Complete else S_Failing"])
    (use assms(3) in \<open>auto simp: resource_returned_def store_distinct [OF assms(1)]\<close>)

lemma inv_resource_failing:
  assumes "owner_inv w" "(n, S_Failing) \<in> set (o_jobs w)"
  shows "owner_inv (resource_failing env t n w)"
proof (cases "0 < o_permits w")
  case True
  show ?thesis
    by (rule inv_move(1) [OF assms, where e' = "o_heap w ! n"])
      (use True in \<open>auto simp: resource_failing_def case_prod_beta Let_def
        intro: distinct_after [OF assms(1)] ledger_step.intros holds_retire store_distinct [OF assms(1)]\<close>)
next
  case False
  then show ?thesis using assms by (auto simp: resource_failing_def)
qed

lemma stage_ok_completed:
  "stage_ok e x \<Longrightarrow> en_attached e \<Longrightarrow> \<not> en_completed e \<Longrightarrow> \<not> resourcing x
     \<Longrightarrow> stage_ok (e\<lparr>en_completed := b\<rparr>) x"
  by (cases x) auto

lemma inv_resource_complete:
  assumes "owner_inv w" "(n, S_Complete) \<in> set (o_jobs w)"
  shows "owner_inv (resource_complete n w)"
proof (cases "0 < o_permits w")
  case True
  show ?thesis
    by (rule inv_move(2) [OF assms, where e' = "(o_heap w ! n)\<lparr>en_completed := (en_binding (o_heap w ! n) \<noteq> None)\<rparr>"])
      ((use True in \<open>simp_all add: resource_complete_def store_distinct [OF assms(1)] stage_ok_completed
        resourcing_excluded\<close>)+)
next
  case False
  then show ?thesis using assms by (auto simp: resource_complete_def)
qed

lemma inv_resource_finish:
  assumes "owner_inv w" "(n, S_Finish refused) \<in> set (o_jobs w)"
  shows "owner_inv (resource_finish n refused w)"
  by (rule inv_move(1) [OF assms, where e' = "o_heap w ! n"])
    ((simp_all add: resource_finish_def store_distinct [OF assms(1)] entries_remove)+)

text \<open>Releasing is safe in the two stages that do it: no stream of the entry runs.\<close>

lemma local_release:
  assumes L: "local_inv inst st e ss" and s: "s \<in> set ss" and none: "\<forall>x \<in> set (remove1 s ss). \<not> admitted x"
    and new: "stage_ok e x" "\<not> claiming x" "resourcing x \<Longrightarrow> resourcing s" "\<not> admitted x"
  shows "local_inv inst st' e (x # remove1 s ss)"
proof -
  have "length (filter claiming (x # remove1 s ss)) \<le> 1" using L s new by (auto simp: local_inv_def remove1_filter_length)
  moreover have "length (filter resourcing (x # remove1 s ss)) \<le> 1"
    using L s new by (auto simp: local_inv_def remove1_filter_length)
  moreover have "\<forall>y \<in> set (x # remove1 s ss). stage_ok e y"
    using L new set_remove1_subset [of s ss] by (auto simp: local_inv_def)
  ultimately show ?thesis using none new by (auto simp: local_inv_def)
qed

lemma unattached_not_admitted:
  "stage_ok e x \<Longrightarrow> \<not> en_pending e \<Longrightarrow> \<not> en_attached e \<or> en_completed e \<Longrightarrow> \<not> admitted x"
  by (cases x rule: admitted.cases) auto

lemma attached_not_admitted: "stage_ok e x \<Longrightarrow> en_attached e \<Longrightarrow> \<not> resourcing x \<Longrightarrow> \<not> admitted x"
  by (cases x rule: admitted.cases) auto

lemma inv_release:
  assumes "owner_inv w" "(n, s) \<in> set (o_jobs w)"
    and none: "\<And>y. local_inv (o_instance w) (o_store w) (o_heap w ! n) (jobs_of n w) \<Longrightarrow> s \<in> set (jobs_of n w)
        \<Longrightarrow> stage_ok (o_heap w ! n) s \<Longrightarrow> y \<in> set (remove1 s (jobs_of n w)) \<Longrightarrow> stage_ok (o_heap w ! n) y \<Longrightarrow> \<not> admitted y"
    and new: "stage_ok (o_heap w ! n) s \<Longrightarrow> stage_ok (o_heap w ! n) x" "\<not> claiming x" "resourcing x \<Longrightarrow> resourcing s"
      "\<not> admitted x"
  shows "owner_inv (next_stage n s [(n, x)]
    (w\<lparr>o_store := snd (retire env t (o_instance w) (en_request (o_heap w ! n)) True (o_store w))\<rparr>))"
proof (rule owner_inv_stage [OF assms(1,2), where e' = "o_heap w ! n" and js = "[(n, x)]"])
  let ?st = "snd (retire env t (o_instance w) (en_request (o_heap w ! n)) True (o_store w))"
  show "distinct (map v_id (reservations (o_store (next_stage n s [(n, x)] (w\<lparr>o_store := ?st\<rparr>)))))"
    by (auto intro: distinct_after [OF assms(1)] ledger_step.intros)
  show "holds (o_instance w) rid uid (o_store (next_stage n s [(n, x)] (w\<lparr>o_store := ?st\<rparr>)))"
    if "rid \<noteq> q_id (en_request (o_heap w ! n))" "holds (o_instance w) rid uid (o_store w)" for rid uid
    using that by (auto intro!: holds_retire store_distinct [OF assms(1)])
  assume L: "local_inv (o_instance w) (o_store w) (o_heap w ! n) (jobs_of n w)" and m: "s \<in> set (jobs_of n w)"
  then have so: "stage_ok (o_heap w ! n) s" by (simp add: local_inv_def)
  have "\<forall>y \<in> set (remove1 s (jobs_of n w)). \<not> admitted y"
    using none [OF L m so] L set_remove1_subset [of s "jobs_of n w"] by (auto simp: local_inv_def)
  from local_release [OF L m this new(1) [OF so] new(2-4)]
  show "local_inv (o_instance w) (o_store (next_stage n s [(n, x)] (w\<lparr>o_store := ?st\<rparr>))) (o_heap w ! n)
      (map snd [(n, x)] @ remove1 s (jobs_of n w))"
    by simp
qed simp_all

lemma inv_monitor_release:
  assumes "owner_inv w" "(n, S_Release) \<in> set (o_jobs w)"
  shows "owner_inv (monitor_release env t n w)"
proof -
  let ?r = "retire env t (o_instance w) (en_request (o_heap w ! n)) True (o_store w)"
  have "owner_inv (next_stage n S_Release [(n, if isl (fst ?r) then S_Monitor_End else S_Remove)]
      (w\<lparr>o_store := snd ?r\<rparr>))"
    by (rule inv_release [OF assms]) (auto dest: unattached_not_admitted split: if_splits)
  then show ?thesis by (simp add: monitor_release_def case_prod_beta)
qed

lemma inv_resource_release:
  assumes "owner_inv w" "(n, S_Completed) \<in> set (o_jobs w)"
  shows "owner_inv (resource_release env t n w)"
proof -
  let ?r = "retire env t (o_instance w) (en_request (o_heap w ! n)) True (o_store w)"
  have "owner_inv (next_stage n S_Completed [(n, S_Finish (isl (fst ?r)))] (w\<lparr>o_store := snd ?r\<rparr>))"
    by (rule inv_release [OF assms]) (auto dest: attached_not_admitted resourcing_excluded)
  then show ?thesis by (simp add: resource_release_def case_prod_beta)
qed

section \<open>Other steps\<close>

lemma owner_inv_same:
  assumes "owner_inv w" "o_heap w' = o_heap w" "o_jobs w' = o_jobs w" "o_instance w' = o_instance w"
    "set (o_snapshot w') \<subseteq> set (o_snapshot w) \<union> set (entries w)" "set (entries w') \<subseteq> set (entries w)"
    "distinct (map v_id (reservations (o_store w')))"
    "\<And>rid uid. holds (o_instance w) rid uid (o_store w) \<Longrightarrow> holds (o_instance w) rid uid (o_store w')"
  shows "owner_inv w'"
proof -
  have "jobs_of n w' = jobs_of n w" for n by (simp add: jobs_of_def assms(3))
  then have "local_inv (o_instance w') (o_store w') (o_heap w' ! n) (jobs_of n w')" if "n < length (o_heap w)" for n
    using assms(1,2,4,8) that by (auto simp: owner_inv_def local_inv_def entry_holds_def)
  moreover have "set (o_snapshot w') \<subseteq> {..<length (o_heap w)}" "set (entries w') \<subseteq> {..<length (o_heap w)}"
    using assms(1,5,6) unfolding owner_inv_def by (meson Un_least order_trans)+
  ultimately show ?thesis using assms(1-4,7) by (simp add: owner_inv_def)
qed

lemma inv_cancel:
  assumes "owner_inv w" "n < length (o_heap w)"
  shows "owner_inv (cancel n w)"
proof (rule owner_inv_update [OF assms, where e' = "cancelled_entry (o_heap w ! n)"])
  have "local_inv (o_instance w) (o_store w) (o_heap w ! n) (jobs_of n w)" using assms by (simp add: owner_inv_def)
  then show "local_inv (o_instance w) (o_store (cancel n w)) (cancelled_entry (o_heap w ! n)) (jobs_of n (cancel n w))"
    by (simp add: local_inv_def entry_holds_def jobs_of_def)
qed (auto simp: jobs_of_def store_distinct [OF assms(1)])

lemma inv_spawn:
  assumes "owner_inv w" "n < length (o_heap w)" "stage_ok (o_heap w ! n) s" "\<not> claiming s" "\<not> resourcing s" "\<not> admitted s"
  shows "owner_inv (w\<lparr>o_permits := k, o_jobs := (n, s) # o_jobs w\<rparr>)"
proof (rule owner_inv_update [OF assms(1,2), where e' = "o_heap w ! n"])
  have "local_inv (o_instance w) (o_store w) (o_heap w ! n) (jobs_of n w)" using assms(1,2) by (simp add: owner_inv_def)
  then show "local_inv (o_instance w) (o_store (w\<lparr>o_permits := k, o_jobs := (n, s) # o_jobs w\<rparr>)) (o_heap w ! n)
      (jobs_of n (w\<lparr>o_permits := k, o_jobs := (n, s) # o_jobs w\<rparr>))"
    using assms(3-6) by (simp add: local_inv_def jobs_of_def)
qed (auto simp: jobs_of_def store_distinct [OF assms(1)] entries_def)

lemma entries_index: "owner_inv w \<Longrightarrow> map_of (o_gate w) rid = Some n \<Longrightarrow> n < length (o_heap w)"
  by (force simp: owner_inv_def entries_def dest: map_of_SomeD)

lemma inv_insert:
  assumes inv: "owner_inv w" and fresh: "q_id request \<notin> (q_id \<circ> en_request) ` set (o_heap w)"
  shows "owner_inv (w\<lparr>o_permits := k, o_heap := o_heap w @ [new_entry request binding],
    o_gate := insort_key fst (q_id request, length (o_heap w)) (o_gate w),
    o_jobs := (length (o_heap w), S_Claim request binding True) # o_jobs w\<rparr>)" (is "owner_inv ?w")
proof -
  let ?n = "length (o_heap w)"
  have old: "fst ` set (o_jobs w) \<subseteq> {..<?n}" "set (o_snapshot w) \<subseteq> {..<?n}" "set (entries w) \<subseteq> {..<?n}"
    using inv by (simp_all only: owner_inv_def)
  have j: "jobs_of m ?w = (if m = ?n then S_Claim request binding True # jobs_of m w else jobs_of m w)" for m
    by (simp add: jobs_of_def)
  have e: "jobs_of ?n w = []" using old(1) by (fastforce simp: jobs_of_def filter_empty_conv)
  have "local_inv (o_instance ?w) (o_store ?w) (o_heap ?w ! m) (jobs_of m ?w)" if "m < length (o_heap ?w)" for m
  proof (cases "m = ?n")
    case True
    then show ?thesis by (simp add: j e) (simp add: local_inv_def new_entry_def)
  next
    case False
    then show ?thesis using that inv by (simp add: j nth_append owner_inv_def)
  qed
  moreover have "fst ` set (o_jobs ?w) \<subseteq> {..<length (o_heap ?w)}" using old(1) by (auto simp: subset_iff)
  moreover have "set (o_snapshot ?w) \<subseteq> {..<length (o_heap ?w)}" using old(2) by (auto simp: subset_iff)
  moreover have "set (entries ?w) \<subseteq> {..<length (o_heap ?w)}" using old(3) by (auto simp: entries_def set_insort_key)
  moreover have "distinct (map (q_id \<circ> en_request) (o_heap ?w))"
    using inv fresh by (auto simp: owner_inv_def new_entry_def)
  ultimately show ?thesis using store_distinct [OF inv] by (simp add: owner_inv_def)
qed

lemma inv_enqueue:
  assumes inv: "owner_inv w"
    and new: "q_id request \<in> fst ` set (o_gate w) \<or> q_id request \<notin> (q_id \<circ> en_request) ` set (o_heap w)"
  shows "owner_inv (snd (enqueue env request binding w))"
proof (cases "map_of (o_gate w) (q_id request)")
  case None
  then have "q_id request \<notin> (q_id \<circ> en_request) ` set (o_heap w)"
    using new by (simp add: map_of_eq_None_iff)
  from inv_insert [OF inv this, where k = "o_permits w - 1" and binding = binding] inv show ?thesis
    by (simp add: enqueue_def None split: sum.splits)
next
  case (Some n)
  from inv_spawn [OF inv entries_index [OF inv Some], of "S_Claim request binding False" "o_permits w - 1"] inv
  show ?thesis by (simp add: enqueue_def Some split: sum.splits)
qed

lemma inv_queue_check:
  assumes inv: "owner_inv w"
  shows "owner_inv (snd (queue_check env request renew w))"
proof (cases "map_of (o_gate w) (q_id request)")
  case None
  then show ?thesis using inv by (simp add: queue_check_def)
next
  case (Some n)
  from inv_spawn [OF inv entries_index [OF inv Some], of "S_Check request renew" "o_permits w - 1"] inv
  show ?thesis by (simp add: queue_check_def Some split: sum.splits)
qed

lemma inv_monitor:
  assumes "owner_inv w"
  shows "owner_inv (monitor w)"
  by (rule owner_inv_same [OF assms]) (auto simp: monitor_def Let_def entries_def store_distinct [OF assms])

lemma inv_checking:
  assumes "owner_inv w" "n < length (o_heap w)"
  shows "owner_inv (set_entry n (\<lambda>e. e\<lparr>en_checking := b\<rparr>) w)"
proof (rule owner_inv_update [OF assms, where e' = "(o_heap w ! n)\<lparr>en_checking := b\<rparr>"])
  have "local_inv (o_instance w) (o_store w) (o_heap w ! n) (jobs_of n w)" using assms by (simp add: owner_inv_def)
  then show "local_inv (o_instance w) (o_store (set_entry n (\<lambda>e. e\<lparr>en_checking := b\<rparr>) w)) ((o_heap w ! n)\<lparr>en_checking := b\<rparr>)
      (jobs_of n (set_entry n (\<lambda>e. e\<lparr>en_checking := b\<rparr>) w))"
    by (simp add: local_inv_def entry_holds_def jobs_of_def)
qed (auto simp: jobs_of_def store_distinct [OF assms(1)])

lemma inv_snapshot:
  "owner_inv w \<Longrightarrow> set xs \<subseteq> set (o_snapshot w) \<Longrightarrow> owner_inv (w\<lparr>o_snapshot := xs\<rparr>)"
  by (rule owner_inv_same [of w]) (auto simp: entries_def store_distinct)

lemma inv_monitor_entry:
  assumes "owner_inv w"
  shows "owner_inv (monitor_entry w)"
proof (cases "o_snapshot w")
  case Nil
  then show ?thesis using assms by (simp add: monitor_entry_def)
next
  case (Cons n rest)
  let ?w = "set_entry n (\<lambda>e. e\<lparr>en_checking := True\<rparr>) w"
  have n: "n < length (o_heap w)" using assms Cons by (auto simp: owner_inv_def)
  have rest: "owner_inv (w\<lparr>o_snapshot := rest\<rparr>)" using assms Cons by (auto intro: inv_snapshot)
  have w1: "owner_inv ?w" using inv_checking [OF assms n] .
  have gone: "owner_inv (?w\<lparr>o_snapshot := []\<rparr>)" using w1 by (rule inv_snapshot) simp
  have go: "owner_inv (?w\<lparr>o_snapshot := rest, o_permits := o_permits w - 1, o_jobs := (n, S_Monitor) # o_jobs w\<rparr>)"
    if "\<not> en_pending (o_heap w ! n)"
  proof -
    have "owner_inv (?w\<lparr>o_snapshot := rest\<rparr>)" using w1 by (rule inv_snapshot) (auto simp: Cons)
    from inv_spawn [OF this, of n S_Monitor "o_permits w - 1"] n that show ?thesis by simp
  qed
  show ?thesis using rest gone go by (simp add: monitor_entry_def Cons Let_def)
qed

lemma inv_stop: "owner_inv w \<Longrightarrow> owner_inv (stop rid w)"
  by (auto simp: stop_def split: option.splits intro: inv_cancel entries_index)

lemma inv_close:
  assumes "owner_inv w"
  shows "owner_inv (close w)"
proof -
  have "owner_inv (foldr cancel ns w) \<and> length (o_heap (foldr cancel ns w)) = length (o_heap w)
      \<and> o_store (foldr cancel ns w) = o_store w"
    if "set ns \<subseteq> {..<length (o_heap w)}" for ns
    using that by (induction ns) (auto simp: assms intro: inv_cancel)
  moreover have "set (entries w) \<subseteq> {..<length (o_heap w)}" using assms by (simp add: owner_inv_def)
  ultimately have i: "owner_inv (foldr cancel (entries w) w)" by blast
  show ?thesis unfolding close_def
    by (rule owner_inv_same [OF i]) (use store_distinct [OF i] in \<open>auto simp: entries_def\<close>)
qed

lemma inv_resource_expired:
  assumes "owner_inv w" "(n, S_Running) \<in> set (o_jobs w)"
  shows "owner_inv (resource_expired now n w)"
  using assms inv_cancel [OF assms(1) heap_index [OF assms]]
  by (simp add: resource_expired_def split: option.splits)

lemma inv_fail: "owner_inv w \<Longrightarrow> owner_inv (fail w)"
  by (rule owner_inv_same [of w]) (auto simp: store_distinct)

lemma inv_drain_entry:
  assumes "owner_inv w" "o_jobs w = []"
  shows "owner_inv (drain_entry env t n w)"
proof -
  have idle: "owner_inv (w\<lparr>o_store := st\<rparr>)" if "ledger_step (o_store w) st" for st
    using assms distinct_after [OF assms(1) that]
    by (simp add: owner_inv_def jobs_of_def local_inv_def entries_def)
  have rem: "owner_inv (remove rid v)" if "owner_inv v" for rid v
    by (rule owner_inv_same [OF that]) (auto simp: store_distinct [OF that] entries_remove [THEN subsetD])
  have "ledger_step (o_store w) (snd (retire env t (o_instance w) (en_request (o_heap w ! n)) True (o_store w)))"
    by (rule ledger_step.retire)
  from idle [OF this] show ?thesis
    using assms(1) by (simp add: drain_entry_def Let_def case_prod_beta inv_fail rem)
qed

lemma inv_maintenance:
  assumes "owner_inv w"
  shows "owner_inv (snd (enqueue_maintenance w))" "owner_inv (maintenance_dropped w)"
    "owner_inv (maintenance_run t operations starts protected w)"
proof -
  show "owner_inv (snd (enqueue_maintenance w))" "owner_inv (maintenance_dropped w)"
    by (rule owner_inv_same [OF assms];
        simp add: enqueue_maintenance_def maintenance_dropped_def entries_def store_distinct [OF assms])+
  show "owner_inv (maintenance_run t operations starts protected w)"
    by (rule owner_inv_same [OF assms])
      (auto simp: maintenance_run_def entries_def store_distinct [OF assms]
        intro: distinct_after [OF assms] ledger_step.intros holds_prune)
qed

lemma inv_foreign:
  assumes "owner_inv w" "foreign_step (o_instance w) (o_store w) st"
  shows "owner_inv (w\<lparr>o_store := st\<rparr>)"
  by (rule owner_inv_same [OF assms(1)])
    (auto intro: distinct_after [OF assms(1)] foreign_ledger [OF assms(2)]
      holds_foreign [OF assms(2)] store_distinct [OF assms(1)])

lemma owner_step_inv:
  assumes "owner_step False w w'" "owner_inv w"
  shows "owner_inv w'"
  using assms
proof (cases rule: owner_step.cases)
  case (enqueue request env binding)
  then show ?thesis using inv_enqueue [OF assms(2), of request] by simp
qed (simp_all add: inv_claim_run inv_claim_settle inv_claim_done inv_queue_check inv_check_run inv_check_done
    inv_stop inv_close inv_monitor inv_monitor_entry inv_monitor_check inv_monitor_decide inv_monitor_retire
    inv_monitor_retired inv_monitor_release inv_monitor_remove inv_monitor_end inv_resource_expired
    inv_resource_cancelled inv_resource_returned inv_fail inv_resource_failing inv_resource_complete
    inv_resource_release inv_resource_finish inv_maintenance inv_drain_entry inv_foreign)

section \<open>Streams within the limit\<close>

lemma owner_step_store:
  assumes "owner_step retry w w'"
  shows "ledger_step (o_store w) (o_store w') \<or> o_store w' = o_store w"
proof -
  have fold: "o_store (foldr cancel ns w) = o_store w" for ns by (induction ns) simp_all
  note defs = enqueue_def claim_run_def claim_settle_def claim_done_def queue_check_def check_run_def check_done_def
    stop_def close_def monitor_def monitor_entry_def monitor_check_def monitor_decide_def monitor_retire_def
    monitor_retired_def monitor_release_def monitor_remove_def monitor_end_def resource_expired_def
    resource_cancelled_def resource_returned_def resource_failing_def resource_complete_def resource_release_def
    resource_finish_def enqueue_maintenance_def maintenance_run_def maintenance_dropped_def drain_entry_def
  show ?thesis
    using assms
    by (cases rule: owner_step.cases)
      (auto simp: defs fold Let_def case_prod_beta foreign_ledger
        intro: ledger_step.intros split: sum.splits option.splits list.splits)
qed

lemma owner_total:
  assumes "(owner_step retry)\<^sup>*\<^sup>* w w'" "ceiling uid (o_store w) = Inr (Some n)"
  shows "total_count uid (o_store w') \<le> max (total_count uid (o_store w)) n \<and> ceiling uid (o_store w') = Inr (Some n)"
  using assms
proof (induction rule: rtranclp_induct)
  case base
  then show ?case by simp
next
  case (step y z)
  with owner_step_store [OF step(2)] ledger_step_total [of "o_store y" "o_store z" uid n] show ?case by fastforce
qed

lemma owner_inv_initial: "distinct (map v_id (reservations st)) \<Longrightarrow> owner_inv (AdmissionOwner_create inst st)"
  by (simp add: owner_inv_def AdmissionOwner_create_def entries_def)

lemma owner_inv_reachable:
  assumes "(owner_step False)\<^sup>*\<^sup>* (AdmissionOwner_create inst st) w" "distinct (map v_id (reservations st))"
  shows "owner_inv w"
  using assms by (induction rule: rtranclp_induct) (auto intro: owner_step_inv owner_inv_initial)

definition streams :: "uuid \<Rightarrow> owner \<Rightarrow> (nat \<times> stage) list" where
  "streams uid w =
     filter (\<lambda>(n, s). running s \<and> a_user (q_actor (en_request (o_heap w ! n))) = uid) (o_jobs w)"

lemma length_filter_mono: "(\<And>x. P x \<Longrightarrow> Q x) \<Longrightarrow> length (filter P xs) \<le> length (filter Q xs)"
  by (induction xs) (auto simp: le_SucI)

lemma distinct_fst:
  assumes "\<And>n. length (filter (\<lambda>j. fst j = n) xs) \<le> 1"
  shows "distinct (map fst xs)"
  using assms
proof (induction xs)
  case (Cons x xs)
  have "filter (\<lambda>j. fst j = fst x) xs = []" using Cons.prems [of "fst x"] by simp
  moreover have "length (filter (\<lambda>j. fst j = n) xs) \<le> 1" for n
    using Cons.prems [of n] by (simp split: if_splits)
  ultimately show ?case using Cons.IH by (auto simp: filter_empty_conv)
qed simp

lemma streams_distinct:
  assumes "owner_inv w"
  shows "distinct (map fst (streams uid w))"
proof (rule distinct_fst)
  fix n
  show "length (filter (\<lambda>j. fst j = n) (streams uid w)) \<le> 1"
  proof (cases "n < length (o_heap w)")
    case True
    have r: "running s \<longrightarrow> resourcing s" for s by (cases s) (simp_all add: running_def)
    have "length (filter (\<lambda>j. fst j = n) (streams uid w)) \<le> length (filter (\<lambda>j. fst j = n \<and> resourcing (snd j)) (o_jobs w))"
      unfolding streams_def filter_filter by (rule length_filter_mono) (use r in auto)
    also have "\<dots> = length (filter resourcing (jobs_of n w))"
      by (simp add: jobs_of_def filter_map comp_def conj_commute)
    also have "\<dots> \<le> 1" using assms True by (auto simp: owner_inv_def local_inv_def)
    finally show ?thesis .
  next
    case False
    have "filter (\<lambda>j. fst j = n) (streams uid w) = []"
      using assms False heap_index [OF assms] by (force simp: streams_def filter_empty_conv)
    then show ?thesis by simp
  qed
qed

lemma stream_holds:
  assumes "owner_inv w" "(n, s) \<in> set (o_jobs w)" "running s"
  shows "entry_holds (o_instance w) (o_heap w ! n) (o_store w)"
proof -
  have "admitted s" using assms(3) by (cases s) (simp_all add: running_def)
  moreover have "local_inv (o_instance w) (o_store w) (o_heap w ! n) (jobs_of n w)"
    using assms(1) heap_index [OF assms(1,2)] by (simp add: owner_inv_def)
  ultimately show ?thesis using assms(2) unfolding local_inv_def jobs_of_mem by blast
qed

lemma streams_counted:
  assumes "owner_inv w"
  shows "int (length (streams uid w)) \<le> total_count uid (o_store w)"
proof -
  let ?id = "\<lambda>n. q_id (en_request (o_heap w ! n))"
  let ?rows = "filter (\<lambda>r. v_household_id r = uid \<and> active r) (reservations (o_store w))"
  have idx: "set (map fst (streams uid w)) \<subseteq> {..<length (o_heap w)}"
    using heap_index [OF assms] by (auto simp: streams_def)
  have "inj_on ?id {..<length (o_heap w)}"
    using assms by (auto simp: owner_inv_def distinct_conv_nth inj_on_def)
  then have inj: "inj_on ?id (set (map fst (streams uid w)))" using idx by (rule inj_on_subset)
  have sub: "?id ` set (map fst (streams uid w)) \<subseteq> v_id ` set ?rows"
  proof
    fix i assume "i \<in> ?id ` set (map fst (streams uid w))"
    then obtain n s where s: "(n, s) \<in> set (o_jobs w)" "running s"
        "a_user (q_actor (en_request (o_heap w ! n))) = uid" "i = ?id n"
      by (auto simp: streams_def)
    from stream_holds [OF assms s(1,2)] obtain r where
      "r \<in> set (reservations (o_store w))" "v_id r = i" "v_household_id r = uid" "active r"
      unfolding entry_holds_def holds_def s(3,4) by blast
    then show "i \<in> v_id ` set ?rows" by (intro image_eqI [of _ _ r]) simp_all
  qed
  have "length (streams uid w) = card (set (map fst (streams uid w)))"
    using distinct_card [OF streams_distinct [OF assms, of uid]] by simp
  also have "\<dots> = card (?id ` set (map fst (streams uid w)))" by (rule card_image [OF inj, symmetric])
  also have "\<dots> \<le> card (v_id ` set ?rows)" by (rule card_mono [OF _ sub]) simp
  also have "\<dots> \<le> length ?rows" by (rule order_trans [OF card_image_le card_length]) simp
  finally show ?thesis by (simp add: total_count_def)
qed

text \<open>
  C2. The streams a process runs for a household never exceed the household's limit, as long as no
  client reuses the identifier of a request that is over: in every interleaving of commands,
  monitor, expiring and ending streams, shutdown, failing database calls and the transactions of
  other instances, every running stream is covered by a reservation of its own that is not released.
\<close>

theorem running_streams_within_limit:
  assumes "(owner_step False)\<^sup>*\<^sup>* (AdmissionOwner_create inst st) w"
    and "distinct (map v_id (reservations st))" and "ceiling uid st = Inr (Some limit)"
  shows "int (length (streams uid w)) \<le> max (total_count uid st) limit
    \<and> (\<forall>(n, s) \<in> set (o_jobs w). running s \<longrightarrow> entry_holds (o_instance w) (o_heap w ! n) (o_store w))"
proof
  have inv: "owner_inv w" by (rule owner_inv_reachable [OF assms(1,2)])
  have "ceiling uid (o_store (AdmissionOwner_create inst st)) = Inr (Some limit)"
    using assms(3) by (simp add: AdmissionOwner_create_def)
  from owner_total [OF assms(1) this] streams_counted [OF inv, of uid]
  show "int (length (streams uid w)) \<le> max (total_count uid st) limit"
    by (simp add: AdmissionOwner_create_def)
  show "\<forall>(n, s) \<in> set (o_jobs w). running s \<longrightarrow> entry_holds (o_instance w) (o_heap w ! n) (o_store w)"
    using stream_holds [OF inv] by auto
qed

section \<open>Concrete runs\<close>

definition started :: owner where
  "started = (let w = claim_run sample_ledger (sample_tx 0) 0 0 sample_request None True
       (snd (enqueue sample_ledger sample_request None (AdmissionOwner_create 1 sample_store)))
     in claim_settle 0 sample_request True 0 (fst sample_claim) w)"

lemma owner_steps: "owner_step retry v w \<Longrightarrow> (owner_step retry)\<^sup>*\<^sup>* u v \<Longrightarrow> (owner_step retry)\<^sup>*\<^sup>* u w"
  by (rule rtranclp.rtrancl_into_rtrancl)

lemma started_reachable: "(owner_step False)\<^sup>*\<^sup>* (AdmissionOwner_create 1 sample_store) started"
proof -
  let ?w0 = "AdmissionOwner_create 1 sample_store"
  let ?w1 = "snd (enqueue sample_ledger sample_request None ?w0)"
  let ?w2 = "claim_run sample_ledger (sample_tx 0) 0 0 sample_request None True ?w1"
  have "owner_step False ?w0 ?w1" by (rule owner_step.enqueue) (simp add: AdmissionOwner_create_def)
  moreover have "owner_step False ?w1 ?w2" by (rule owner_step.claim_run) code_simp
  moreover have "owner_step False ?w2 started"
    unfolding started_def Let_def by (rule owner_step.claim_settle) code_simp
  ultimately show ?thesis by (meson owner_steps rtranclp.rtrancl_refl)
qed

theorem running_streams_within_limit_witness:
  "length (streams 5 started) = 1 \<and> int (length (streams 5 started)) \<le> 1"
proof -
  have "distinct (map v_id (reservations sample_store))" by code_simp
  moreover have "ceiling 5 sample_store = Inr (Some 1)" by code_simp
  ultimately have "int (length (streams 5 started)) \<le> max (total_count 5 sample_store) 1"
    using running_streams_within_limit [OF started_reachable] by blast
  moreover have "total_count 5 sample_store = 0" by code_simp
  moreover have "length (streams 5 started) = 1" by code_simp
  ultimately show ?thesis by simp
qed

text \<open>The steps of a run in which a client repeats a request whose first attempt failed.\<close>

definition second_request :: Request where
  "second_request = sample_request\<lparr>q_id := 4\<rparr>"

definition down :: tx where
  "down = (sample_tx 0)\<lparr>x_up := False\<rparr>"

text \<open>The next step of a task, with what its database call meets; a running stream goes on.\<close>

fun task_step :: "tx \<Rightarrow> nat \<times> stage \<Rightarrow> owner \<Rightarrow> owner" where
  "task_step t (n, S_Claim q b i) w = claim_run sample_ledger t 0 n q b i w"
| "task_step t (n, S_Claimed q i began r) w = claim_settle n q i began r w"
| "task_step t (n, S_Settled i) w = claim_done n i w"
| "task_step t (n, S_Monitor) w = monitor_check sample_ledger t n w"
| "task_step t (n, S_Monitored refused) w = monitor_decide n refused w"
| "task_step t (n, S_Retire) w = monitor_retire sample_ledger t n w"
| "task_step t (n, S_Retired) w = monitor_retired n w"
| "task_step t (n, S_Release) w = monitor_release sample_ledger t n w"
| "task_step t (n, _) w = w"

datatype act = Client Request | Scan | Scan_entry | Task nat tx

fun perform :: "act \<Rightarrow> owner \<Rightarrow> owner" where
  "perform (Client q) w = snd (enqueue sample_ledger q None w)"
| "perform Scan w = (if o_snapshot w = [] then monitor w else w)"
| "perform Scan_entry w = monitor_entry w"
| "perform (Task k t) w = (if k < length (o_jobs w) then task_step t (o_jobs w ! k) w else w)"

lemma task_step_step:
  assumes "j \<in> set (o_jobs w)"
  shows "(owner_step True)\<^sup>*\<^sup>* w (task_step t j w)"
proof -
  obtain n s where j: "j = (n, s)" by fastforce
  show ?thesis using assms unfolding j by (cases s) (auto intro: owner_step.intros)
qed

lemma perform_steps: "(owner_step True)\<^sup>*\<^sup>* w (perform a w)"
proof (cases a)
  case (Client q)
  then show ?thesis by (auto intro: owner_step.enqueue)
next
  case (Task k t)
  then show ?thesis by (auto intro: task_step_step)
qed (auto intro: owner_step.intros)

lemma perform_all: "(owner_step True)\<^sup>*\<^sup>* w (fold perform as w)"
proof (induction "as" arbitrary: w)
  case (Cons a as)
  then show ?case using rtranclp_trans [OF perform_steps [of w a]] by simp
qed simp

text \<open>
  A first attempt is still pending when the monitor takes its snapshot, then fails; the client
  repeats it. The monitor checks the entry of the failed attempt before the repeated claim commits
  and retires the reservation by its identifier afterwards.
\<close>

definition race :: "act list" where
  "race =
    [Client sample_request, Scan, Task 0 down, Task 0 down, Task 0 down, Scan_entry,
     Client sample_request, Task 1 (sample_tx 0), Task 1 (sample_tx 0), Task 0 (sample_tx 0), Task 2 (sample_tx 0),
     Task 0 (sample_tx 0), Task 0 (sample_tx 0), Task 0 (sample_tx 0),
     Client second_request, Task 0 (sample_tx 0), Task 0 (sample_tx 0)]"

text \<open>
  C16. Without that proviso the limit can be exceeded: when a client repeats a request whose first
  attempt failed while the monitor was looking at its entry, the monitor can release the repeated
  attempt's reservation under its running stream, so that a household with a limit of one stream
  has two uncancelled streams running.
\<close>

theorem repeated_request_exceeds_limit:
  "\<exists>st w. ceiling 5 st = Inr (Some 1) \<and> reservations st = []
     \<and> (owner_step True)\<^sup>*\<^sup>* (AdmissionOwner_create 1 st) w
     \<and> length (streams 5 w) = 2 \<and> filter (\<lambda>(n, s). en_cancelled (o_heap w ! n)) (streams 5 w) = []"
proof (intro exI conjI)
  let ?w = "fold perform race (AdmissionOwner_create 1 sample_store)"
  show "ceiling 5 sample_store = Inr (Some 1)" by code_simp
  show "reservations sample_store = []" by (simp add: sample_store_def)
  show "(owner_step True)\<^sup>*\<^sup>* (AdmissionOwner_create 1 sample_store) ?w" by (rule perform_all)
  show "length (streams 5 ?w) = 2" by code_simp
  show "filter (\<lambda>(n, s). en_cancelled (o_heap ?w ! n)) (streams 5 ?w) = []" by code_simp
qed

section \<open>Shutdown\<close>

lemma foldr_cancel:
  "o_gate (foldr cancel ns w) = o_gate w" "o_jobs (foldr cancel ns w) = o_jobs w"
  "length (o_heap (foldr cancel ns w)) = length (o_heap w)" "o_store (foldr cancel ns w) = o_store w"
  by (induction ns) (simp_all add: cancel_def set_entry_def)

lemma foldr_cancel_entry:
  "n \<in> set ns \<Longrightarrow> n < length (o_heap w) \<Longrightarrow> en_cancelled (o_heap (foldr cancel ns w) ! n)"
proof (induction ns)
  case (Cons m ns)
  then show ?case by (cases "m = n") (auto simp: foldr_cancel nth_list_update)
qed simp

text \<open>
  Shutdown is complete: closing cancels every stream behind the gate and from then on every
  start, renewal and maintenance is refused; and when draining reports success nothing is left
  behind the gate and nothing has failed.
\<close>

theorem shutdown_complete:
  assumes "set (entries w) \<subseteq> {..<length (o_heap w)}"
  shows "list_all (\<lambda>n. en_cancelled (o_heap (close w) ! n)) (entries (close w))
    \<and> isl (fst (enqueue env request binding (close w))) \<and> snd (enqueue env request binding (close w)) = close w
    \<and> isl (fst (queue_check env request renew (close w))) \<and> snd (queue_check env request renew (close w)) = close w
    \<and> isl (fst (enqueue_maintenance (close w)))
    \<and> (fst (drain envs v) = Inr () \<longrightarrow>
         entries (snd (drain envs v)) = [] \<and> \<not> o_failed (snd (drain envs v)) \<and> \<not> o_lost (snd (drain envs v)))"
proof -
  have e: "entries (close w) = entries w" by (simp add: close_def entries_def foldr_cancel)
  have c: "o_closed (close w)" by (simp add: close_def)
  have "list_all (\<lambda>n. en_cancelled (o_heap (close w) ! n)) (entries (close w))"
    using assms unfolding e by (auto simp: list_all_iff close_def intro!: foldr_cancel_entry)
  moreover have "isl (fst (enqueue env request binding (close w)))" "snd (enqueue env request binding (close w)) = close w"
    by (simp_all add: enqueue_def c split: sum.splits)
  moreover have "isl (fst (queue_check env request renew (close w)))" "snd (queue_check env request renew (close w)) = close w"
    by (simp_all add: queue_check_def c)
  moreover have "isl (fst (enqueue_maintenance (close w)))" by (simp add: enqueue_maintenance_def c)
  moreover have "entries (snd (drain envs v)) = [] \<and> \<not> o_failed (snd (drain envs v)) \<and> \<not> o_lost (snd (drain envs v))"
    if "fst (drain envs v) = Inr ()"
    using that by (auto simp: drain_def Let_def split: if_splits)
  ultimately show ?thesis by blast
qed

theorem shutdown_complete_witness:
  "entries (close started) = [0] \<and> en_cancelled (o_heap (close started) ! 0)
    \<and> isl (fst (enqueue sample_ledger second_request None (close started)))
    \<and> fst (drain (\<lambda>_. (sample_ledger, sample_tx 0)) (AdmissionOwner_create 1 sample_store)) = Inr ()"
proof -
  have "set (entries started) \<subseteq> {..<length (o_heap started)}" by code_simp
  note s = shutdown_complete [OF this]
  have e: "entries (close started) = [0]" by code_simp
  from s e have "en_cancelled (o_heap (close started) ! 0)" by (metis list.pred_inject(2))
  moreover have "isl (fst (enqueue sample_ledger second_request None (close started)))" using s by blast
  moreover have "fst (drain (\<lambda>_. (sample_ledger, sample_tx 0)) (AdmissionOwner_create 1 sample_store)) = Inr ()"
    by code_simp
  ultimately show ?thesis using e by blast
qed

end
