(* ===== verification/Event_Bus.thy ===== *)
theory Event_Bus
  imports Json
begin

text \<open>
  services/event_bus.rs: one channel per user with a bounded ring of recent events for replay, a
  count of open connections against a limit, and the type filter of a subscription. The channels
  are a map from users; the broadcast channel of tokio enters as the number of its live receivers,
  which decides what \<open>publish\<close> returns. Metrics are left out.
\<close>

definition RING_BUFFER_CAPACITY :: nat where
  "RING_BUFFER_CAPACITY = 100"

definition DEFAULT_MAX_CONNECTIONS_PER_USER :: u32 where
  "DEFAULT_MAX_CONNECTIONS_PER_USER = 5"

record ServerEvent =
  ev_id :: uuid
  event_type :: string
  payload :: json

record UserChannel =
  receivers :: nat
  ring :: "ServerEvent list"
  connections :: u32

record EventBus =
  channels :: "uuid \<rightharpoonup> UserChannel"
  max_connections_per_user :: u32

record ConnectionLimitReached =
  lim_user_id :: uuid
  lim_current :: u32
  lim_limit :: u32

definition UserChannel_new :: UserChannel where
  "UserChannel_new = \<lparr>receivers = 0, ring = [], connections = 0\<rparr>"

definition EventBus_new :: "u32 \<Rightarrow> EventBus" where
  "EventBus_new max_connections = \<lparr>channels = Map.empty, max_connections_per_user = max_connections\<rparr>"

definition with_default_limit :: EventBus where
  "with_default_limit = EventBus_new DEFAULT_MAX_CONNECTIONS_PER_USER"

text \<open>Get-or-create: the channel, and the bus that has it.\<close>

definition channel_for :: "uuid \<Rightarrow> EventBus \<Rightarrow> UserChannel \<times> EventBus" where
  "channel_for user bus =
     (case channels bus user of
        Some c \<Rightarrow> (c, bus)
      | None \<Rightarrow> (UserChannel_new, bus\<lparr>channels := (channels bus)(user \<mapsto> UserChannel_new)\<rparr>))"

definition set_channel :: "uuid \<Rightarrow> UserChannel \<Rightarrow> EventBus \<Rightarrow> EventBus" where
  "set_channel user c bus = bus\<lparr>channels := (channels bus)(user \<mapsto> c)\<rparr>"

definition ring_push :: "ServerEvent \<Rightarrow> ServerEvent list \<Rightarrow> ServerEvent list" where
  "ring_push event r = (if length r \<ge> RING_BUFFER_CAPACITY then tl r else r) @ [event]"

definition publish :: "uuid \<Rightarrow> ServerEvent \<Rightarrow> EventBus \<Rightarrow> bool \<times> EventBus" where
  "publish user event bus =
     (let (channel, bus1) = channel_for user bus
      in (0 < receivers channel, set_channel user (channel\<lparr>ring := ring_push event (ring channel)\<rparr>) bus1))"

definition subscribe :: "uuid \<Rightarrow> EventBus \<Rightarrow> EventBus" where
  "subscribe user bus =
     (let (channel, bus1) = channel_for user bus
      in set_channel user (channel\<lparr>receivers := Suc (receivers channel)\<rparr>) bus1)"

fun replay_loop :: "uuid \<Rightarrow> bool \<Rightarrow> ServerEvent list \<Rightarrow> ServerEvent list \<Rightarrow> bool \<times> ServerEvent list" where
  "replay_loop last_id seen out [] = (seen, out)"
| "replay_loop last_id seen out (event # rest) =
     (if seen then replay_loop last_id seen (out @ [event]) rest
      else if ev_id event = last_id then replay_loop last_id True out rest
      else replay_loop last_id seen out rest)"

definition replay_after :: "uuid \<Rightarrow> uuid \<Rightarrow> EventBus \<Rightarrow> ServerEvent list \<times> EventBus" where
  "replay_after user last_event_id bus =
     (let (channel, bus1) = channel_for user bus;
          (seen, out) = replay_loop last_event_id False [] (ring channel)
      in (if \<not> seen then ring channel else out, bus1))"

text \<open>
  \<open>register_connection\<close> is a fetch-and-add, then, on an excess, a fetch-and-subtract; between the
  two other threads run.
\<close>

definition register_begin :: "uuid \<Rightarrow> EventBus \<Rightarrow> u32 \<times> EventBus" where
  "register_begin user bus =
     (let (channel, bus1) = channel_for user bus
      in (connections channel, set_channel user (channel\<lparr>connections := connections channel + 1\<rparr>) bus1))"

definition connection_sub :: "uuid \<Rightarrow> EventBus \<Rightarrow> EventBus" where
  "connection_sub user bus =
     (case channels bus user of
        Some channel \<Rightarrow> set_channel user (channel\<lparr>connections := connections channel - 1\<rparr>) bus
      | None \<Rightarrow> bus)"

definition register_end ::
  "uuid \<Rightarrow> u32 \<Rightarrow> EventBus \<Rightarrow> (ConnectionLimitReached + unit) \<times> EventBus" where
  "register_end user prev bus =
     (if prev + 1 > max_connections_per_user bus
      then (Inl \<lparr>lim_user_id = user, lim_current = prev, lim_limit = max_connections_per_user bus\<rparr>,
            connection_sub user bus)
      else (Inr (), bus))"

definition register_connection ::
  "uuid \<Rightarrow> EventBus \<Rightarrow> (ConnectionLimitReached + unit) \<times> EventBus" where
  "register_connection user bus =
     (let (prev, bus1) = register_begin user bus in register_end user prev bus1)"

definition ConnectionGuard_drop :: "uuid \<Rightarrow> EventBus \<Rightarrow> EventBus" where
  "ConnectionGuard_drop user bus = connection_sub user bus"

definition connection_count :: "uuid \<Rightarrow> EventBus \<Rightarrow> u32" where
  "connection_count user bus = (case channels bus user of Some c \<Rightarrow> connections c | None \<Rightarrow> 0)"

definition parse_type_filter :: "string option \<Rightarrow> string set option" where
  "parse_type_filter types_param =
     (case types_param of
        None \<Rightarrow> None
      | Some p \<Rightarrow>
          (let raw = trim p in
           if raw = [] then None
           else let s = set (filter (\<lambda>t. t \<noteq> []) (map trim (split_on CHR '','' raw)))
                in if s = {} then None else Some s))"

definition matches_filter :: "string \<Rightarrow> string set option \<Rightarrow> bool" where
  "matches_filter etype flt = (case flt of None \<Rightarrow> True | Some s \<Rightarrow> etype \<in> s)"

section \<open>Replay\<close>

definition ring_of :: "uuid \<Rightarrow> EventBus \<Rightarrow> ServerEvent list" where
  "ring_of user bus = (case channels bus user of Some c \<Rightarrow> ring c | None \<Rightarrow> [])"

fun publish_all :: "uuid \<Rightarrow> ServerEvent list \<Rightarrow> EventBus \<Rightarrow> EventBus" where
  "publish_all user [] bus = bus"
| "publish_all user (e # es) bus = publish_all user es (snd (publish user e bus))"

lemma channel_for_ring: "ring (fst (channel_for user bus)) = ring_of user bus"
  by (simp add: channel_for_def ring_of_def UserChannel_new_def split: option.splits)

lemma channel_for_other: "u \<noteq> user \<Longrightarrow> channels (snd (channel_for user bus)) u = channels bus u"
  by (simp add: channel_for_def split: option.splits)

lemma publish_ring:
  "ring_of user (snd (publish user e bus)) = ring_push e (ring_of user bus)"
  "u \<noteq> user \<Longrightarrow> ring_of u (snd (publish user e bus)) = ring_of u bus"
  using channel_for_ring [of user bus] channel_for_other [of u user bus]
  by (simp_all add: publish_def set_channel_def ring_of_def case_prod_beta Let_def)

text \<open>The last events of a list, as many as the ring holds.\<close>

definition recent :: "ServerEvent list \<Rightarrow> ServerEvent list" where
  "recent es = drop (length es - RING_BUFFER_CAPACITY) es"

lemma ring_push_recent: "ring_push e (recent es) = recent (es @ [e])"
proof (cases "length es < RING_BUFFER_CAPACITY")
  case False
  have "tl (drop n es) = drop (Suc n) es" for n by (simp add: drop_Suc tl_drop)
  moreover have "Suc (length es - 100) = length es - 99" using False by (simp add: RING_BUFFER_CAPACITY_def)
  ultimately show ?thesis using False by (simp add: ring_push_def recent_def RING_BUFFER_CAPACITY_def)
qed (simp add: ring_push_def recent_def)

lemma publish_all_ring:
  "ring_of user bus = recent old \<Longrightarrow> ring_of user (publish_all user es bus) = recent (old @ es)"
proof (induction es arbitrary: old bus)
  case (Cons e es)
  then have "ring_of user (snd (publish user e bus)) = recent (old @ [e])"
    by (simp add: publish_ring ring_push_recent)
  from Cons.IH [OF this] show ?case by simp
qed simp

lemma replay_loop_seen: "replay_loop i True out es = (True, out @ es)"
  by (induction es arbitrary: out) auto

lemma replay_loop_skip:
  "i \<notin> ev_id ` set pre \<Longrightarrow> replay_loop i False out (pre @ es) = replay_loop i False out es"
  by (induction pre) auto

lemma replay_after_fst:
  "fst (replay_after user i bus) =
     (let (seen, out) = replay_loop i False [] (ring_of user bus) in if seen then out else ring_of user bus)"
  using channel_for_ring [of user bus]
  by (simp add: replay_after_def case_prod_beta Let_def)

text \<open>
  C9. A client that reconnects misses nothing within the window: after any publications to a user,
  replaying from the identifier of an event that fewer than one hundred events followed returns
  exactly the events published after it, in order; from an unknown identifier it returns the
  whole window.
\<close>

theorem replay_returns_missed_events:
  assumes "ring_of user bus = []" and "length post < RING_BUFFER_CAPACITY"
    and "ev_id e \<notin> ev_id ` set pre"
  shows "fst (replay_after user (ev_id e) (publish_all user (pre @ e # post) bus)) = post
    \<and> (\<forall>i. i \<notin> ev_id ` set (pre @ e # post) \<longrightarrow>
         fst (replay_after user i (publish_all user (pre @ e # post) bus)) = recent (pre @ e # post))"
proof
  let ?bus = "publish_all user (pre @ e # post) bus"
  have r: "ring_of user ?bus = recent (pre @ e # post)"
    using publish_all_ring [of user bus "[]"] assms(1) by (simp add: recent_def)
  define k where "k = Suc (length pre + length post) - RING_BUFFER_CAPACITY"
  have "k \<le> length pre" using assms(2) by (simp add: k_def)
  then have w: "recent (pre @ e # post) = drop k pre @ e # post" by (simp add: recent_def k_def)
  have "ev_id e \<notin> ev_id ` set (drop k pre)" using assms(3) by (auto dest: in_set_dropD)
  then have "replay_loop (ev_id e) False [] (drop k pre @ e # post) = (True, post)"
    by (simp add: replay_loop_skip replay_loop_seen)
  then show "fst (replay_after user (ev_id e) ?bus) = post"
    by (simp add: replay_after_fst r w)
  show "\<forall>i. i \<notin> ev_id ` set (pre @ e # post) \<longrightarrow> fst (replay_after user i ?bus) = recent (pre @ e # post)"
  proof (intro allI impI)
    fix i
    assume "i \<notin> ev_id ` set (pre @ e # post)"
    then have "i \<notin> ev_id ` set (recent (pre @ e # post))"
      unfolding recent_def using set_drop_subset [of _ "pre @ e # post"] by blast
    then have "replay_loop i False [] (recent (pre @ e # post)) = (False, [])"
      using replay_loop_skip [of i "recent (pre @ e # post)" "[]" "[]"] by simp
    then show "fst (replay_after user i ?bus) = recent (pre @ e # post)"
      by (simp add: replay_after_fst r)
  qed
qed

definition sample_event :: "uuid \<Rightarrow> ServerEvent" where
  "sample_event i = \<lparr>ev_id = i, event_type = ''scan_progress'', payload = JNull\<rparr>"

theorem replay_returns_missed_events_witness:
  "fst (replay_after 7 2 (publish_all 7 [sample_event 1, sample_event 2, sample_event 3] with_default_limit))
     = [sample_event 3]"
  using replay_returns_missed_events [of 7 with_default_limit "[sample_event 3]" "sample_event 2" "[sample_event 1]"]
  by (simp add: ring_of_def with_default_limit_def EventBus_new_def RING_BUFFER_CAPACITY_def sample_event_def)

section \<open>The connection limit under concurrency\<close>

text \<open>
  \<open>pending\<close> are the threads between the two halves of \<open>register_connection\<close> for the user, with
  the count each of them read, \<open>guards\<close> the open connections.
\<close>

record conn_state =
  bus :: EventBus
  pending :: "u32 list"
  guards :: nat

inductive conn_step :: "uuid \<Rightarrow> conn_state \<Rightarrow> conn_state \<Rightarrow> bool" for user :: uuid where
  enter: "register_begin user (bus s) = (prev, b) \<Longrightarrow> Suc (length (pending s) + guards s) < 2 ^ 32
    \<Longrightarrow> conn_step user s (s\<lparr>bus := b, pending := prev # pending s\<rparr>)"
| accept: "prev \<in> set (pending s) \<Longrightarrow> register_end user prev (bus s) = (Inr (), b)
    \<Longrightarrow> conn_step user s (s\<lparr>bus := b, pending := remove1 prev (pending s), guards := Suc (guards s)\<rparr>)"
| reject: "prev \<in> set (pending s) \<Longrightarrow> register_end user prev (bus s) = (Inl e, b)
    \<Longrightarrow> conn_step user s (s\<lparr>bus := b, pending := remove1 prev (pending s)\<rparr>)"
| disconnect: "0 < guards s
    \<Longrightarrow> conn_step user s (s\<lparr>bus := ConnectionGuard_drop user (bus s), guards := guards s - 1\<rparr>)"
| other: "user' \<noteq> user \<Longrightarrow> conn_step user s (s\<lparr>bus := snd (register_connection user' (bus s))\<rparr>)"
| publish: "conn_step user s (s\<lparr>bus := snd (publish user' e (bus s))\<rparr>)"

definition limit_of :: "conn_state \<Rightarrow> u32" where
  "limit_of s = max_connections_per_user (bus s)"

definition conn_inv :: "uuid \<Rightarrow> u32 \<Rightarrow> conn_state \<Rightarrow> bool" where
  "conn_inv user limit s \<longleftrightarrow>
     limit_of s = limit
     \<and> unat (connection_count user (bus s)) = length (pending s) + guards s
     \<and> guards s + length (filter (\<lambda>p. p + 1 \<le> limit) (pending s)) \<le> unat limit"

lemma channel_for_count [simp]:
  "connections (fst (channel_for user b)) = connection_count user b"
  "connection_count u (snd (channel_for user b)) = connection_count u b"
  "max_connections_per_user (snd (channel_for user b)) = max_connections_per_user b"
  by (auto simp: channel_for_def connection_count_def UserChannel_new_def split: option.splits)

lemma set_channel_count [simp]:
  "connection_count u (set_channel user c b) = (if u = user then connections c else connection_count u b)"
  "max_connections_per_user (set_channel user c b) = max_connections_per_user b"
  by (simp_all add: set_channel_def connection_count_def)

lemma register_begin_count:
  assumes "register_begin user b = (prev, b')"
  shows "prev = connection_count user b"
    and "connection_count u b' = (if u = user then connection_count u b + 1 else connection_count u b)"
    and "max_connections_per_user b' = max_connections_per_user b"
  using assms by (auto simp: register_begin_def case_prod_beta Let_def)

lemma connection_sub_count:
  "connection_count u (connection_sub user b) =
     (if u = user \<and> channels b user \<noteq> None then connection_count u b - 1 else connection_count u b)"
  "max_connections_per_user (connection_sub user b) = max_connections_per_user b"
  by (auto simp: connection_sub_def connection_count_def set_channel_def split: option.splits)

lemma register_end_count:
  assumes "register_end user prev b = (r, b')"
  shows "max_connections_per_user b' = max_connections_per_user b"
    and "u \<noteq> user \<Longrightarrow> connection_count u b' = connection_count u b"
    and "r = Inr () \<Longrightarrow> b' = b \<and> prev + 1 \<le> max_connections_per_user b"
    and "isl r \<Longrightarrow> b' = connection_sub user b \<and> \<not> prev + 1 \<le> max_connections_per_user b"
  using assms by (auto simp: register_end_def connection_sub_count split: if_splits)

lemma connection_count_pos: "0 < unat (connection_count user b) \<Longrightarrow> channels b user \<noteq> None"
  by (auto simp: connection_count_def split: option.splits)

lemma unat_pred: "0 < unat (x :: u32) \<Longrightarrow> unat (x - 1) = unat x - 1"
  by (metis unat_minus_one unat_gt_0 word_neq_0_conv)

lemma length_remove1_filter:
  "p \<in> set xs \<Longrightarrow> length (filter P (remove1 p xs)) = length (filter P xs) - (if P p then 1 else 0)"
  by (simp add: filter_remove1 length_remove1 remove1_idem)

lemma conn_inv_step:
  assumes "conn_step user s s'" "conn_inv user limit s"
  shows "conn_inv user limit s'"
  using assms
proof (induction rule: conn_step.induct)
  case (enter s prev b)
  note c = register_begin_count [OF enter(1)]
  note h = enter(3) [unfolded conn_inv_def limit_of_def]
  have "unat prev = length (pending s) + guards s" using h c(1) by simp
  then have "unat (prev + 1) = Suc (length (pending s) + guards s)"
    using enter(2) by (simp add: unat_word_ariths)
  then have "prev + 1 \<le> limit \<Longrightarrow> Suc (length (pending s) + guards s) \<le> unat limit"
    by (simp only: word_le_nat_alt)
  moreover define a where "a = length (filter (\<lambda>p. p + 1 \<le> limit) (pending s))"
  moreover have "a \<le> length (pending s)" by (simp add: a_def)
  ultimately show ?case
    using h c \<open>unat (prev + 1) = _\<close> by (auto simp: conn_inv_def limit_of_def simp flip: a_def)
next
  case (accept prev s b)
  note c = register_end_count [OF accept(2)]
  note h = accept(3) [unfolded conn_inv_def limit_of_def]
  have p: "prev + 1 \<le> limit" using c(3) h by auto
  then have "filter (\<lambda>p. p + 1 \<le> limit) (pending s) \<noteq> []"
    using accept(1) by (auto simp: filter_empty_conv)
  then obtain a where a: "length (filter (\<lambda>p. p + 1 \<le> limit) (pending s)) = Suc a"
    by (cases "filter (\<lambda>p. p + 1 \<le> limit) (pending s)") auto
  moreover obtain n where "length (pending s) = Suc n" using accept(1) by (cases "pending s") auto
  ultimately show ?case
    using h c(3) p accept(1)
    by (simp add: conn_inv_def limit_of_def length_remove1_filter length_remove1)
next
  case (reject prev s e b)
  note c = register_end_count [OF reject(2)]
  note h = reject(3) [unfolded conn_inv_def limit_of_def]
  have p: "\<not> prev + 1 \<le> limit" and b: "b = connection_sub user (bus s)" using c(4) h by auto
  obtain n where n: "length (pending s) = Suc n" using reject(1) by (cases "pending s") auto
  then have "0 < unat (connection_count user (bus s))" using h by simp
  then show ?case
    using h p n reject(1) connection_count_pos [of user "bus s"]
    by (simp add: conn_inv_def limit_of_def length_remove1_filter length_remove1 b connection_sub_count unat_pred)
next
  case (disconnect s)
  note h = disconnect(2) [unfolded conn_inv_def limit_of_def]
  obtain n where n: "guards s = Suc n" using disconnect(1) by (cases "guards s") auto
  have "0 < unat (connection_count user (bus s))" using h n by simp
  then show ?case
    using h n connection_count_pos [of user "bus s"]
    by (simp add: conn_inv_def limit_of_def ConnectionGuard_drop_def connection_sub_count unat_pred)
next
  case (other user' s)
  obtain prev b where b: "register_begin user' (bus s) = (prev, b)" by fastforce
  obtain r b' where b': "register_end user' prev b = (r, b')" by fastforce
  have "snd (register_connection user' (bus s)) = b'" by (simp add: register_connection_def b b')
  with other register_begin_count [OF b] register_end_count(1,2) [OF b'] show ?case
    by (simp add: conn_inv_def limit_of_def)
next
  case (publish s user' e)
  then show ?case
    by (auto simp: conn_inv_def limit_of_def publish_def case_prod_beta Let_def)
qed

definition conn_initial :: "EventBus \<Rightarrow> conn_state" where
  "conn_initial b = \<lparr>bus = b, pending = [], guards = 0\<rparr>"

text \<open>
  C40. A user never has more open connections than the limit, in every interleaving of the two
  atomic halves of registration, disconnections, publications and the connections of other users.
\<close>

theorem connection_limit_respected:
  assumes "(conn_step user)\<^sup>*\<^sup>* (conn_initial (EventBus_new limit)) s"
  shows "guards s \<le> unat limit \<and> guards s \<le> unat (connection_count user (bus s))"
proof -
  from assms have "conn_inv user limit s"
  proof (induction rule: rtranclp_induct)
    case base
    then show ?case
      by (simp add: conn_inv_def limit_of_def conn_initial_def EventBus_new_def connection_count_def)
  qed (auto intro: conn_inv_step)
  then show ?thesis by (simp add: conn_inv_def)
qed

theorem connection_limit_respected_witness:
  "\<exists>s. (conn_step 7)\<^sup>*\<^sup>* (conn_initial (EventBus_new 5)) s \<and> guards s = 1 \<and> guards s \<le> unat (5 :: u32)"
proof -
  let ?s0 = "conn_initial (EventBus_new 5)"
  obtain b where b: "register_begin 7 (EventBus_new 5) = (0, b)" "max_connections_per_user b = 5"
    using register_begin_count [of 7 "EventBus_new 5"]
    by (metis (mono_tags, lifting) EventBus.select_convs EventBus_new_def connection_count_def
        option.simps(4) surj_pair)
  let ?s1 = "?s0\<lparr>bus := b, pending := [0]\<rparr>"
  let ?s2 = "?s1\<lparr>bus := b, pending := remove1 0 (pending ?s1), guards := Suc (guards ?s1)\<rparr>"
  have "conn_step 7 ?s0 (?s0\<lparr>bus := b, pending := 0 # pending ?s0\<rparr>)"
    by (rule conn_step.enter) (use b in \<open>simp_all add: conn_initial_def\<close>)
  then have "conn_step 7 ?s0 ?s1" by (simp add: conn_initial_def)
  moreover have "conn_step 7 ?s1 ?s2"
    by (rule conn_step.accept) (use b in \<open>simp_all add: register_end_def\<close>)
  ultimately have "(conn_step 7)\<^sup>*\<^sup>* ?s0 ?s2" by (meson converse_rtranclp_into_rtranclp r_into_rtranclp)
  moreover have "guards ?s2 = 1" by (simp add: conn_initial_def)
  ultimately show ?thesis using connection_limit_respected by blast
qed

section \<open>Type filters\<close>

text \<open>
  A subscription with a type filter receives exactly the events whose type is one of the
  trimmed, non-empty names of the comma-separated list; a list without names filters nothing.
\<close>

theorem type_filter_semantics:
  "matches_filter t (parse_type_filter p) \<longleftrightarrow>
     (case p of
        None \<Rightarrow> True
      | Some raw \<Rightarrow>
          (let names = filter (\<lambda>x. x \<noteq> []) (map trim (split_on CHR '','' (trim raw)))
           in names = [] \<or> t \<in> set names))"
proof -
  have "trim [] = []" by (simp add: dusk_eval)
  then show ?thesis
    by (auto simp: matches_filter_def parse_type_filter_def Let_def filter_empty_conv split: option.splits)
qed

end
