(* ===== verification/Storyboards.thy ===== *)
theory Storyboards
  imports Prelude
begin

text \<open>
  services/storyboards.rs: the layout of seek-bar thumbnails over sprite sheets, the WebVTT index
  that points into them, and the file names of the sheets with the check that guards the route
  serving them. Arithmetic is in the widths of the code (\<open>u32\<close>, the index in \<open>u64\<close>). Running
  FFmpeg is outside the model.
\<close>

definition saturating_mul :: "u32 \<Rightarrow> u32 \<Rightarrow> u32" where
  "saturating_mul a b = (if unat a * unat b < 2 ^ 32 then a * b else - 1)"

definition div_ceil :: "u32 \<Rightarrow> u32 \<Rightarrow> u32" where
  "div_ceil a b = (if a mod b > 0 then a div b + 1 else a div b)"

record GenerationConfig =
  g_width :: u32
  g_interval_seconds :: u32
  g_quality :: u32
  g_keyframe_only :: bool
  g_sprite_columns :: u32
  g_sprite_rows :: u32

definition GenerationConfig_default :: GenerationConfig where
  "GenerationConfig_default = \<lparr>g_width = 320, g_interval_seconds = 10, g_quality = 75,
     g_keyframe_only = True, g_sprite_columns = 10, g_sprite_rows = 20\<rparr>"

definition GenerationConfig_thumbnails_per_sheet :: "GenerationConfig \<Rightarrow> u32" where
  "GenerationConfig_thumbnails_per_sheet g = saturating_mul (g_sprite_columns g) (g_sprite_rows g)"

definition GenerationConfig_validate :: "GenerationConfig \<Rightarrow> string + unit" where
  "GenerationConfig_validate g =
     (if g_width g \<notin> {160, 320, 640}
      then Inl (''storyboard width must be 160, 320, or 640 (got '' @ show_u (g_width g) @ '')'')
      else if \<not> (2 \<le> g_interval_seconds g \<and> g_interval_seconds g \<le> 120)
      then Inl (''storyboard interval must be 2-120 seconds (got '' @ show_u (g_interval_seconds g) @ '')'')
      else if \<not> (50 \<le> g_quality g \<and> g_quality g \<le> 100)
      then Inl (''storyboard quality must be 50-100 (got '' @ show_u (g_quality g) @ '')'')
      else if \<not> (1 \<le> g_sprite_columns g \<and> g_sprite_columns g \<le> 20)
              \<or> \<not> (1 \<le> g_sprite_rows g \<and> g_sprite_rows g \<le> 40)
      then Inl (''sprite columns/rows must be 1-20 by 1-40 (got '' @ show_u (g_sprite_columns g) @ ''x'' @
                show_u (g_sprite_rows g) @ '')'')
      else Inr ())"

record SpriteLayout =
  total_thumbnails :: u32
  full_sheets :: u32
  last_sheet_thumbnails :: u32
  total_sheets :: u32
  thumbnails_per_sheet :: u32

definition thumbnails_in_sheet :: "SpriteLayout \<Rightarrow> u32 \<Rightarrow> u32" where
  "thumbnails_in_sheet l index =
     (if last_sheet_thumbnails l = 0 \<or> index < full_sheets l then thumbnails_per_sheet l
      else last_sheet_thumbnails l)"

definition is_last_sheet :: "SpriteLayout \<Rightarrow> u32 \<Rightarrow> bool" where
  "is_last_sheet l index \<longleftrightarrow> last_sheet_thumbnails l > 0 \<and> index = full_sheets l"

definition adaptive_interval :: "u32 \<Rightarrow> u32" where
  "adaptive_interval duration_seconds =
     (if duration_seconds \<le> 1800 then 5 else if duration_seconds \<le> 7200 then 10 else 15)"

definition compute_sprite_layout :: "u32 \<Rightarrow> u32 \<Rightarrow> u32 \<Rightarrow> u32 \<Rightarrow> SpriteLayout" where
  "compute_sprite_layout duration_seconds interval_seconds columns rows =
     (let interval = max interval_seconds 1;
          per_sheet = max (saturating_mul columns rows) 1;
          total = (if duration_seconds = 0 then 1 else div_ceil duration_seconds interval);
          full = total div per_sheet;
          last = total mod per_sheet;
          sheets = full + (if last > 0 then 1 else 0)
      in \<lparr>total_thumbnails = total, full_sheets = full, last_sheet_thumbnails = last,
          total_sheets = max sheets 1, thumbnails_per_sheet = per_sheet\<rparr>)"

section \<open>The index\<close>

definition format_timecode_secs :: "u64 \<Rightarrow> string" where
  "format_timecode_secs total_secs =
     (let millis = total_secs * 1000;
          h = millis div 3600000; m = (millis mod 3600000) div 60000;
          s = (millis mod 60000) div 1000; ms = millis mod 1000
      in pad 2 (show_u h) @ '':'' @ pad 2 (show_u m) @ '':'' @ pad 2 (show_u s) @ ''.'' @ pad 3 (show_u ms))"

record cue =
  cue_start :: u64
  cue_end :: u64
  cue_sheet :: u32
  cue_col :: u64
  cue_row :: u64

definition cue_of :: "SpriteLayout \<Rightarrow> u32 \<Rightarrow> u32 \<Rightarrow> u32 \<Rightarrow> u64 \<Rightarrow> cue" where
  "cue_of layout interval_seconds duration_seconds columns i =
     (let interval = ucast (max interval_seconds 1) :: u64;
          cols = ucast (max columns 1) :: u64;
          per = ucast (max (thumbnails_per_sheet layout) 1) :: u64;
          total = ucast (total_thumbnails layout) :: u64;
          index_in_sheet = ucast (i mod per) :: u32
      in \<lparr>cue_start = i * interval,
          cue_end = (if i + 1 = total then max (ucast duration_seconds) ((i + 1) * interval)
                     else (i + 1) * interval),
          cue_sheet = ucast (i div per),
          cue_col = ucast index_in_sheet mod cols,
          cue_row = ucast index_in_sheet div cols\<rparr>)"

definition render_cue :: "(u32 \<Rightarrow> string) \<Rightarrow> u32 \<Rightarrow> u32 \<Rightarrow> cue \<Rightarrow> string" where
  "render_cue sprite_url_for width height c =
     (let w = ucast width :: u64; h = ucast height :: u64
      in format_timecode_secs (cue_start c) @ '' --> '' @ format_timecode_secs (cue_end c) @ [CHR 0x0A] @
         sprite_url_for (cue_sheet c) @ ''#xywh='' @ show_u (cue_col c * w) @ '','' @
         show_u (cue_row c * h) @ '','' @ show_u w @ '','' @ show_u h @ [CHR 0x0A, CHR 0x0A])"

definition index_cues :: "SpriteLayout \<Rightarrow> u32 \<Rightarrow> u32 \<Rightarrow> u32 \<Rightarrow> cue list" where
  "index_cues layout interval_seconds duration_seconds columns =
     map (\<lambda>i. cue_of layout interval_seconds duration_seconds columns (word_of_nat i))
       [0..<unat (total_thumbnails layout)]"

definition build_webvtt_index ::
  "SpriteLayout \<Rightarrow> u32 \<Rightarrow> u32 \<Rightarrow> u32 \<Rightarrow> u32 \<Rightarrow> u32 \<Rightarrow> (u32 \<Rightarrow> string) \<Rightarrow> string" where
  "build_webvtt_index layout interval_seconds duration_seconds width height columns sprite_url_for =
     ''WEBVTT'' @ [CHR 0x0A, CHR 0x0A] @
     concat (map (render_cue sprite_url_for width height)
       (index_cues layout interval_seconds duration_seconds columns))"

section \<open>File names\<close>

definition strip_suffix :: "string \<Rightarrow> string \<Rightarrow> string option" where
  "strip_suffix suf s = map_option rev (strip_prefix (rev suf) (rev s))"

definition validate_sprite_filename :: "string \<Rightarrow> string + u32" where
  "validate_sprite_filename name =
     (if name = [] then Inl ''empty sprite filename''
      else if CHR ''/'' \<in> set name \<or> CHR 0x5C \<in> set name
      then Inl (''sprite filename contains path separator: '' @ name)
      else if sublist ''..'' name then Inl (''sprite filename contains parent reference: '' @ name)
      else case strip_suffix ''.webp'' name of
          None \<Rightarrow> Inl (''sprite filename must end in .webp: '' @ name)
        | Some stem \<Rightarrow>
            (case strip_prefix ''sprite_'' stem of
               None \<Rightarrow> Inl (''sprite filename must start with '' @ [CHR 0x27] @ ''sprite_'' @ [CHR 0x27] @ '': '' @ name)
             | Some number_str \<Rightarrow>
                 if number_str = [] \<or> length number_str > 4
                 then Inl (''sprite number must be 1-4 digits: '' @ name)
                 else if \<not> list_all is_digit number_str
                 then Inl (''sprite number must be ASCII digits: '' @ name)
                 else (let n = nat_of_digits number_str
                       in if n \<ge> 2 ^ 32 then Inl (''sprite number out of range: '' @ name)
                          else if n = 0 then Inl (''sprite number must be 1-based: '' @ name)
                          else Inr (word_of_nat n))))"

definition sprite_filename :: "u32 \<Rightarrow> string" where
  "sprite_filename sheet_index = ''sprite_'' @ pad 3 (show_u (sheet_index + 1)) @ ''.webp''"

section \<open>The layout covers the content\<close>

lemma unat_max: "unat (max a b :: 'a::len word) = max (unat a) (unat b)"
  by (simp add: max_def word_le_nat_alt)

lemma u32_lt: "unat (a :: u32) < 4294967296"
  using unsigned_less [of a] by simp

lemma unat_ucast_u64 [simp]: "unat (ucast (x :: u32) :: u64) = unat x"
proof -
  have "unat x < 2 ^ 64" using u32_lt [of x] by simp
  then show ?thesis by (simp add: unsigned_ucast_eq take_bit_nat_eq_self)
qed

lemma unat_div_ceil:
  assumes "0 < unat b"
  shows "unat (div_ceil a b) = unat a div unat b + (if unat a mod unat b > 0 then 1 else 0)"
proof (cases "a mod b > 0")
  case True
  have m: "0 < unat a mod unat b" using True by (simp add: word_less_nat_alt unat_mod)
  have "unat a div unat b * 1 \<le> unat a div unat b * unat b" using assms by (intro mult_le_mono2) simp
  then have "unat a div unat b + 1 \<le> unat a"
    using m div_mult_mod_eq [of "unat a" "unat b"] by linarith
  then have "unat a div unat b + 1 < 4294967296" using u32_lt [of a] by simp
  then have "unat (a div b + 1) = unat a div unat b + 1"
    by (simp add: unat_word_ariths unat_div)
  with True m show ?thesis by (simp add: div_ceil_def)
next
  case False
  then show ?thesis by (simp add: div_ceil_def word_less_nat_alt unat_mod unat_div)
qed

lemma ceil_bounds:
  fixes d b :: nat
  assumes "0 < b" and "0 < d"
  defines "n \<equiv> d div b + (if d mod b > 0 then 1 else 0)"
  shows "(n - 1) * b < d \<and> d \<le> n * b \<and> 1 \<le> n"
proof -
  define q r where qr: "q = d div b" "r = d mod b"
  have d: "d = q * b + r" and r: "r < b" using assms by (simp_all add: qr)
  have n: "n = q + (if r > 0 then 1 else 0)" by (simp add: n_def qr)
  show ?thesis
  proof (cases "r > 0")
    case True
    then show ?thesis using d r by (simp add: n)
  next
    case False
    then have "0 < q" using d assms by (cases q) simp_all
    then show ?thesis using False d assms by (simp add: n diff_mult_distrib)
  qed
qed

definition interval_of :: "u32 \<Rightarrow> nat" where
  "interval_of interval_seconds = max (unat interval_seconds) 1"

lemma interval_of_pos: "0 < interval_of i"
  by (simp add: interval_of_def)

lemma interval_of_bound: "interval_of i < 4294967296"
  using u32_lt [of i] by (simp add: interval_of_def)

lemma layout_total:
  "unat (total_thumbnails (compute_sprite_layout d i c r)) =
     (if d = 0 then 1
      else unat d div interval_of i + (if unat d mod interval_of i > 0 then 1 else 0))"
proof -
  have i: "unat (max i 1) = interval_of i" by (simp add: unat_max interval_of_def)
  have "0 < unat (max i 1)" by (simp add: i interval_of_pos)
  from unat_div_ceil [OF this, of d] show ?thesis
    by (simp add: compute_sprite_layout_def Let_def i)
qed

lemma layout_per_sheet_pos: "0 < unat (thumbnails_per_sheet (compute_sprite_layout d i c r))"
  by (simp add: compute_sprite_layout_def Let_def unat_max)

lemma layout_sheets:
  fixes d i c r
  defines "l \<equiv> compute_sprite_layout d i c r"
  shows "unat (full_sheets l) = unat (total_thumbnails l) div unat (thumbnails_per_sheet l)"
    and "unat (last_sheet_thumbnails l) = unat (total_thumbnails l) mod unat (thumbnails_per_sheet l)"
  by (simp_all add: l_def compute_sprite_layout_def Let_def unat_div unat_mod)

lemma layout_total_pos: "1 \<le> unat (total_thumbnails (compute_sprite_layout d i c r))"
proof (cases "d = 0")
  case True
  then show ?thesis by (subst layout_total) simp
next
  case False
  then have "0 < unat d" by (simp add: unat_gt_0)
  from ceil_bounds [OF interval_of_pos this, of i] False show ?thesis
    by (subst layout_total) simp
qed

lemma layout_total_sheets:
  fixes d i c r
  defines "l \<equiv> compute_sprite_layout d i c r"
  shows "unat (total_sheets l) = unat (full_sheets l) + (if 0 < unat (last_sheet_thumbnails l) then 1 else 0)"
proof -
  define t p where tp: "t = unat (total_thumbnails l)" "p = unat (thumbnails_per_sheet l)"
  have p: "0 < p" by (simp add: tp l_def layout_per_sheet_pos)
  have f: "unat (full_sheets l) = t div p" and m: "unat (last_sheet_thumbnails l) = t mod p"
    using layout_sheets [of d i c r] by (simp_all add: l_def tp)
  have t1: "1 \<le> t" unfolding tp l_def by (rule layout_total_pos)
  have b: "t div p + 1 < 4294967296" if "0 < t mod p"
  proof -
    have "t div p * 1 \<le> t div p * p" using p by (intro mult_le_mono2) simp
    then have "t div p + 1 \<le> t" using that div_mult_mod_eq [of t p] by linarith
    then show ?thesis using u32_lt [of "total_thumbnails l"] by (simp add: tp)
  qed
  have s: "total_sheets l = max (full_sheets l + (if last_sheet_thumbnails l > 0 then 1 else 0)) 1"
    by (simp add: l_def compute_sprite_layout_def Let_def)
  have z: "last_sheet_thumbnails l > 0 \<longleftrightarrow> 0 < t mod p" using m by (simp add: word_less_nat_alt)
  show ?thesis
  proof (cases "0 < t mod p")
    case True
    have "unat (full_sheets l + 1) = t div p + 1" using b [OF True] f by (simp add: unat_word_ariths)
    then show ?thesis using True by (simp add: s z unat_max m f)
  next
    case False
    then have "1 \<le> t div p" using t1 p by (metis bot_nat_0.not_eq_extremum div_greater_zero_iff dvd_imp_le mod_eq_0_iff_dvd less_one not_le)
    then show ?thesis using False by (simp add: s z unat_max m f)
  qed
qed

lemma unat_of_nat_u32: "k < 4294967296 \<Longrightarrow> unat (word_of_nat k :: u32) = k"
  by (simp add: unat_of_nat)

lemma unat_of_nat_u64: "k < 18446744073709551616 \<Longrightarrow> unat (word_of_nat k :: u64) = k"
  by (simp add: unat_of_nat)

lemma thumbnails_in_sheet_nat:
  assumes "k < 4294967296"
  shows "unat (thumbnails_in_sheet l (word_of_nat k)) =
    (if unat (last_sheet_thumbnails l) = 0 \<or> k < unat (full_sheets l)
     then unat (thumbnails_per_sheet l) else unat (last_sheet_thumbnails l))"
  using assms by (simp add: thumbnails_in_sheet_def word_less_nat_alt unat_of_nat_u32 unat_eq_zero)

lemma sheets_sum:
  fixes d i c r
  defines "l \<equiv> compute_sprite_layout d i c r"
  shows "sum_list (map (\<lambda>k. unat (thumbnails_in_sheet l (word_of_nat k))) [0..<unat (total_sheets l)])
    = unat (total_thumbnails l)"
proof -
  define t p where tp: "t = unat (total_thumbnails l)" "p = unat (thumbnails_per_sheet l)"
  have f: "unat (full_sheets l) = t div p" and m: "unat (last_sheet_thumbnails l) = t mod p"
    using layout_sheets [of d i c r] by (simp_all add: l_def tp)
  have s: "unat (total_sheets l) = t div p + (if 0 < t mod p then 1 else 0)"
    using layout_total_sheets [of d i c r] f m by (simp add: l_def)
  have each: "unat (thumbnails_in_sheet l (word_of_nat k)) = (if t mod p = 0 \<or> k < t div p then p else t mod p)"
    if "k < unat (total_sheets l)" for k
    using thumbnails_in_sheet_nat [of k l] that u32_lt [of "total_sheets l"] by (simp add: f m tp)
  have "map (\<lambda>k. unat (thumbnails_in_sheet l (word_of_nat k))) [0..<unat (total_sheets l)]
      = map (\<lambda>k. if t mod p = 0 \<or> k < t div p then p else t mod p) [0..<unat (total_sheets l)]"
    using each by simp
  also have "sum_list \<dots> = t"
  proof (cases "t mod p = 0")
    case True
    then show ?thesis by (auto simp: s sum_list_triv)
  next
    case False
    have "map (\<lambda>k. if k < t div p then p else t mod p) [0..<t div p] = replicate (t div p) p"
      by (intro nth_equalityI) simp_all
    then show ?thesis using False by (simp add: s sum_list_replicate)
  qed
  finally show ?thesis by (simp add: tp)
qed

text \<open>
  The layout places every thumbnail: there are exactly as many as windows of the interval are
  needed to cover the content (one for an empty file), the sheets hold together exactly that many,
  none is empty or overfull, and all but the last are full.
\<close>

theorem sprite_layout_partition:
  fixes d i c r
  defines "l \<equiv> compute_sprite_layout d i c r"
  shows "(if d = 0 then total_thumbnails l = 1
       else (unat (total_thumbnails l) - 1) * max (unat i) 1 < unat d
          \<and> unat d \<le> unat (total_thumbnails l) * max (unat i) 1)
    \<and> sum_list (map (\<lambda>k. unat (thumbnails_in_sheet l (word_of_nat k))) [0..<unat (total_sheets l)])
        = unat (total_thumbnails l)
    \<and> list_all (\<lambda>k. 1 \<le> unat (thumbnails_in_sheet l (word_of_nat k))
          \<and> thumbnails_in_sheet l (word_of_nat k) \<le> thumbnails_per_sheet l
          \<and> (k + 1 = unat (total_sheets l) \<or> thumbnails_in_sheet l (word_of_nat k) = thumbnails_per_sheet l))
        [0..<unat (total_sheets l)]"
proof (intro conjI)
  show "if d = 0 then total_thumbnails l = 1
       else (unat (total_thumbnails l) - 1) * max (unat i) 1 < unat d
          \<and> unat d \<le> unat (total_thumbnails l) * max (unat i) 1"
  proof (cases "d = 0")
    case True
    then show ?thesis by (simp add: l_def compute_sprite_layout_def Let_def)
  next
    case False
    then have "0 < unat d" by (simp add: unat_gt_0)
    from ceil_bounds [OF interval_of_pos this, of i] False show ?thesis
      unfolding l_def layout_total by (simp add: interval_of_def)
  qed
  show "sum_list (map (\<lambda>k. unat (thumbnails_in_sheet l (word_of_nat k))) [0..<unat (total_sheets l)])
    = unat (total_thumbnails l)"
    unfolding l_def by (rule sheets_sum)
  have p: "0 < unat (thumbnails_per_sheet l)" by (simp add: l_def layout_per_sheet_pos)
  have m: "unat (last_sheet_thumbnails l) < unat (thumbnails_per_sheet l)"
    using layout_sheets(2) [of d i c r] p by (simp add: l_def)
  have s: "unat (total_sheets l) = unat (full_sheets l) + (if 0 < unat (last_sheet_thumbnails l) then 1 else 0)"
    unfolding l_def by (rule layout_total_sheets)
  show "list_all (\<lambda>k. 1 \<le> unat (thumbnails_in_sheet l (word_of_nat k))
          \<and> thumbnails_in_sheet l (word_of_nat k) \<le> thumbnails_per_sheet l
          \<and> (k + 1 = unat (total_sheets l) \<or> thumbnails_in_sheet l (word_of_nat k) = thumbnails_per_sheet l))
        [0..<unat (total_sheets l)]"
    unfolding list_all_iff
  proof
    fix k assume "k \<in> set [0..<unat (total_sheets l)]"
    then have k: "k < unat (total_sheets l)" by simp
    then have "k < 4294967296" using u32_lt [of "total_sheets l"] by simp
    note n = thumbnails_in_sheet_nat [OF this, of l]
    show "1 \<le> unat (thumbnails_in_sheet l (word_of_nat k))
          \<and> thumbnails_in_sheet l (word_of_nat k) \<le> thumbnails_per_sheet l
          \<and> (k + 1 = unat (total_sheets l) \<or> thumbnails_in_sheet l (word_of_nat k) = thumbnails_per_sheet l)"
      using p m k s n by (simp add: word_le_nat_alt word_unat_eq_iff split: if_splits)
  qed
qed

section \<open>The index covers the content\<close>

lemma unat_mult_u64:
  assumes "a < 4294967296" and "b \<le> 4294967296" and "unat x = b" and "unat y = a"
  shows "unat (x * y :: u64) = b * a"
proof -
  have "b * a \<le> 4294967296 * 4294967295"
    using assms(1,2) by (intro mult_le_mono) simp_all
  then show ?thesis using assms by (simp add: unat_word_ariths)
qed

lemma cue_times:
  assumes "k < unat (total_thumbnails l)"
  shows "unat (cue_start (cue_of l i d c (word_of_nat k))) = k * interval_of i"
    and "unat (cue_end (cue_of l i d c (word_of_nat k))) =
      (if k + 1 = unat (total_thumbnails l) then max (unat d) ((k + 1) * interval_of i)
       else (k + 1) * interval_of i)"
proof -
  define v :: u64 where "v = ucast (max i 1)"
  have i: "unat v = interval_of i" by (simp add: v_def unat_max interval_of_def)
  have kb: "k + 1 < 4294967296 + 1" using assms u32_lt [of "total_thumbnails l"] by simp
  have k: "unat (word_of_nat k :: u64) = k" using kb by (intro unat_of_nat_u64) simp
  have k1: "unat (word_of_nat k + 1 :: u64) = k + 1" using kb k by (simp add: unat_word_ariths)
  have m: "unat (word_of_nat k * v) = k * interval_of i"
    using kb by (intro unat_mult_u64 interval_of_bound k i) simp
  have m1: "unat ((word_of_nat k + 1) * v) = (k + 1) * interval_of i"
    using kb by (intro unat_mult_u64 interval_of_bound k1 i) simp
  have e: "(word_of_nat k + 1 = (ucast (total_thumbnails l) :: u64)) = (k + 1 = unat (total_thumbnails l))"
    using k1 by (simp only: word_unat_eq_iff unat_ucast_u64)
  show "unat (cue_start (cue_of l i d c (word_of_nat k))) = k * interval_of i"
    using m by (simp add: cue_of_def Let_def v_def)
  show "unat (cue_end (cue_of l i d c (word_of_nat k))) =
      (if k + 1 = unat (total_thumbnails l) then max (unat d) ((k + 1) * interval_of i)
       else (k + 1) * interval_of i)"
    using m1 e by (simp add: cue_of_def Let_def v_def unat_max del: mult_Suc)
qed

lemma cue_places:
  assumes "k < unat (total_thumbnails l)" and "0 < unat (thumbnails_per_sheet l)" and "0 < unat c"
  shows "unat (cue_sheet (cue_of l i d c (word_of_nat k))) = k div unat (thumbnails_per_sheet l)"
    and "unat (cue_col (cue_of l i d c (word_of_nat k))) = k mod unat (thumbnails_per_sheet l) mod unat c"
    and "unat (cue_row (cue_of l i d c (word_of_nat k))) = k mod unat (thumbnails_per_sheet l) div unat c"
proof -
  define p where p: "p = unat (thumbnails_per_sheet l)"
  define u :: u64 where "u = ucast (max (thumbnails_per_sheet l) 1)"
  define x :: u64 where "x = ucast (max c 1)"
  have pu: "unat u = p" using assms by (simp add: u_def p unat_max)
  have x: "unat x = unat c" using assms by (simp add: x_def unat_max)
  have kb: "k < 4294967296" using assms u32_lt [of "total_thumbnails l"] by simp
  have k: "unat (word_of_nat k :: u64) = k" using kb by (intro unat_of_nat_u64) simp
  have low: "unat (ucast (w :: u64) :: u32) = unat w" if "unat w < 4294967296" for w
    using that by (simp add: unsigned_ucast_eq take_bit_nat_eq_self)
  have d: "unat (word_of_nat k div u) = k div p" using k pu by (simp add: unat_div)
  have m: "unat (word_of_nat k mod u) = k mod p" using k pu by (simp add: unat_mod)
  have db: "k div p < 4294967296" using kb div_le_dividend [of k p] by (rule order.strict_trans1 [rotated])
  have mb: "k mod p < 4294967296" using kb mod_less_eq_dividend [of k p] by (rule order.strict_trans1 [rotated])
  have sm: "unat (ucast (word_of_nat k mod u) :: u32) = k mod p" using low m mb by simp
  show "unat (cue_sheet (cue_of l i d c (word_of_nat k))) = k div unat (thumbnails_per_sheet l)"
    using low d db by (simp add: cue_of_def Let_def u_def p)
  show "unat (cue_col (cue_of l i d c (word_of_nat k))) = k mod unat (thumbnails_per_sheet l) mod unat c"
    using sm x by (simp add: cue_of_def Let_def u_def x_def p unat_mod)
  show "unat (cue_row (cue_of l i d c (word_of_nat k))) = k mod unat (thumbnails_per_sheet l) div unat c"
    using sm x by (simp add: cue_of_def Let_def u_def x_def p unat_div)
qed

lemma index_cues_nth:
  "length (index_cues l i d c) = unat (total_thumbnails l)"
  "k < unat (total_thumbnails l) \<Longrightarrow> index_cues l i d c ! k = cue_of l i d c (word_of_nat k)"
  by (simp_all add: index_cues_def)

lemma layout_total_covers:
  "unat d \<le> unat (total_thumbnails (compute_sprite_layout d i c r)) * interval_of i"
proof (cases "d = 0")
  case True
  then show ?thesis by simp
next
  case False
  then have "0 < unat d" by (simp add: unat_gt_0)
  from ceil_bounds [OF interval_of_pos this, of i] False show ?thesis
    unfolding layout_total by simp
qed

lemma cue_end_of_layout:
  assumes "k < unat (total_thumbnails (compute_sprite_layout d i c r))"
  shows "unat (cue_end (cue_of (compute_sprite_layout d i c r) i d c (word_of_nat k))) = (k + 1) * interval_of i"
proof (cases "k + 1 = unat (total_thumbnails (compute_sprite_layout d i c r))")
  case True
  then show ?thesis
    unfolding cue_times(2) [OF assms] using layout_total_covers [of d i c r] by (simp only: True if_True max_absorb2)
next
  case False
  then show ?thesis unfolding cue_times(2) [OF assms] by (simp only: if_False)
qed

text \<open>
  C12. The index has one cue per thumbnail, the first starts at zero, each cue is a non-empty
  window, ends where the next one starts, and the last one ends no earlier than the content: no
  position of the seek bar is without a preview, and none has two.
\<close>

theorem index_covers_content:
  fixes d i c r
  defines "cues \<equiv> index_cues (compute_sprite_layout d i c r) i d c"
  shows "cues \<noteq> [] \<and> cue_start (hd cues) = 0 \<and> unat d \<le> unat (cue_end (last cues))
    \<and> list_all (\<lambda>q. cue_start q < cue_end q) cues
    \<and> map cue_end (butlast cues) = map cue_start (tl cues)"
proof (intro conjI)
  define n where "n = unat (total_thumbnails (compute_sprite_layout d i c r))"
  have len: "length cues = n" by (simp add: cues_def n_def index_cues_nth)
  have n: "1 \<le> n" unfolding n_def by (rule layout_total_pos)
  have start: "unat (cue_start (cues ! k)) = k * interval_of i" if "k < n" for k
    using that by (simp add: cues_def n_def index_cues_nth cue_times)
  have stop: "unat (cue_end (cues ! k)) = (k + 1) * interval_of i" if "k < n" for k
    using that cue_end_of_layout [of k d i c r] by (simp add: cues_def n_def index_cues_nth)
  show ne: "cues \<noteq> []" using len n by auto
  show "cue_start (hd cues) = 0" using start [of 0] n ne by (simp add: hd_conv_nth unat_eq_zero)
  have "unat (cue_end (last cues)) = n * interval_of i"
    using stop [of "n - 1"] n ne len by (simp add: last_conv_nth)
  then show "unat d \<le> unat (cue_end (last cues))"
    using layout_total_covers [of d i c r] by (simp add: n_def)
  show "list_all (\<lambda>q. cue_start q < cue_end q) cues"
    using start stop interval_of_pos [of i] by (simp add: list_all_length len word_less_nat_alt)
  show "map cue_end (butlast cues) = map cue_start (tl cues)"
    using start stop len
    by (intro nth_equalityI) (simp_all add: nth_butlast nth_tl word_unat_eq_iff)
qed

definition region :: "cue \<Rightarrow> u32 \<times> u64 \<times> u64" where
  "region q = (cue_sheet q, cue_col q, cue_row q)"

lemma layout_per_sheet:
  assumes "unat c * unat r < 4294967296" and "0 < unat c" and "0 < unat r"
  shows "unat (thumbnails_per_sheet (compute_sprite_layout d i c r)) = unat c * unat r"
  using assms by (simp add: compute_sprite_layout_def Let_def saturating_mul_def unat_max unat_word_ariths)

lemma sheet_in_layout:
  fixes d i c r
  defines "l \<equiv> compute_sprite_layout d i c r"
  assumes "k < unat (total_thumbnails l)"
  shows "k div unat (thumbnails_per_sheet l) < unat (total_sheets l)"
proof -
  define t p where tp: "t = unat (total_thumbnails l)" "p = unat (thumbnails_per_sheet l)"
  have p: "0 < p" by (simp add: tp l_def layout_per_sheet_pos)
  have s: "unat (total_sheets l) = t div p + (if 0 < t mod p then 1 else 0)"
    using layout_total_sheets [of d i c r] layout_sheets [of d i c r] by (simp add: l_def tp)
  have k: "k < t" using assms by (simp add: tp)
  moreover have "t \<le> unat (total_sheets l) * p"
    using ceil_bounds [OF p, of t] k unfolding s by (simp del: add_0_right)
  ultimately have "k < unat (total_sheets l) * p" by simp
  then show ?thesis using p by (simp add: tp less_mult_imp_div_less)
qed

lemma word_of_nat_unat_eq: "word_of_nat (unat w) = (w :: 'a::len word)"
  by simp

lemma cue_cell_in_sheet:
  fixes d i c r
  defines "l \<equiv> compute_sprite_layout d i c r"
  assumes k: "k < unat (total_thumbnails l)" and c: "0 < unat c"
  shows "k mod unat (thumbnails_per_sheet l)
    < unat (thumbnails_in_sheet l (cue_sheet (cue_of l i d c (word_of_nat k))))"
proof -
  define t p where tp: "t = unat (total_thumbnails l)" "p = unat (thumbnails_per_sheet l)"
  have p: "0 < p" by (simp add: tp l_def layout_per_sheet_pos)
  have full: "unat (full_sheets l) = t div p" and last: "unat (last_sheet_thumbnails l) = t mod p"
    using layout_sheets [of d i c r] by (simp_all add: l_def tp)
  have u: "unat (cue_sheet (cue_of l i d c (word_of_nat k))) = k div p"
    using cue_places(1) [OF k _ c] p by (simp add: tp)
  then have s: "cue_sheet (cue_of l i d c (word_of_nat k)) = word_of_nat (k div p)"
    by (metis word_of_nat_unat_eq)
  have b: "k div p < 4294967296"
    using u u32_lt [of "cue_sheet (cue_of l i d c (word_of_nat k))"] by simp
  have "k mod p < t mod p" if "\<not> k div p < t div p"
  proof -
    have "k div p = t div p" using that div_le_mono [of k t p] k by (simp add: tp)
    then show ?thesis using k by (metis div_mult_mod_eq nat_add_left_cancel_less tp(1))
  qed
  then show ?thesis using p unfolding s thumbnails_in_sheet_nat [OF b] full last by (simp add: tp)
qed

lemma grid_inject:
  fixes c p k k' :: nat
  assumes "k div p = k' div p" and "k mod p mod c = k' mod p mod c" and "k mod p div c = k' mod p div c"
  shows "k = k'"
  using assms by (metis div_mult_mod_eq)

text \<open>
  Every cue points into a picture that exists: with a grid of at least one cell that fits 32
  bits, the sheet is one of the layout, the cell lies inside the grid of that sheet and before the
  number of thumbnails the sheet has, and no two cues share a cell.
\<close>

theorem cue_regions_valid:
  fixes d i c r
  defines "l \<equiv> compute_sprite_layout d i c r"
  assumes "0 < unat c" and "0 < unat r" and "unat c * unat r < 4294967296"
  shows "list_all (\<lambda>q. cue_sheet q < total_sheets l \<and> unat (cue_col q) < unat c \<and> unat (cue_row q) < unat r
        \<and> unat (cue_row q) * unat c + unat (cue_col q) < unat (thumbnails_in_sheet l (cue_sheet q)))
      (index_cues l i d c)
    \<and> distinct (map region (index_cues l i d c))"
proof
  define t p where tp: "t = unat (total_thumbnails l)" "p = unat (thumbnails_per_sheet l)"
  have pv: "p = unat c * unat r" using assms by (simp add: tp l_def layout_per_sheet)
  have p: "0 < p" using assms by (simp add: pv)
  note place = cue_places [of _ l c i d, folded tp, OF _ p assms(2)]
  have cells: "k mod p < unat (thumbnails_in_sheet l (cue_sheet (cue_of l i d c (word_of_nat k))))"
    if "k < t" for k
    using cue_cell_in_sheet [of k d i c r] that assms(2) by (simp add: l_def tp)
  show "list_all (\<lambda>q. cue_sheet q < total_sheets l \<and> unat (cue_col q) < unat c \<and> unat (cue_row q) < unat r
        \<and> unat (cue_row q) * unat c + unat (cue_col q) < unat (thumbnails_in_sheet l (cue_sheet q)))
      (index_cues l i d c)"
    using sheet_in_layout [of _ d i c r] cells assms(2) p
    by (simp add: list_all_length index_cues_nth place word_less_nat_alt pv
        less_mult_imp_div_less mult.commute flip: tp l_def)
  have "inj_on (\<lambda>k. region (cue_of l i d c (word_of_nat k))) {0..<t}"
  proof (rule inj_onI)
    fix k k' assume kk: "k \<in> {0..<t}" "k' \<in> {0..<t}"
      and eq: "region (cue_of l i d c (word_of_nat k)) = region (cue_of l i d c (word_of_nat k'))"
    then have k: "k < t" "k' < t" by simp_all
    show "k = k'"
      using eq place [OF k(1)] place [OF k(2)] by (intro grid_inject [of k p k' "unat c"]) (auto simp: region_def)
  qed
  then show "distinct (map region (index_cues l i d c))"
    by (simp add: index_cues_def distinct_map o_def comp_def flip: tp)
qed

theorem cue_regions_valid_witness:
  "list_all (\<lambda>q. cue_sheet q < total_sheets (compute_sprite_layout 5400 10 10 20)
        \<and> unat (cue_col q) < unat (10 :: u32) \<and> unat (cue_row q) < unat (20 :: u32)
        \<and> unat (cue_row q) * unat (10 :: u32) + unat (cue_col q)
            < unat (thumbnails_in_sheet (compute_sprite_layout 5400 10 10 20) (cue_sheet q)))
      (index_cues (compute_sprite_layout 5400 10 10 20) 10 5400 10)
    \<and> distinct (map region (index_cues (compute_sprite_layout 5400 10 10 20) 10 5400 10))"
  by (rule cue_regions_valid) simp_all

section \<open>File names are safe\<close>

lemma strip_suffix_Some: "strip_suffix p s = Some x \<longleftrightarrow> s = x @ p"
proof -
  have "strip_suffix p s = Some x \<longleftrightarrow> strip_prefix (rev p) (rev s) = Some (rev x)"
    by (auto simp: strip_suffix_def)
  also have "\<dots> \<longleftrightarrow> rev s = rev (x @ p)" by (simp add: strip_prefix_Some)
  finally show ?thesis by (simp only: rev_is_rev_conv)
qed

lemma nat_of_digits_bound: "list_all is_digit s \<Longrightarrow> nat_of_digits s < 10 ^ length s"
proof (induction s rule: rev_induct)
  case Nil
  then show ?case by (simp add: nat_of_digits_def)
next
  case (snoc c s)
  then have "nat_of_digits s < 10 ^ length s" and "digit_val c < 10"
    by (auto simp: is_digit_def digit_val_def Let_def)
  then show ?case by simp
qed

lemma digits_no_dot:
  assumes "list_all is_digit ds" and "\<not> is_digit c"
  shows "count_list ds c = 0"
  using assms by (induction ds) auto

lemma no_parent_reference: "count_list name (CHR ''.'') \<le> 1 \<Longrightarrow> \<not> sublist ''..'' name"
  by (auto simp: sublist_def)

lemma sprite_name_clean:
  assumes "list_all is_digit ds"
  defines "name \<equiv> ''sprite_'' @ ds @ ''.webp''"
  shows "CHR ''/'' \<notin> set name" and "CHR 0x5C \<notin> set name" and "\<not> sublist ''..'' name"
proof -
  have no: "c \<notin> set ds" if "\<not> is_digit c" for c using assms(1) that by (auto simp: list_all_iff)
  show "CHR ''/'' \<notin> set name" using no [of "CHR ''/''"] by (simp add: name_def is_digit_def)
  show "CHR 0x5C \<notin> set name" using no [of "CHR 0x5C"] by (simp add: name_def is_digit_def)
  have "count_list ds (CHR ''.'') = 0" using assms(1) by (rule digits_no_dot) (simp add: is_digit_def)
  then have "count_list name (CHR ''.'') \<le> 1" by (simp add: name_def)
  then show "\<not> sublist ''..'' name" by (rule no_parent_reference)
qed

definition sprite_name :: "string \<Rightarrow> u32 \<Rightarrow> bool" where
  "sprite_name ds n \<longleftrightarrow> ds \<noteq> [] \<and> length ds \<le> 4 \<and> list_all is_digit ds \<and> nat_of_digits ds = unat n \<and> n \<noteq> 0"

lemma sprite_name_accepted:
  assumes "sprite_name ds n"
  shows "validate_sprite_filename (''sprite_'' @ ds @ ''.webp'') = Inr n"
proof -
  have ds: "ds \<noteq> []" "length ds \<le> 4" "list_all is_digit ds" "nat_of_digits ds = unat n" "n \<noteq> 0"
    using assms by (simp_all add: sprite_name_def)
  have "strip_suffix ''.webp'' ((''sprite_'' @ ds) @ ''.webp'') = Some (''sprite_'' @ ds)"
    by (simp only: strip_suffix_Some)
  then have s: "strip_suffix ''.webp'' (''sprite_'' @ ds @ ''.webp'') = Some (''sprite_'' @ ds)"
    by (simp only: append_assoc)
  have n: "nat_of_digits ds < 2 ^ 32" "nat_of_digits ds \<noteq> 0" "word_of_nat (nat_of_digits ds) = n"
    using ds(4,5) u32_lt [of n] by (simp_all add: unat_eq_zero)
  show ?thesis
    unfolding validate_sprite_filename_def s option.case strip_prefix_append
    using sprite_name_clean [OF ds(3)] ds(1,2,3) n by (simp del: append_Cons append.simps add: Let_def)
qed

lemma validated_sprite_name:
  assumes "validate_sprite_filename name = Inr n"
  shows "\<exists>ds. name = ''sprite_'' @ ds @ ''.webp'' \<and> sprite_name ds n"
proof -
  obtain stem where s: "strip_suffix ''.webp'' name = Some stem"
    using assms unfolding validate_sprite_filename_def
    by (cases "strip_suffix ''.webp'' name") (simp_all split: if_splits)
  obtain ds where d: "strip_prefix ''sprite_'' stem = Some ds"
    using assms unfolding validate_sprite_filename_def s option.case
    by (cases "strip_prefix ''sprite_'' stem") (simp_all split: if_splits)
  have r: "ds \<noteq> []" "\<not> 4 < length ds" "list_all is_digit ds" "\<not> 2 ^ 32 \<le> nat_of_digits ds"
      "nat_of_digits ds \<noteq> 0" "word_of_nat (nat_of_digits ds) = n"
    using assms unfolding validate_sprite_filename_def s d option.case Let_def
    by (simp_all split: if_splits)
  have v: "unat n = nat_of_digits ds" using r(4) unfolding r(6) [symmetric] by (simp add: unat_of_nat_u32)
  have "name = ''sprite_'' @ ds @ ''.webp''"
    using s d by (simp only: strip_suffix_Some strip_prefix_Some append_assoc)
  moreover have "sprite_name ds n"
    using r(1,2,3,5) v unfolding sprite_name_def by auto
  ultimately show ?thesis by blast
qed

text \<open>
  The route that serves sheets accepts exactly the names of one to four digits between
  \<open>sprite_\<close> and \<open>.webp\<close>, answers their positive number, and so never lets a separator or a
  parent reference into a path.
\<close>

theorem sprite_names_accepted:
  "validate_sprite_filename name = Inr n \<longleftrightarrow>
     (\<exists>ds. name = ''sprite_'' @ ds @ ''.webp'' \<and> sprite_name ds n
        \<and> CHR ''/'' \<notin> set name \<and> CHR 0x5C \<notin> set name \<and> \<not> sublist ''..'' name)"
proof
  assume "validate_sprite_filename name = Inr n"
  then obtain ds where d: "name = ''sprite_'' @ ds @ ''.webp''" "sprite_name ds n"
    using validated_sprite_name by blast
  have "list_all is_digit ds" using d(2) by (simp only: sprite_name_def)
  with d sprite_name_clean [OF this]
  show "\<exists>ds. name = ''sprite_'' @ ds @ ''.webp'' \<and> sprite_name ds n
        \<and> CHR ''/'' \<notin> set name \<and> CHR 0x5C \<notin> set name \<and> \<not> sublist ''..'' name"
    by (intro exI [of _ ds]) (simp only: simp_thms)
next
  assume "\<exists>ds. name = ''sprite_'' @ ds @ ''.webp'' \<and> sprite_name ds n
        \<and> CHR ''/'' \<notin> set name \<and> CHR 0x5C \<notin> set name \<and> \<not> sublist ''..'' name"
  then show "validate_sprite_filename name = Inr n" using sprite_name_accepted by (elim exE conjE) (simp only:)
qed

text \<open>
  The generator's file names pass that check and give back their number for the first 9999
  sheets; the name of any later sheet is refused, so that it could be written but never served.
\<close>

theorem sprite_filename_roundtrip:
  "if unat i < 9999 then validate_sprite_filename (sprite_filename i) = Inr (i + 1)
   else isl (validate_sprite_filename (sprite_filename i))"
proof (cases "unat i < 9999")
  case True
  then have n: "unat (i + 1) = unat i + 1" by (simp add: unat_word_ariths)
  have "length (show_u (i + 1)) \<le> 4" unfolding show_u_def n by (rule length_show_nat) (use True in simp_all)
  then have "sprite_name (pad 3 (show_u (i + 1))) (i + 1)"
    using all_digits_pad [OF all_digits_show_u [of "i + 1"], of 3] n
    by (auto simp: sprite_name_def length_pad all_digits_def show_u_def unat_eq_zero)
  with True show ?thesis by (simp only: sprite_filename_def sprite_name_accepted if_True)
next
  case False
  have "\<not> sprite_name (pad 3 (show_u (i + 1))) n" for n
  proof
    assume a: "sprite_name (pad 3 (show_u (i + 1))) n"
    then have n: "n = i + 1" and nz: "n \<noteq> 0" by (simp_all add: sprite_name_def show_u_def word_unat_eq_iff)
    have "nat_of_digits (pad 3 (show_u (i + 1))) < 10 ^ length (pad 3 (show_u (i + 1)))"
      using a by (intro nat_of_digits_bound) (simp add: sprite_name_def)
    also have "\<dots> \<le> 10 ^ 4" using a by (intro power_increasing) (simp_all add: sprite_name_def)
    finally have "unat (i + 1) < 10000" by (simp add: show_u_def)
    moreover have "unat (i + 1) = unat i + 1"
      using nz unfolding n by (metis add.commute unatSuc Suc_eq_plus1)
    ultimately show False using False by simp
  qed
  then have "validate_sprite_filename (sprite_filename i) \<noteq> Inr n" for n
    using validated_sprite_name [of "sprite_filename i" n] by (auto simp: sprite_filename_def)
  with False show ?thesis by (cases "validate_sprite_filename (sprite_filename i)") auto
qed

end
