(* ===== verification/Text_Scan.thy ===== *)
theory Text_Scan
  imports Json
begin

text \<open>
  Operations of \<^verbatim>\<open>str\<close> that the readers of tool output and subtitle files use: lines, substring
  search, the next word; and single-precision arithmetic, whose values are doubles that
  \<open>f32_round\<close> leaves unchanged.
\<close>

section \<open>Text\<close>

definition strip_cr :: "string \<Rightarrow> string" where
  "strip_cr s = (case strip_suffix_char CHR 0x0D s of Some t \<Rightarrow> t | None \<Rightarrow> s)"

text \<open>\<^verbatim>\<open>str::lines\<close>: a last line without a newline keeps its carriage return.\<close>

definition lines :: "string \<Rightarrow> string list" where
  "lines s =
     (let ps = split_on CHR 0x0A s
      in map strip_cr (butlast ps) @ (if last ps = [] then [] else [last ps]))"

text \<open>\<^verbatim>\<open>str::split\<close> at the first occurrence of a non-empty pattern.\<close>

fun split_at :: "string \<Rightarrow> string \<Rightarrow> (string \<times> string) option" where
  "split_at pat [] = None"
| "split_at pat (c # s) =
     (if starts_with (c # s) pat then Some ([], drop (length pat) (c # s))
      else map_option (\<lambda>(a, b). (c # a, b)) (split_at pat s))"

definition contains :: "string \<Rightarrow> string \<Rightarrow> bool" where
  "contains pat s \<longleftrightarrow> split_at pat s \<noteq> None"

definition find_after :: "string \<Rightarrow> string \<Rightarrow> string option" where
  "find_after pat s = map_option snd (split_at pat s)"

text \<open>\<^verbatim>\<open>split(pat).nth(1)\<close>\<close>

definition split_nth1 :: "string \<Rightarrow> string \<Rightarrow> string option" where
  "split_nth1 pat s =
     (case split_at pat s of
        None \<Rightarrow> None
      | Some (_, rest) \<Rightarrow> Some (case split_at pat rest of Some (a, _) \<Rightarrow> a | None \<Rightarrow> rest))"

fun until_ws :: "string \<Rightarrow> string" where
  "until_ws [] = []"
| "until_ws (c # s) = (if ws_head ws2 ws3 (c # s) then [] else c # until_ws s)"

text \<open>\<^verbatim>\<open>split_whitespace().next()\<close>\<close>

definition next_word :: "string \<Rightarrow> string option" where
  "next_word s = (let t = trim_start s in if t = [] then None else Some (until_ws t))"

section \<open>Numbers\<close>

definition i32_of_f64 :: "f64 \<Rightarrow> int" where
  "i32_of_f64 x = f64_to_int (- (2 ^ 31)) (2 ^ 31 - 1) x"

text \<open>\<^verbatim>\<open>f64::round\<close> rounds half away from zero.\<close>

definition round_away :: "rat \<Rightarrow> int" where
  "round_away r = (if r < 0 then - \<lfloor>1 / 2 - r\<rfloor> else \<lfloor>r + 1 / 2\<rfloor>)"

definition f64_round_away :: "f64 \<Rightarrow> f64" where
  "f64_round_away x = (case x of Fin r \<Rightarrow> Fin (of_int (round_away r)) | _ \<Rightarrow> x)"

definition millis :: "f64 \<Rightarrow> int" where
  "millis x = i32_of_f64 (f64_round_away (f64_mul x (Fin 1000)))"

lemma millis_i32: "is_i32 (millis x)"
  by (auto simp: millis_def i32_of_f64_def f64_to_int_def is_i32_def split: f64.splits)

type_synonym f32 = f64

definition f32_round :: "rat \<Rightarrow> f32" where
  "f32_round x =
     (if x = 0 then Fin 0
      else let a = \<bar>x\<bar>; e = max (ilog2 a - 23) (- 149);
               r = of_int (round_even (a / pow2 e)) * pow2 e
           in if r \<ge> pow2 128 then Inf (x < 0) else Fin (if x < 0 then - r else r))"

definition f32_of_nat :: "nat \<Rightarrow> f32" where
  "f32_of_nat n = f32_round (of_nat n)"

definition f32_add :: "f32 \<Rightarrow> f32 \<Rightarrow> f32" where
  "f32_add x y = (case (x, y) of (Fin a, Fin b) \<Rightarrow> f32_round (a + b) | _ \<Rightarrow> f64_add x y)"

definition f32_mul :: "f32 \<Rightarrow> f32 \<Rightarrow> f32" where
  "f32_mul x y = (case (x, y) of (Fin a, Fin b) \<Rightarrow> f32_round (a * b) | _ \<Rightarrow> f64_mul x y)"

text \<open>The quotient of a finite value by a finite one that is not zero; the code has no other.\<close>

definition f32_div :: "f32 \<Rightarrow> f32 \<Rightarrow> f32" where
  "f32_div x y = (case (x, y) of (Fin a, Fin b) \<Rightarrow> (if b = 0 then NaN else f32_round (a / b)) | _ \<Rightarrow> NaN)"

text \<open>\<^verbatim>\<open>f32::max\<close> ignores a NaN.\<close>

definition f32_max :: "f32 \<Rightarrow> f32 \<Rightarrow> f32" where
  "f32_max x y = (if x = NaN then y else if y = NaN then x else if f64_lt x y then y else x)"

definition f32_clamp :: "f32 \<Rightarrow> f32 \<Rightarrow> f32 \<Rightarrow> f32" where
  "f32_clamp lo hi x = (if f64_lt x lo then lo else if f64_lt hi x then hi else x)"

end
