(* ===== verification/Segments.thy ===== *)
theory Segments
  imports Text_Scan "HOL-Library.AList"
begin

text \<open>
  services/segments.rs: finding intros, credits and other skippable parts. Chapters are read from
  the container metadata and classified by their titles (the regular expression engine is the
  parameter \<open>is_match\<close>); recurring audio is found by comparing the fingerprints of two episodes;
  black frames and silence reported by FFmpeg are clustered and combined. Running FFmpeg and the
  fingerprinting library are outside the model. Times are \<open>i32\<close> with wrap-around written out.
\<close>

unbundle bit_operations_syntax

datatype SegmentType = Intro | Credits | Recap | Preview | Outro

datatype SegmentSource = Chapter | Chromaprint | Blackframe | Silence | Combined

definition SegmentType_as_str :: "SegmentType \<Rightarrow> string" where
  "SegmentType_as_str s =
     (case s of Intro \<Rightarrow> ''intro'' | Credits \<Rightarrow> ''credits'' | Recap \<Rightarrow> ''recap'' | Preview \<Rightarrow> ''preview''
      | Outro \<Rightarrow> ''outro'')"

definition SegmentType_from_db_str :: "string \<Rightarrow> SegmentType option" where
  "SegmentType_from_db_str s =
     (if s = ''intro'' then Some Intro else if s = ''credits'' then Some Credits
      else if s = ''recap'' then Some Recap else if s = ''preview'' then Some Preview
      else if s = ''outro'' then Some Outro else None)"

record DetectedSegment =
  segment_type :: SegmentType
  start_ms :: int
  end_ms :: int
  skip_to_ms :: int
  seg_source :: SegmentSource
  confidence :: f32
  seg_metadata :: json

record ChapterInfo =
  ch_start_ms :: int
  ch_end_ms :: int
  ch_title :: "string option"

record SearchWindow =
  win_start_ms :: int
  win_end_ms :: int

record FingerprintWithContext =
  fp_item :: uuid
  fp_runtime_ms :: int
  fp_data :: "u32 list"

record RecurringMatch =
  rm_item :: uuid
  rm_type :: SegmentType
  rm_start_ms :: int
  rm_end_ms :: int
  rm_episodes :: u64
  rm_similarity :: f32

record BlackframeEvent =
  bf_frame :: int
  bf_pblack :: u8
  bf_time_ms :: int

record SilenceEvent =
  si_start_ms :: int
  si_end_ms :: int
  si_duration_ms :: int

record SafetyConfig =
  intro_start_padding_ms :: int
  intro_end_padding_ms :: int
  credits_start_padding_ms :: int
  credits_end_padding_ms :: int
  min_confidence :: f32

definition SafetyConfig_default :: SafetyConfig where
  "SafetyConfig_default = \<lparr>intro_start_padding_ms = 0, intro_end_padding_ms = 2000,
     credits_start_padding_ms = 0, credits_end_padding_ms = 0, min_confidence = f32_round (7 / 10)\<rparr>"

record DurationThresholds =
  min_ms :: int
  max_tv_ms :: int
  max_movie_ms :: int

definition DurationThresholds_for_type :: "SegmentType \<Rightarrow> DurationThresholds" where
  "DurationThresholds_for_type s =
     (case s of
        Intro \<Rightarrow> \<lparr>min_ms = 15000, max_tv_ms = 120000, max_movie_ms = 120000\<rparr>
      | Credits \<Rightarrow> \<lparr>min_ms = 15000, max_tv_ms = 300000, max_movie_ms = 900000\<rparr>
      | Recap \<Rightarrow> \<lparr>min_ms = 15000, max_tv_ms = 120000, max_movie_ms = 120000\<rparr>
      | Preview \<Rightarrow> \<lparr>min_ms = 15000, max_tv_ms = 120000, max_movie_ms = 120000\<rparr>
      | Outro \<Rightarrow> \<lparr>min_ms = 15000, max_tv_ms = 120000, max_movie_ms = 300000\<rparr>)"

definition DurationThresholds_max_for :: "DurationThresholds \<Rightarrow> bool \<Rightarrow> int" where
  "DurationThresholds_max_for t is_movie = (if is_movie then max_movie_ms t else max_tv_ms t)"

record ChromaprintThresholds =
  min_bit_agreement :: nat
  high_confidence_episodes :: u64
  subfp_period_ms :: int

definition ChromaprintThresholds_default :: ChromaprintThresholds where
  "ChromaprintThresholds_default =
     \<lparr>min_bit_agreement = 30, high_confidence_episodes = 3, subfp_period_ms = 11\<rparr>"

section \<open>Safety padding and search windows\<close>

definition apply_safety_padding :: "SafetyConfig \<Rightarrow> DetectedSegment \<Rightarrow> DetectedSegment" where
  "apply_safety_padding safety seg =
     (case segment_type seg of
        Intro \<Rightarrow>
          (let target = i32_wrap (end_ms seg - intro_end_padding_ms safety)
           in seg\<lparr>skip_to_ms := max target (start_ms seg)\<rparr>)
      | Credits \<Rightarrow>
          (let target = i32_wrap (end_ms seg + credits_end_padding_ms safety)
           in seg\<lparr>skip_to_ms := min target (end_ms seg)\<rparr>)
      | _ \<Rightarrow> seg\<lparr>skip_to_ms := end_ms seg\<rparr>)"

definition mark_surfaced :: "SafetyConfig \<Rightarrow> DetectedSegment \<Rightarrow> DetectedSegment" where
  "mark_surfaced safety seg =
     (let surfaced = f64_le (min_confidence safety) (confidence seg)
      in case seg_metadata seg of
          JObject obj \<Rightarrow> seg\<lparr>seg_metadata := JObject (AList.update ''surfaced'' (JBool surfaced) obj)\<rparr>
        | _ \<Rightarrow> seg\<lparr>seg_metadata := JObject [(''surfaced'', JBool surfaced)]\<rparr>)"

definition intro_search_window_ms :: "int \<Rightarrow> bool \<Rightarrow> SearchWindow" where
  "intro_search_window_ms runtime_ms is_movie =
     (let cap = 600000; end' = (if is_movie then cap else min (quot runtime_ms 4) cap)
      in \<lparr>win_start_ms = 0, win_end_ms = max end' 0\<rparr>)"

definition credits_search_window_ms :: "int \<Rightarrow> bool \<Rightarrow> SearchWindow" where
  "credits_search_window_ms runtime_ms is_movie =
     (let start = (if is_movie then runtime_ms - quot runtime_ms 5
                   else i32_wrap (runtime_ms - quot (i32_wrap (runtime_ms * 3)) 10))
      in \<lparr>win_start_ms = max start 0, win_end_ms = runtime_ms\<rparr>)"

definition recap_search_window_ms :: "int \<Rightarrow> SearchWindow" where
  "recap_search_window_ms runtime_ms =
     \<lparr>win_start_ms = 0, win_end_ms = quot (i32_wrap (runtime_ms * 15)) 100\<rparr>"

section \<open>Chapters\<close>

definition parse_chapter_time_ms :: "string \<Rightarrow> int option" where
  "parse_chapter_time_ms text =
     (let s = trim text in
      if s = [] then None
      else
        (let seconds =
           (if CHR '':'' \<in> set s then
              (let hms = (case split_on CHR '':'' s of
                    [h, m, sec] \<Rightarrow> Some (h, m, sec) | [m, sec] \<Rightarrow> Some (''0'', m, sec) | _ \<Rightarrow> None)
               in case hms of
                    None \<Rightarrow> None
                  | Some (h, m, sec) \<Rightarrow>
                      (case (parse_f64 h, parse_f64 m, parse_f64 sec) of
                         (Some h, Some m, Some sec) \<Rightarrow>
                           Some (f64_add (f64_add (f64_mul h (Fin 3600)) (f64_mul m (Fin 60))) sec)
                       | _ \<Rightarrow> None))
            else parse_f64 s)
         in case seconds of
              None \<Rightarrow> None
            | Some x \<Rightarrow>
                (case x of
                   Fin r \<Rightarrow> if r < 0 then None else Some (millis x)
                 | _ \<Rightarrow> None)))"

definition chapter_of :: "json \<Rightarrow> ChapterInfo option" where
  "chapter_of ch =
     (case (Option.bind (Option.bind (jget ch ''start_time'') as_str) parse_chapter_time_ms,
            Option.bind (Option.bind (jget ch ''end_time'') as_str) parse_chapter_time_ms) of
        (Some s, Some e) \<Rightarrow>
          if e \<le> s then None
          else Some \<lparr>ch_start_ms = s, ch_end_ms = e,
            ch_title = (case Option.bind (Option.bind (jget ch ''tags'') (\<lambda>t. jget t ''title'')) as_str of
                None \<Rightarrow> None
              | Some t \<Rightarrow> if trim t = [] then None else Some (trim t))\<rparr>
      | _ \<Rightarrow> None)"

definition extract_chapters :: "json \<Rightarrow> ChapterInfo list" where
  "extract_chapters additional_streams =
     (case Option.bind (jget additional_streams ''chapters'') as_array of
        None \<Rightarrow> []
      | Some chapters \<Rightarrow> List.map_filter chapter_of chapters)"

definition CHAPTER_PATTERNS :: "(string \<times> SegmentType) list" where
  "CHAPTER_PATTERNS =
    [(''(?i)'' @ [CHR 0x5C] @ ''b(Intro|Introduction|OP|Opening)'' @ [CHR 0x5C] @ ''b'', Intro),
     (''(?i)'' @ [CHR 0x5C] @ ''b(Credits?|ED|Ending|Outro)'' @ [CHR 0x5C] @ ''b'', Credits),
     (''(?i)'' @ [CHR 0x5C] @ ''b(Re?cap|Sum{1,2}ary|Prev(ious(ly)?)?|Last|Earlier)'' @ [CHR 0x5C] @ ''b'', Recap),
     (''(?i)'' @ [CHR 0x5C] @ ''b(Preview|PV|Sneak'' @ [CHR 0x5C] @ ''s?Peek|Coming'' @ [CHR 0x5C] @
      ''s?(Up|Soon)|Next'' @ [CHR 0x5C] @ ''s+(time|on|episode))'' @ [CHR 0x5C] @ ''b'', Preview)]"

definition classify_chapter_title :: "(string \<Rightarrow> string \<Rightarrow> bool) \<Rightarrow> string \<Rightarrow> SegmentType option" where
  "classify_chapter_title is_match title =
     (let trimmed = trim title in
      if trimmed = [] then None
      else find_map (\<lambda>(re, seg_type). if is_match re trimmed then Some seg_type else None) CHAPTER_PATTERNS)"

definition json_int :: "int \<Rightarrow> json" where
  "json_int i = JNumber (if 0 \<le> i then PosInt (word_of_int i) else NegInt i)"

definition chapter_to_detected_segment ::
  "ChapterInfo \<Rightarrow> SegmentType \<Rightarrow> int \<Rightarrow> SafetyConfig \<Rightarrow> DetectedSegment" where
  "chapter_to_detected_segment chapter seg_type runtime_ms safety =
     apply_safety_padding safety
       \<lparr>segment_type = seg_type, start_ms = ch_start_ms chapter, end_ms = ch_end_ms chapter,
        skip_to_ms = ch_end_ms chapter, seg_source = Chapter, confidence = Fin 1,
        seg_metadata = JObject
          [(''runtime_ms'', json_int runtime_ms),
           (''source_chapter_title'', case ch_title chapter of Some t \<Rightarrow> JString t | None \<Rightarrow> JNull)]\<rparr>"

section \<open>Recurring audio\<close>

definition count_ones :: "u32 \<Rightarrow> nat" where
  "count_ones w = length (filter (bit w) [0..<32])"

definition bit_agreement :: "u32 \<Rightarrow> u32 \<Rightarrow> nat" where
  "bit_agreement a b = 32 - count_ones (a XOR b)"

definition duration_to_subfps :: "int \<Rightarrow> int \<Rightarrow> nat" where
  "duration_to_subfps duration_ms period =
     (if period \<le> 0 then 0 else unat (word_of_int duration_ms :: u64) div nat period)"

definition ms_to_subfp :: "int \<Rightarrow> int \<Rightarrow> nat" where
  "ms_to_subfp ms period = duration_to_subfps ms period"

definition subfp_to_ms :: "nat \<Rightarrow> int \<Rightarrow> int" where
  "subfp_to_ms subfp period = i32_wrap (i32_wrap (int subfp) * period)"

record run =
  run_len :: nat
  run_sum_bits :: nat
  run_best_similarity :: f32

text \<open>The inner loop, over the values of the second fingerprint from position \<open>k\<close> on.\<close>

fun scan_offset :: "u32 list \<Rightarrow> nat \<Rightarrow> nat \<Rightarrow> nat \<Rightarrow> nat \<Rightarrow> nat \<Rightarrow> nat \<Rightarrow> u32 list \<Rightarrow> run \<Rightarrow> run" where
  "scan_offset fp_a offset window_end bits min_run max_run k [] r = r"
| "scan_offset fp_a offset window_end bits min_run max_run k (b_val # rest) r =
     (if offset + k > window_end then r
      else
        (let agreement = bit_agreement (fp_a ! (offset + k)) b_val in
         if agreement \<ge> bits then
           (let len = run_len r + 1; sum = run_sum_bits r + agreement;
                avg = f32_div (f32_of_nat sum) (f32_mul (f32_of_nat len) (Fin 32));
                r' = \<lparr>run_len = len, run_sum_bits = sum,
                      run_best_similarity = f32_max (run_best_similarity r) avg\<rparr>
            in if len \<ge> max_run then r'
               else scan_offset fp_a offset window_end bits min_run max_run (k + 1) rest r')
         else if run_len r \<ge> min_run then r
         else
           (let r' = r\<lparr>run_len := 0, run_sum_bits := 0\<rparr>
            in if 0 \<ge> max_run then r'
               else scan_offset fp_a offset window_end bits min_run max_run (k + 1) rest r')))"

text \<open>
  The comparison destructures the stored triple of offset, length and similarity as length,
  offset and similarity.
\<close>

definition better :: "nat \<Rightarrow> f32 \<Rightarrow> (nat \<times> nat \<times> f32) option \<Rightarrow> bool" where
  "better len sim best =
     (case best of
        None \<Rightarrow> True
      | Some (prev_len, _, prev_sim) \<Rightarrow> len > prev_len \<or> (len = prev_len \<and> f64_lt prev_sim sim))"

fun scan_offsets ::
  "u32 list \<Rightarrow> u32 list \<Rightarrow> nat \<Rightarrow> nat \<Rightarrow> nat \<Rightarrow> nat \<Rightarrow> nat list \<Rightarrow> (nat \<times> nat \<times> f32) option
     \<Rightarrow> (nat \<times> nat \<times> f32) option" where
  "scan_offsets fp_a fp_b window_end bits min_run max_run [] best = best"
| "scan_offsets fp_a fp_b window_end bits min_run max_run (offset # offsets) best =
     (if offset > window_end then best
      else
        (let r = scan_offset fp_a offset window_end bits min_run max_run 0
                   (take (min (length fp_a - offset) (length fp_b)) fp_b)
                   \<lparr>run_len = 0, run_sum_bits = 0, run_best_similarity = Fin 0\<rparr>;
             best' = (if run_len r \<ge> min_run \<and> better (run_len r) (run_best_similarity r) best
                      then Some (offset, run_len r, run_best_similarity r) else best)
         in scan_offsets fp_a fp_b window_end bits min_run max_run offsets best'))"

definition best_pair_match ::
  "FingerprintWithContext \<Rightarrow> FingerprintWithContext \<Rightarrow> ChromaprintThresholds \<Rightarrow> nat \<Rightarrow> nat \<Rightarrow> RecurringMatch option" where
  "best_pair_match a b thresholds min_run max_run =
     (let fp_a = fp_data a; fp_b = fp_data b;
          window_a = intro_search_window_ms (fp_runtime_ms a) False;
          window_b = intro_search_window_ms (fp_runtime_ms b) False;
          window_end = ms_to_subfp (min (win_end_ms window_a) (win_end_ms window_b)) (subfp_period_ms thresholds)
      in case scan_offsets fp_a fp_b window_end (min_bit_agreement thresholds) min_run max_run
                [0..<length fp_a - min_run] None of
           None \<Rightarrow> None
         | Some (offset, len, similarity) \<Rightarrow>
             (let start_subfp = min offset window_end;
                  end_subfp = min (offset + len) (window_end + 1)
              in if end_subfp \<le> start_subfp then None
                 else
                   (let start = subfp_to_ms start_subfp (subfp_period_ms thresholds);
                        end' = subfp_to_ms end_subfp (subfp_period_ms thresholds)
                    in if i32_wrap (end' - start) < min_ms (DurationThresholds_for_type Intro) then None
                       else Some \<lparr>rm_item = 0, rm_type = Intro, rm_start_ms = start, rm_end_ms = end',
                                  rm_episodes = 2, rm_similarity = similarity\<rparr>)))"

text \<open>The entry of an item in the map of matches, and the pairs in the order of the loops.\<close>

definition merge_match :: "uuid \<Rightarrow> RecurringMatch \<Rightarrow> (uuid \<rightharpoonup> RecurringMatch) \<Rightarrow> (uuid \<rightharpoonup> RecurringMatch)" where
  "merge_match item m matches =
     (case matches item of
        None \<Rightarrow> matches(item \<mapsto> m)
      | Some existing \<Rightarrow>
          (let e = (if f64_lt (rm_similarity existing) (rm_similarity m) then m else existing)
           in matches(item \<mapsto> e\<lparr>rm_episodes := max (saturating_add (rm_episodes e) 1) 2\<rparr>)))"

definition merge_pair ::
  "ChromaprintThresholds \<Rightarrow> nat \<Rightarrow> nat \<Rightarrow> FingerprintWithContext \<times> FingerprintWithContext
     \<Rightarrow> (uuid \<rightharpoonup> RecurringMatch) \<Rightarrow> (uuid \<rightharpoonup> RecurringMatch)" where
  "merge_pair thresholds min_run max_run p matches =
     (let (a, b) = p in
      if length (fp_data a) < min_run \<or> length (fp_data b) < min_run then matches
      else case best_pair_match a b thresholds min_run max_run of
          None \<Rightarrow> matches
        | Some m \<Rightarrow> merge_match (fp_item b) (m\<lparr>rm_item := fp_item b\<rparr>)
                     (merge_match (fp_item a) (m\<lparr>rm_item := fp_item a\<rparr>) matches))"

fun pairs :: "'a list \<Rightarrow> ('a \<times> 'a) list" where
  "pairs [] = []"
| "pairs (x # xs) = map (Pair x) xs @ pairs xs"

definition find_recurring_segments ::
  "FingerprintWithContext list \<Rightarrow> ChromaprintThresholds \<Rightarrow> (uuid \<rightharpoonup> RecurringMatch)" where
  "find_recurring_segments fingerprints thresholds =
     (if length fingerprints < 2 then Map.empty
      else
        (let intro = DurationThresholds_for_type Intro;
             min_run = duration_to_subfps (min_ms intro) (subfp_period_ms thresholds);
             max_run = duration_to_subfps (max_tv_ms intro) (subfp_period_ms thresholds)
         in fold (merge_pair thresholds min_run max_run) (pairs fingerprints) Map.empty))"

definition chromaprint_match_to_segment ::
  "RecurringMatch \<Rightarrow> ChromaprintThresholds \<Rightarrow> bool \<Rightarrow> bool \<Rightarrow> int \<Rightarrow> SafetyConfig \<Rightarrow> DetectedSegment" where
  "chromaprint_match_to_segment m thresholds silence_confirms blackframe_confirms runtime_ms safety =
     (let base = (if high_confidence_episodes thresholds \<le> rm_episodes m then f32_round (9 / 10) else f32_round (7 / 10));
          c1 = (if blackframe_confirms then f32_add base (f32_round (1 / 20)) else base);
          c2 = (if silence_confirms then f32_add c1 (f32_round (1 / 10)) else c1)
      in apply_safety_padding safety
           \<lparr>segment_type = rm_type m, start_ms = rm_start_ms m, end_ms = rm_end_ms m, skip_to_ms = rm_end_ms m,
            seg_source = Chromaprint, confidence = f32_clamp (Fin 0) (Fin 1) c2,
            seg_metadata = JObject
              [(''blackframe_confirms'', JBool blackframe_confirms),
               (''matching_episodes'', JNumber (PosInt (rm_episodes m))),
               (''runtime_ms'', json_int runtime_ms),
               (''silence_confirms'', JBool silence_confirms),
               (''similarity'', JNumber (Float (rm_similarity m)))]\<rparr>)"

section \<open>Black frames and silence\<close>

definition parse_leading_f64 :: "string \<Rightarrow> f64 option" where
  "parse_leading_f64 s = Option.bind (next_word s) parse_f64"

definition parse_leading_i64 :: "string \<Rightarrow> int option" where
  "parse_leading_i64 s = Option.bind (next_word s) parse_i64"

definition parse_kv_i64 :: "string \<Rightarrow> string \<Rightarrow> int option" where
  "parse_kv_i64 line key = Option.bind (find_after key line) parse_leading_i64"

definition parse_kv_u8 :: "string \<Rightarrow> string \<Rightarrow> u8 option" where
  "parse_kv_u8 line key =
     Option.bind (parse_kv_i64 line key) (\<lambda>v. if 0 \<le> v \<and> v < 256 then Some (word_of_int v) else None)"

definition parse_kv_f64_ms :: "string \<Rightarrow> string \<Rightarrow> int option" where
  "parse_kv_f64_ms line key = map_option millis (Option.bind (find_after key line) parse_leading_f64)"

definition parse_blackframe_line :: "string \<Rightarrow> BlackframeEvent option" where
  "parse_blackframe_line line =
     (if \<not> contains ''blackframe'' line then None
      else case (parse_kv_i64 line ''frame:'', parse_kv_u8 line ''pblack:'', parse_kv_f64_ms line ''t:'') of
          (Some frame, Some pblack, Some time) \<Rightarrow> Some \<lparr>bf_frame = frame, bf_pblack = pblack, bf_time_ms = time\<rparr>
        | _ \<Rightarrow> None)"

definition parse_blackframe_output :: "string \<Rightarrow> BlackframeEvent list" where
  "parse_blackframe_output stderr = List.map_filter parse_blackframe_line (lines stderr)"

fun silence_loop :: "int option \<Rightarrow> string list \<Rightarrow> SilenceEvent list" where
  "silence_loop current_start [] = []"
| "silence_loop current_start (line # rest) =
     (if \<not> contains ''silencedetect'' line then silence_loop current_start rest
      else case split_nth1 ''silence_start:'' line of
          Some r \<Rightarrow>
            silence_loop (case parse_leading_f64 r of Some ts \<Rightarrow> Some (millis ts) | None \<Rightarrow> current_start) rest
        | None \<Rightarrow>
            (case Option.bind (Option.bind (split_nth1 ''silence_end:'' line) next_word) parse_leading_f64 of
               None \<Rightarrow> silence_loop current_start rest
             | Some end' \<Rightarrow>
                 (case current_start of
                    None \<Rightarrow> silence_loop current_start rest
                  | Some start \<Rightarrow>
                      \<lparr>si_start_ms = start, si_end_ms = millis end',
                       si_duration_ms = i32_wrap (millis end' - start)\<rparr> # silence_loop None rest)))"

definition parse_silence_output :: "string \<Rightarrow> SilenceEvent list" where
  "parse_silence_output stderr = silence_loop None (lines stderr)"

fun cluster_loop :: "int \<Rightarrow> int \<Rightarrow> int \<Rightarrow> int list \<Rightarrow> (int \<times> int) list" where
  "cluster_loop min_duration run_start run_end [] =
     (if i32_wrap (run_end - run_start) \<ge> min_duration then [(run_start, run_end)] else [])"
| "cluster_loop min_duration run_start run_end (time # later) =
     (if i32_wrap (time - run_end) \<le> 2000 then cluster_loop min_duration run_start time later
      else (if i32_wrap (run_end - run_start) \<ge> min_duration then [(run_start, run_end)] else [])
           @ cluster_loop min_duration time time later)"

definition cluster_blackframes :: "BlackframeEvent list \<Rightarrow> int \<Rightarrow> (int \<times> int) list" where
  "cluster_blackframes events min_duration =
     (case sort (map bf_time_ms events) of
        [] \<Rightarrow> []
      | time # later \<Rightarrow> cluster_loop min_duration time time later)"

definition cluster_silence :: "SilenceEvent list \<Rightarrow> int \<Rightarrow> (int \<times> int) list" where
  "cluster_silence events min_duration =
     map (\<lambda>e. (si_start_ms e, si_end_ms e)) (filter (\<lambda>e. si_duration_ms e \<ge> min_duration) events)"

definition intervals_overlap :: "int \<times> int \<Rightarrow> int \<times> int \<Rightarrow> bool" where
  "intervals_overlap a b \<longleftrightarrow> fst a \<le> snd b \<and> fst b \<le> snd a"

definition credits_segment ::
  "SegmentSource \<Rightarrow> f32 \<Rightarrow> string list \<Rightarrow> SearchWindow \<Rightarrow> int \<Rightarrow> SafetyConfig \<Rightarrow> int \<times> int \<Rightarrow> DetectedSegment" where
  "credits_segment source conf methods window runtime_ms safety interval =
     apply_safety_padding safety
       \<lparr>segment_type = Credits, start_ms = fst interval, end_ms = snd interval, skip_to_ms = snd interval,
        seg_source = source, confidence = conf,
        seg_metadata = JObject
          [(''methods'', JArray (map JString methods)), (''runtime_ms'', json_int runtime_ms),
           (''window'', JObject [(''end_ms'', json_int (win_end_ms window)),
                                 (''start_ms'', json_int (win_start_ms window))])]\<rparr>"

definition combine_credits_signals ::
  "BlackframeEvent list \<Rightarrow> SilenceEvent list \<Rightarrow> SearchWindow \<Rightarrow> int \<Rightarrow> SafetyConfig \<Rightarrow> DetectedSegment list" where
  "combine_credits_signals blackframes silence window runtime_ms safety =
     (let min_duration = min_ms (DurationThresholds_for_type Credits);
          bf_window = cluster_blackframes blackframes min_duration;
          sil_window = cluster_silence silence min_duration
      in map (\<lambda>bf. if list_ex (\<lambda>s. intervals_overlap bf s) sil_window
                   then credits_segment Combined (f32_round (4 / 5)) [''blackframe'', ''silence''] window runtime_ms safety bf
                   else credits_segment Blackframe (f32_round (1 / 2)) [''blackframe''] window runtime_ms safety bf)
           bf_window
         @ map (credits_segment Silence (f32_round (1 / 2)) [''silence''] window runtime_ms safety)
             (filter (\<lambda>s. \<not> list_ex (\<lambda>b. intervals_overlap b s) bf_window) sil_window))"

definition i32_saturate :: "int \<Rightarrow> int" where
  "i32_saturate x = max (- (2 ^ 31)) (min (2 ^ 31 - 1) x)"

definition detect_outro_from_silence ::
  "int \<Rightarrow> SilenceEvent list \<Rightarrow> int \<Rightarrow> bool \<Rightarrow> DetectedSegment option" where
  "detect_outro_from_silence credits_end_ms silence runtime_ms is_movie =
     (let thresholds = DurationThresholds_for_type Outro in
      case List.find (\<lambda>event. si_start_ms event \<le> i32_saturate (credits_end_ms + 5000)
                          \<and> si_end_ms event \<ge> credits_end_ms \<and> si_end_ms event < runtime_ms) silence of
        None \<Rightarrow> None
      | Some gap \<Rightarrow>
          (let start = si_end_ms gap; duration = i32_saturate (runtime_ms - start)
           in if duration < min_ms thresholds \<or> duration > DurationThresholds_max_for thresholds is_movie then None
              else Some \<lparr>segment_type = Outro, start_ms = start, end_ms = runtime_ms, skip_to_ms = runtime_ms,
                seg_source = Silence, confidence = f32_round (3 / 5),
                seg_metadata = JObject
                  [(''algorithm'', JString ''silence_gap_v1''), (''credits_end_ms'', json_int credits_end_ms),
                   (''runtime_ms'', json_int runtime_ms), (''silence_end_ms'', json_int (si_end_ms gap)),
                   (''silence_start_ms'', json_int (si_start_ms gap))]\<rparr>))"

end
