(* ===== verification/Subtitles.thy ===== *)
theory Subtitles
  imports Text_Scan
begin

text \<open>
  services/subtitles.rs: conversion between the text formats of subtitles, shifting and rescaling of
  their times, the alignment of cues with speech and the hash of a media file. What the other programs
  that are run print or leave behind is an argument of the definitions.
\<close>

section \<open>Text\<close>

text \<open>\<^verbatim>\<open>str::split\<close> at every occurrence of a non-empty pattern.\<close>

lemma split_at_shorter: "split_at pat s = Some (a, b) \<Longrightarrow> pat \<noteq> [] \<Longrightarrow> length b < length s"
  by (induction pat s arbitrary: a rule: split_at.induct) (auto split: if_splits)

function split_str :: "string \<Rightarrow> string \<Rightarrow> string list" where
  "split_str pat s =
     (case split_at pat s of
        None \<Rightarrow> [s]
      | Some (a, rest) \<Rightarrow> (if pat = [] then [s] else a # split_str pat rest))"
  by pat_completeness auto
termination
  by (relation "measure (\<lambda>(pat, s). length s)") (auto dest: split_at_shorter)

declare split_str.simps [simp del]

definition replace_char :: "char \<Rightarrow> char \<Rightarrow> string \<Rightarrow> string" where
  "replace_char c d s = map (\<lambda>x. if x = c then d else x) s"

fun join :: "string \<Rightarrow> string list \<Rightarrow> string" where
  "join sep [] = []"
| "join sep [s] = s"
| "join sep (s # ss) = s @ sep @ join sep ss"

definition replace_str :: "string \<Rightarrow> string \<Rightarrow> string \<Rightarrow> string" where
  "replace_str pat new s = join new (split_str pat s)"

definition NL :: string where
  "NL = [CHR 0x0A]"

definition parse_u32 :: "string \<Rightarrow> u32 option" where
  "parse_u32 s = Option.bind (parse_u64 s) (\<lambda>n. if unat n < 2 ^ 32 then Some (ucast n) else None)"

definition or_zero :: "'a::zero option \<Rightarrow> 'a" where
  "or_zero x = (case x of Some v \<Rightarrow> v | None \<Rightarrow> 0)"

section \<open>Times\<close>

definition split_fraction :: "char \<Rightarrow> string \<Rightarrow> string \<times> string" where
  "split_fraction separator s = (case split_once separator s of Some p \<Rightarrow> p | None \<Rightarrow> (s, ''0''))"

definition parse_timecode_to_ms :: "string \<Rightarrow> char \<Rightarrow> u64" where
  "parse_timecode_to_ms tc separator =
     (let total = (\<lambda>h m s_ms.
            let (s_str, ms_str) = split_fraction separator s_ms
            in h * 3600000 + m * 60000 + or_zero (parse_u64 s_str) * 1000 + or_zero (parse_u64 ms_str))
      in case split_on CHR '':'' (trim tc) of
           [h, m, s_ms] \<Rightarrow> total (or_zero (parse_u64 h)) (or_zero (parse_u64 m)) s_ms
         | [m, s_ms] \<Rightarrow> total 0 (or_zero (parse_u64 m)) s_ms
         | _ \<Rightarrow> 0)"

definition ms_to_timecode :: "u64 \<Rightarrow> char \<Rightarrow> string" where
  "ms_to_timecode ms separator =
     pad 2 (show_u (ms div 3600000)) @ '':'' @ pad 2 (show_u (ms mod 3600000 div 60000)) @ '':''
     @ pad 2 (show_u (ms mod 60000 div 1000)) @ [separator] @ pad 3 (show_u (ms mod 1000))"

definition ass_timestamp_to_srt :: "string \<Rightarrow> string" where
  "ass_timestamp_to_srt ts =
     (case split_on CHR '':'' (trim ts) of
        [h, m, sec_and_cs] \<Rightarrow>
          (let (sec_str, cs_str) = split_fraction CHR ''.'' sec_and_cs;
               ms = or_zero (parse_u32 cs_str) * 10
           in pad 2 (show_u (or_zero (parse_u32 h))) @ '':'' @ pad 2 (show_u (or_zero (parse_u32 m))) @ '':''
              @ pad 2 (show_u (or_zero (parse_u32 sec_str))) @ '','' @ pad 3 (show_u ms))
      | _ \<Rightarrow> ''00:00:00,000'')"

definition srt_timestamp_to_ass :: "string \<Rightarrow> string" where
  "srt_timestamp_to_ass ts =
     (let ms = parse_timecode_to_ms (trim ts) CHR '',''
      in show_u (ms div 3600000) @ '':'' @ pad 2 (show_u (ms mod 3600000 div 60000)) @ '':''
         @ pad 2 (show_u (ms mod 60000 div 1000)) @ ''.'' @ pad 2 (show_u (ms mod 1000 div 10)))"

definition split_srt_timecode :: "string \<Rightarrow> (string \<times> string) option" where
  "split_srt_timecode line =
     (case split_str ''-->'' line of [a, b] \<Rightarrow> Some (trim a, trim b) | _ \<Rightarrow> None)"

section \<open>Conversion\<close>

text \<open>The line with the times of a block, and the lines of text after it.\<close>

definition block_cue :: "string \<Rightarrow> (string \<times> string list) option" where
  "block_cue block =
     (case dropWhile (\<lambda>l. \<not> contains ''-->'' l) (lines block) of [] \<Rightarrow> None | tc # text \<Rightarrow> Some (tc, text))"

definition render_cue :: "nat \<Rightarrow> string \<Rightarrow> string list \<Rightarrow> string" where
  "render_cue n timecode text = show_nat n @ NL @ timecode @ NL @ concat (map (\<lambda>l. l @ NL) text) @ NL"

fun srt_blocks :: "nat \<Rightarrow> string list \<Rightarrow> string" where
  "srt_blocks n [] = []"
| "srt_blocks n (block # blocks) =
     (let block = trim block in
      if block = [] then srt_blocks n blocks
      else case block_cue block of
          None \<Rightarrow> srt_blocks n blocks
        | Some (tc, text) \<Rightarrow> render_cue n (replace_char CHR '','' CHR ''.'' tc) text @ srt_blocks (n + 1) blocks)"

definition srt_to_webvtt :: "string \<Rightarrow> string" where
  "srt_to_webvtt srt = ''WEBVTT'' @ NL @ NL @ srt_blocks 1 (split_str (NL @ NL) srt)"

fun vtt_blocks :: "nat \<Rightarrow> string list \<Rightarrow> string" where
  "vtt_blocks n [] = []"
| "vtt_blocks n (block # blocks) =
     (let block = trim block in
      if block = [] \<or> starts_with block ''WEBVTT'' \<or> starts_with block ''NOTE'' then vtt_blocks n blocks
      else case block_cue block of
          None \<Rightarrow> vtt_blocks n blocks
        | Some (tc, text) \<Rightarrow> render_cue n (replace_char CHR ''.'' CHR '','' tc) text @ vtt_blocks (n + 1) blocks)"

definition vtt_to_srt :: "string \<Rightarrow> string" where
  "vtt_to_srt vtt = vtt_blocks 1 (split_str (NL @ NL) vtt)"

fun strip_tags :: "bool \<Rightarrow> string \<Rightarrow> string" where
  "strip_tags in_tag [] = []"
| "strip_tags in_tag (c # s) =
     (if c = CHR ''{'' then strip_tags True s
      else if c = CHR ''}'' then strip_tags False s
      else if in_tag then strip_tags in_tag s else c # strip_tags in_tag s)"

definition strip_ass_override_tags :: "string \<Rightarrow> string" where
  "strip_ass_override_tags text = strip_tags False text"

record ass_state =
  in_events :: bool
  start_idx :: nat
  end_idx :: nat
  text_idx :: nat
  cue_num :: nat

fun format_fields :: "nat \<Rightarrow> string list \<Rightarrow> ass_state \<Rightarrow> ass_state" where
  "format_fields i [] st = st"
| "format_fields i (field # fs) st =
     (let f = to_ascii_lowercase (trim field)
      in format_fields (i + 1) fs
           (if f = ''start'' then st\<lparr>start_idx := i\<rparr> else if f = ''end'' then st\<lparr>end_idx := i\<rparr>
            else if f = ''text'' then st\<lparr>text_idx := i\<rparr> else st))"

definition ass_dialogue :: "string \<Rightarrow> ass_state \<Rightarrow> string \<times> ass_state" where
  "ass_dialogue dialogue st =
     (let fs = split_on CHR '','' dialogue in
      if length fs \<le> max (max (text_idx st) (start_idx st)) (end_idx st) then ([], st)
      else
        (let start = trim (fs ! start_idx st); end' = trim (fs ! end_idx st); text = trim (fs ! text_idx st);
             clean = replace_str [CHR 0x5C, CHR ''h''] '' ''
               (replace_str [CHR 0x5C, CHR ''n''] NL (replace_str [CHR 0x5C, CHR ''N''] NL text))
         in (show_nat (cue_num st) @ NL @ ass_timestamp_to_srt start @ '' --> '' @ ass_timestamp_to_srt end' @ NL
               @ strip_ass_override_tags clean @ NL @ NL,
             st\<lparr>cue_num := cue_num st + 1\<rparr>)))"

definition ends_with_char :: "char \<Rightarrow> string \<Rightarrow> bool" where
  "ends_with_char c s \<longleftrightarrow> s \<noteq> [] \<and> last s = c"

definition ass_line :: "string \<Rightarrow> ass_state \<Rightarrow> string \<times> ass_state" where
  "ass_line raw st =
     (let line = trim raw in
      if starts_with line ''['' \<and> ends_with_char CHR '']'' line
      then ([], st\<lparr>in_events := eq_ignore_ascii_case line ''[Events]''\<rparr>)
      else if \<not> in_events st then ([], st)
      else case strip_prefix ''Format:'' line of
          Some spec \<Rightarrow> ([], format_fields 0 (split_on CHR '','' spec) st)
        | None \<Rightarrow>
            (case strip_prefix ''Dialogue:'' line of
               Some dialogue \<Rightarrow> ass_dialogue dialogue st
             | None \<Rightarrow> ([], st)))"

fun ass_lines :: "string list \<Rightarrow> ass_state \<Rightarrow> string" where
  "ass_lines [] st = []"
| "ass_lines (line # rest) st = (let (out, st') = ass_line line st in out @ ass_lines rest st')"

definition ass_to_srt :: "string \<Rightarrow> string" where
  "ass_to_srt ass =
     ass_lines (lines ass) \<lparr>in_events = False, start_idx = 1, end_idx = 2, text_idx = 9, cue_num = 1\<rparr>"

definition ASS_HEADER :: string where
  "ASS_HEADER = concat (map (\<lambda>l. l @ NL)
     [''[Script Info]'', ''ScriptType: v4.00+'', ''WrapStyle: 0'', '''', ''[V4+ Styles]'',
      ''Format: Name, Fontname, Fontsize, PrimaryColour, BackColour, OutlineColour, ''
      @ ''Bold, Italic, Underline, StrikeOut, ScaleX, ScaleY, Spacing, Angle, ''
      @ ''BorderStyle, Outline, Shadow, Alignment, MarginL, MarginR, MarginV, Encoding'',
      ''Style: Default,Arial,20,&H00FFFFFF,&H000000FF,&H00000000,0,0,0,0,100,100,0,0,1,2,2,2,10,10,10,1'', '''',
      ''[Events]'', ''Format: Layer, Start, End, Style, Name, MarginL, MarginR, MarginV, Effect, Text''])"

definition ass_event :: "string \<Rightarrow> string" where
  "ass_event block =
     (let block = trim block in
      if block = [] then []
      else case block_cue block of
          None \<Rightarrow> []
        | Some (tc, text) \<Rightarrow>
            (case split_srt_timecode tc of
               None \<Rightarrow> []
             | Some (start, end') \<Rightarrow>
                 ''Dialogue: 0,'' @ srt_timestamp_to_ass start @ '','' @ srt_timestamp_to_ass end' @ '',Default,,0,0,0,,''
                 @ join [CHR 0x5C, CHR ''N''] text @ NL))"

definition srt_to_ass :: "string \<Rightarrow> string" where
  "srt_to_ass srt = ASS_HEADER @ concat (map ass_event (split_str (NL @ NL) srt))"

definition to_srt :: "string \<Rightarrow> string \<Rightarrow> string" where
  "to_srt content source_format =
     (if source_format = ''srt'' then content
      else if source_format = ''ass'' \<or> source_format = ''ssa'' then ass_to_srt content
      else if source_format = ''vtt'' then vtt_to_srt content
      else content)"

section \<open>Shifting and rescaling\<close>

definition map_times :: "(u64 \<Rightarrow> u64) \<Rightarrow> char \<Rightarrow> string \<Rightarrow> string" where
  "map_times f separator line =
     (case split_str ''-->'' line of
        [a, b] \<Rightarrow>
          ms_to_timecode (f (parse_timecode_to_ms (trim a) separator)) separator @ '' --> ''
          @ ms_to_timecode (f (parse_timecode_to_ms (trim b) separator)) separator
      | _ \<Rightarrow> line)"

text \<open>The sum is of signed 64-bit integers.\<close>

definition shift_ms :: "int \<Rightarrow> u64 \<Rightarrow> u64" where
  "shift_ms offset_ms ms = word_of_int (max 0 (i64_wrap (sint ms + offset_ms)))"

definition apply_offset_to_timecode_line :: "string \<Rightarrow> char \<Rightarrow> int \<Rightarrow> string" where
  "apply_offset_to_timecode_line line separator offset_ms = map_times (shift_ms offset_ms) separator line"

definition map_timecode_lines :: "(string \<Rightarrow> string) \<Rightarrow> string \<Rightarrow> string" where
  "map_timecode_lines f content = join NL (map (\<lambda>l. if contains ''-->'' l then f l else l) (lines content))"

definition apply_offset :: "string \<Rightarrow> string \<Rightarrow> int \<Rightarrow> string" where
  "apply_offset content format offset_ms =
     (let separator = (if format = ''vtt'' then CHR ''.'' else CHR '','')
      in map_timecode_lines (\<lambda>l. apply_offset_to_timecode_line l separator offset_ms) content)"

definition f64_div :: "f64 \<Rightarrow> f64 \<Rightarrow> f64" where
  "f64_div x y =
     (case (x, y) of
        (NaN, _) \<Rightarrow> NaN
      | (_, NaN) \<Rightarrow> NaN
      | (Inf _, Inf _) \<Rightarrow> NaN
      | (Inf s, Fin b) \<Rightarrow> Inf (s \<noteq> (b < 0))
      | (Fin _, Inf _) \<Rightarrow> Fin 0
      | (Fin a, Fin b) \<Rightarrow> (if b = 0 then (if a = 0 then NaN else Inf (a < 0)) else f64_round (a / b)))"

definition rescale_ms :: "f64 \<Rightarrow> u64 \<Rightarrow> u64" where
  "rescale_ms scale ms = f64_to_u64 (f64_round_away (f64_mul (f64_of_u64 ms) scale))"

definition rescale_timecode_line :: "string \<Rightarrow> char \<Rightarrow> f64 \<Rightarrow> string" where
  "rescale_timecode_line line separator scale = map_times (rescale_ms scale) separator line"

definition detect_separator :: "string \<Rightarrow> char" where
  "detect_separator content =
     (case find_map (\<lambda>l. if contains ''-->'' l
                         then (if CHR '','' \<in> set l then Some (CHR '','') else if CHR ''.'' \<in> set l then Some (CHR ''.'') else None)
                         else None) (lines content) of
        Some c \<Rightarrow> c
      | None \<Rightarrow> CHR '','')"

definition adjust_fps :: "string \<Rightarrow> f64 \<Rightarrow> f64 \<Rightarrow> string" where
  "adjust_fps content source_fps target_fps =
     (if f64_le source_fps (Fin 0) \<or> f64_le target_fps (Fin 0)
        \<or> f64_lt (f64_abs (f64_sub source_fps target_fps)) f64_EPSILON
      then content
      else (let scale = f64_div source_fps target_fps; separator = detect_separator content
            in map_timecode_lines (\<lambda>l. rescale_timecode_line l separator scale) content))"

section \<open>Alignment with speech\<close>

definition silence_ms :: "string \<Rightarrow> u64" where
  "silence_ms rest =
     (let secs = (case parse_f64 (case next_word rest of Some w \<Rightarrow> w | None \<Rightarrow> ''0'') of Some x \<Rightarrow> x | None \<Rightarrow> Fin 0)
      in f64_to_u64 (f64_round_away (f64_mul secs (Fin 1000))))"

fun silence_intervals :: "u64 option \<Rightarrow> string list \<Rightarrow> (u64 \<times> u64) list" where
  "silence_intervals current_start [] = []"
| "silence_intervals current_start (line # rest) =
     (let trimmed = trim line in
      case find_after ''silence_start:'' trimmed of
        Some r \<Rightarrow> silence_intervals (Some (silence_ms r)) rest
      | None \<Rightarrow>
          (case find_after ''silence_end:'' trimmed of
             None \<Rightarrow> silence_intervals current_start rest
           | Some r \<Rightarrow>
               (case current_start of
                  Some start \<Rightarrow> (start, silence_ms r) # silence_intervals None rest
                | None \<Rightarrow> silence_intervals None rest)))"

definition parse_silence_intervals :: "string \<Rightarrow> (u64 \<times> u64) list" where
  "parse_silence_intervals stderr = silence_intervals None (lines stderr)"

definition compute_speech_starts :: "(u64 \<times> u64) list \<Rightarrow> u64 list" where
  "compute_speech_starts intervals =
     (if intervals = [] then []
      else (if fst (hd intervals) > 0 then [0] else []) @ map snd (butlast intervals) @ [snd (last intervals)])"

definition parse_srt_cue_starts :: "string \<Rightarrow> u64 list" where
  "parse_srt_cue_starts srt =
     List.map_filter (\<lambda>block.
       let block = trim block in
       if block = [] then None
       else find_map (\<lambda>line. map_option (\<lambda>(a, _). parse_timecode_to_ms (trim a) CHR '','') (split_at ''-->'' line)) (lines block))
       (split_str (NL @ NL) srt)"

definition matching_cues :: "u64 list \<Rightarrow> u64 list \<Rightarrow> int \<Rightarrow> nat" where
  "matching_cues speech_starts cue_starts offset =
     length (filter (\<lambda>cue. list_ex (\<lambda>speech.
       i64_wrap \<bar>i64_wrap (i64_wrap (sint cue + offset) - sint speech)\<bar> \<le> 1000) speech_starts) cue_starts)"

fun best_offset :: "(int \<times> nat) \<Rightarrow> (int \<times> nat) list \<Rightarrow> int \<times> nat" where
  "best_offset best [] = best"
| "best_offset best ((offset, count) # rest) =
     best_offset (if count > snd best \<or> (count = snd best \<and> \<bar>offset\<bar> < \<bar>fst best\<bar>) then (offset, count) else best) rest"

definition candidate_offsets :: "int list" where
  "candidate_offsets = map (\<lambda>i. - 30000 + 250 * int i) [0..<241]"

definition cross_correlate :: "u64 list \<Rightarrow> u64 list \<Rightarrow> int \<times> f64" where
  "cross_correlate speech_starts cue_starts =
     (let counts = map (matching_cues speech_starts cue_starts) candidate_offsets;
          (offset, best_count) = best_offset (0, 0) (zip candidate_offsets counts);
          mean = f64_div (fold (\<lambda>c acc. f64_add acc (f64_of_int (int c))) counts (Fin 0)) (f64_of_int (int (length counts)))
      in (offset, if f64_lt (Fin 0) mean then f64_div (f64_of_int (int best_count)) mean else Fin 0))"

datatype subtitle_error =
    FileNotFound uuid
  | OcrUnavailable
  | OcrLowConfidence f64 f64
  | ProviderUnavailable string
  | ProviderRateLimited string
  | VoiceAnalysisFailed string
  | MediaItemNotFound uuid
  | InvalidSubtitleFormat string
  | InvalidLanguageCode string
  | InvalidSubtitleMode string
  | InvalidOcrEngine string
  | FetchFailed string
  | ConversionFailed string
  | SyncDataNotFound uuid
  | Database

record voice_alignment_result =
  offset_ms :: int
  confidence :: f64
  speech_segments :: nat
  subtitle_cues :: nat

text \<open>The outcome of the run of ffmpeg is its error or what it wrote.\<close>

definition run_silencedetect :: "string + string \<Rightarrow> subtitle_error + (u64 \<times> u64) list" where
  "run_silencedetect ffmpeg =
     (case ffmpeg of
        Inl reason \<Rightarrow> Inl (VoiceAnalysisFailed reason)
      | Inr stderr \<Rightarrow> Inr (parse_silence_intervals stderr))"

definition analyze_voice_activity :: "string + string \<Rightarrow> string \<Rightarrow> subtitle_error + voice_alignment_result" where
  "analyze_voice_activity ffmpeg subtitle_srt =
     bind_res (run_silencedetect ffmpeg) (\<lambda>intervals.
       if intervals = [] then Inl (VoiceAnalysisFailed ''no silence detected; cannot derive speech segments'')
       else (let speech_starts = compute_speech_starts intervals in
         if speech_starts = [] then Inl (VoiceAnalysisFailed ''no speech segments derived from silence intervals'')
         else (let cue_starts = parse_srt_cue_starts subtitle_srt in
           if cue_starts = [] then Inl (VoiceAnalysisFailed ''no subtitle cues found in SRT content'')
           else (let (offset, conf) = cross_correlate speech_starts cue_starts
                 in Inr \<lparr>offset_ms = offset, confidence = conf,
                         speech_segments = length speech_starts, subtitle_cues = length cue_starts\<rparr>))))"

section \<open>Recognition and hashing\<close>

datatype ocr_engine = PaddleOcr | Tesseract

definition detect_ocr_engine :: "bool \<Rightarrow> bool \<Rightarrow> ocr_engine option" where
  "detect_ocr_engine paddleocr_available tesseract_available =
     (if paddleocr_available then Some PaddleOcr else if tesseract_available then Some Tesseract else None)"

text \<open>
  The recognition itself is not written yet: the stream is extracted and read, and the result is an
  error in every case. \<open>extracted\<close> is the error of the extraction or of the reading, or the bytes.
\<close>

definition run_ocr :: "ocr_engine option \<Rightarrow> ocr_engine option \<Rightarrow> string + u8 list \<Rightarrow> subtitle_error + unit" where
  "run_ocr engine detected extracted =
     (case (case engine of Some e \<Rightarrow> Some e | None \<Rightarrow> detected) of
        None \<Rightarrow> Inl OcrUnavailable
      | Some _ \<Rightarrow> (case extracted of Inl reason \<Rightarrow> Inl (ConversionFailed reason) | Inr _ \<Rightarrow> Inl OcrUnavailable))"

definition CHUNK_SIZE :: nat where
  "CHUNK_SIZE = 65536"

definition MIN_OSHASH_FILE_SIZE :: nat where
  "MIN_OSHASH_FILE_SIZE = 131072"

fun from_le_bytes :: "u8 list \<Rightarrow> u64" where
  "from_le_bytes [] = 0"
| "from_le_bytes (b # bs) = ucast b + 256 * from_le_bytes bs"

text \<open>\<^verbatim>\<open>chunks_exact(8)\<close>, each chunk added with wrap-around.\<close>

function add_chunks :: "u64 \<Rightarrow> u8 list \<Rightarrow> u64" where
  "add_chunks hash bytes =
     (if length bytes < 8 then hash else add_chunks (hash + from_le_bytes (take 8 bytes)) (drop 8 bytes))"
  by pat_completeness auto
termination
  by (relation "measure (\<lambda>(hash, bytes). length bytes)") auto

declare add_chunks.simps [simp del]

text \<open>The value of the hash; the code prints it in sixteen hexadecimal digits.\<close>

definition oshash :: "u8 list \<Rightarrow> u64 option" where
  "oshash file =
     (if length file < MIN_OSHASH_FILE_SIZE then None
      else Some (add_chunks (add_chunks (word_of_nat (length file)) (take CHUNK_SIZE file))
                   (drop (length file - CHUNK_SIZE) file)))"

end
