(* ===== verification/Subtitle_Props.thy ===== *)
theory Subtitle_Props
  imports Subtitles
begin

text \<open>
  The laws of services/subtitles.rs: times survive printing and reading, documents of well-formed cues
  survive conversion and are shifted cue by cue, the alignment picks the best candidate, and the inputs
  that the conversions damage.
\<close>

section \<open>White space at the ends\<close>

abbreviation ws_last :: "string \<Rightarrow> bool" where
  "ws_last s \<equiv> ws_head (\<lambda>a b. ws2 b a) (\<lambda>a b c. ws3 c b a) (rev s)"

lemma ws_head_digit [simp]:
  assumes "is_digit c"
  shows "\<not> ws_head ws2 ws3 (c # s)" "\<not> ws_head (\<lambda>a b. ws2 b a) (\<lambda>a b c. ws3 c b a) (c # s)"
  using assms
  by (cases s rule: remdups_adj.cases; auto simp: is_digit_def ascii_ws_def ws2_def ws3_def Let_def)+

lemma ws_last_line:
  assumes "l \<noteq> []" and "\<not> ws_last l" and "(of_char c :: nat) < 128"
  shows "\<not> ws_last (s @ c # l)"
proof -
  obtain a r where r: "rev l = a # r" using assms(1) by (metis list.exhaust rev_is_Nil_conv)
  show ?thesis
  proof (cases r rule: remdups_adj.cases)
    case 1
    then show ?thesis using assms r by (cases "rev s") (auto simp: ws2_def ws3_def Let_def)
  qed (use assms r in \<open>auto simp: ws3_def Let_def\<close>)
qed

lemma trim_digits:
  assumes "all_digits a" and "all_digits b"
  shows "trim (a @ s @ b) = a @ s @ b"
proof (rule trim_id)
  obtain c a' where "a = c # a'" "is_digit c" using assms(1) by (cases a) (auto simp: all_digits_def)
  then show "\<not> ws_head ws2 ws3 (a @ s @ b)" by simp
next
  obtain d b' where "b = b' @ [d]" "is_digit d"
    using assms(2) by (cases b rule: rev_cases) (auto simp: all_digits_def)
  then show "\<not> ws_last (a @ s @ b)" by simp
qed

lemma trim_spaces:
  assumes "trim s = s"
  shows "trim (s @ '' '') = s" "trim ('' '' @ s) = s"
proof -
  have ends: "\<not> ws_head ws2 ws3 s" "\<not> ws_last s"
    using assms trim_no_ws_head [of s] trim_no_ws_last [of s] by simp_all
  have "ascii_ws CHR '' ''" by (simp add: ascii_ws_def)
  then have lead: "trim_with two three (CHR '' '' # t) = trim_with two three t" for two three t
    by (subst trim_with.simps) simp
  show "trim ('' '' @ s) = s"
    using ends by (simp add: trim_def trim_start_def trim_end_def lead trim_with_no_ws)
  show "trim (s @ '' '') = s"
  proof (cases "s = []")
    case False
    have "\<not> ws_head ws2 ws3 (s @ '' '')"
    proof (cases s rule: remdups_adj.cases)
      case (3 x y xs)
      then show ?thesis using ends(1) by (cases xs) (auto simp: ws3_def Let_def)
    qed (use False ends(1) in \<open>auto simp: ws2_def\<close>)
    then show ?thesis
      using ends by (simp add: trim_def trim_start_def trim_end_def lead trim_with_no_ws)
  qed (simp add: trim_def trim_start_def trim_end_def lead trim_with_no_ws)
qed

section \<open>Times\<close>

lemma split_on_cons: "c \<notin> set a \<Longrightarrow> split_on c (a @ c # b) = a # split_on c b"
  by (induction a) auto

lemma all_digits_pad_show_u [simp]: "all_digits (pad w (show_u n))"
  by (simp add: all_digits_pad)

lemma pad_show_u_no_char: "\<not> is_digit c \<Longrightarrow> c \<notin> set (pad w (show_u n))"
  using all_digits_pad_show_u digits_no_char by blast

lemma parse_pad_show_u [simp]: "parse_u64 (pad w (show_u (m :: u64))) = Some m"
  using parse_u64_show_u [of m] parse_u64_digits [of "pad w (show_u m)"] parse_u64_digits [of "show_u m"] by simp

text \<open>A separator of fractions is neither a digit nor the separator of the other parts.\<close>

definition time_sep :: "char \<Rightarrow> bool" where
  "time_sep c \<longleftrightarrow> \<not> is_digit c \<and> c \<noteq> CHR '':''"

lemma time_seps [simp]: "time_sep CHR '',''" "time_sep CHR ''.''"
  by (simp_all add: time_sep_def is_digit_def)

lemma colon_not_digit [simp]: "\<not> is_digit CHR '':''"
  by (simp add: is_digit_def)

lemma trim_timecode [simp]: "trim (ms_to_timecode ms sep) = ms_to_timecode ms sep"
  unfolding ms_to_timecode_def
  using trim_digits [OF all_digits_pad_show_u all_digits_pad_show_u] by (metis append_assoc)

lemma timecode_parts:
  fixes ms :: u64
  shows "ms div 3600000 * 3600000 + ms mod 3600000 div 60000 * 60000 + ms mod 60000 div 1000 * 1000 + ms mod 1000 = ms"
proof -
  have r: "ms mod 3600000 mod 60000 = ms mod 60000" "ms mod 60000 mod 1000 = ms mod 1000"
    by (simp_all add: word_unat_eq_iff unat_mod_distrib mod_mod_cancel)
  note parts = div_mult_mod_eq [of ms 3600000] div_mult_mod_eq [of "ms mod 3600000" 60000, unfolded r]
    div_mult_mod_eq [of "ms mod 60000" 1000, unfolded r]
  show ?thesis by (simp only: add.assoc parts)
qed

lemma parse_ms_to_timecode:
  assumes "time_sep sep"
  shows "parse_timecode_to_ms (ms_to_timecode ms sep) sep = ms"
proof -
  let ?f = "pad 2 (show_u (ms mod 60000 div 1000)) @ sep # pad 3 (show_u (ms mod 1000))"
  have "split_on CHR '':'' (ms_to_timecode ms sep)
      = [pad 2 (show_u (ms div 3600000)), pad 2 (show_u (ms mod 3600000 div 60000)), ?f]"
    using assms by (auto simp: ms_to_timecode_def split_on_cons pad_show_u_no_char time_sep_def intro!: split_on_no_sep)
  moreover have "split_fraction sep ?f = (pad 2 (show_u (ms mod 60000 div 1000)), pad 3 (show_u (ms mod 1000)))"
    using assms by (simp add: split_fraction_def split_once_at pad_show_u_no_char time_sep_def)
  ultimately show ?thesis
    by (simp add: parse_timecode_to_ms_def or_zero_def timecode_parts)
qed

section \<open>Lines and blocks\<close>

lemma NL_simps [simp]: "NL \<noteq> []" "length NL = 1"
  by (simp_all add: NL_def)

text \<open>A line of a cue: not empty, of one line, with no white space at its end and no arrow.\<close>

definition text_line :: "string \<Rightarrow> bool" where
  "text_line l \<longleftrightarrow> l \<noteq> [] \<and> CHR 0x0A \<notin> set l \<and> \<not> ws_last l \<and> \<not> contains ''-->'' l"

lemma join_Cons: "ls \<noteq> [] \<Longrightarrow> join sep (l # ls) = l @ sep @ join sep ls"
  by (cases ls) auto

lemma concat_NL: "ls \<noteq> [] \<Longrightarrow> concat (map (\<lambda>l. l @ NL) ls) = join NL ls @ NL"
proof (induction ls)
  case (Cons l ls)
  then show ?case by (cases "ls = []") (auto simp: join_Cons)
qed simp

lemma strip_cr_id: "\<not> ws_last l \<Longrightarrow> strip_cr l = l"
proof -
  have "ascii_ws CHR 0x0D" by (simp add: ascii_ws_def)
  then have "ws_last (k @ [CHR 0x0D])" for k
    by (cases "rev k" rule: remdups_adj.cases) simp_all
  then show "\<not> ws_last l \<Longrightarrow> strip_cr l = l"
    by (cases l rule: rev_cases) (auto simp: strip_cr_def strip_suffix_char_def)
qed

lemma split_on_join:
  "ls \<noteq> [] \<Longrightarrow> list_all (\<lambda>l. CHR 0x0A \<notin> set l) ls \<Longrightarrow> split_on CHR 0x0A (join NL ls) = ls"
proof (induction ls)
  case (Cons l ls)
  then show ?case
    by (cases "ls = []") (auto simp: join_Cons split_on_no_sep split_on_cons NL_def)
qed simp

lemma split_on_lines:
  "list_all (\<lambda>l. CHR 0x0A \<notin> set l) ls \<Longrightarrow> split_on CHR 0x0A (concat (map (\<lambda>l. l @ NL) ls)) = ls @ [[]]"
  by (induction ls) (auto simp: split_on_cons NL_def)

lemma strip_crs: "list_all (\<lambda>l. \<not> ws_last l) ls \<Longrightarrow> map strip_cr ls = ls"
  by (induction ls) (auto simp: strip_cr_id)

lemma lines_concat:
  assumes "list_all (\<lambda>l. CHR 0x0A \<notin> set l \<and> \<not> ws_last l) ls"
  shows "lines (concat (map (\<lambda>l. l @ NL) ls)) = ls"
proof -
  have "list_all (\<lambda>l. CHR 0x0A \<notin> set l) ls" "list_all (\<lambda>l. \<not> ws_last l) ls"
    using assms by (simp_all add: list_all_iff)
  then show ?thesis by (simp add: lines_def split_on_lines strip_crs)
qed

lemma lines_join:
  assumes "list_all (\<lambda>l. l \<noteq> [] \<and> CHR 0x0A \<notin> set l \<and> \<not> ws_last l) ls" and "ls \<noteq> []"
  shows "lines (join NL ls) = ls"
proof -
  have "list_all (\<lambda>l. CHR 0x0A \<notin> set l) ls" "list_all (\<lambda>l. \<not> ws_last l) (butlast ls)" "last ls \<noteq> []"
    using assms by (auto simp: list_all_iff dest: in_set_butlastD)
  then show ?thesis
    using assms(2) strip_crs [of "butlast ls"] by (simp add: lines_def split_on_join)
qed

lemma join_not_Nil: "ls \<noteq> [] \<Longrightarrow> last ls \<noteq> [] \<Longrightarrow> join sep ls \<noteq> []"
  by (induction ls) (auto simp: join_Cons split: if_splits)

lemma ws_last_join: "ls \<noteq> [] \<Longrightarrow> last ls \<noteq> [] \<Longrightarrow> \<not> ws_last (last ls) \<Longrightarrow> \<not> ws_last (join NL ls)"
proof (induction ls)
  case (Cons l ls)
  show ?case
  proof (cases "ls = []")
    case False
    with Cons have "\<not> ws_last (join NL ls)" "join NL ls \<noteq> []" using join_not_Nil by auto
    then show ?thesis using ws_last_line [of "join NL ls" "CHR 0x0A" l] False by (simp add: join_Cons NL_def)
  qed (use Cons in simp)
qed simp

lemma split_at_skip:
  "c \<noteq> CHR 0x0A \<Longrightarrow>
     split_at (NL @ NL) (c # s) = map_option (\<lambda>(a, b). (c # a, b)) (split_at (NL @ NL) s)"
  "c \<noteq> CHR 0x0A \<Longrightarrow>
     split_at (NL @ NL) (CHR 0x0A # c # s) = map_option (\<lambda>(a, b). (CHR 0x0A # a, b)) (split_at (NL @ NL) (c # s))"
  by (simp_all add: starts_with_def NL_def)

lemma split_at_line:
  "CHR 0x0A \<notin> set l \<Longrightarrow>
     split_at (NL @ NL) (l @ s) = map_option (\<lambda>(a, b). (l @ a, b)) (split_at (NL @ NL) s)"
proof (induction l)
  case (Cons c l)
  then show ?case by (cases "split_at (NL @ NL) s") (auto simp: split_at_skip simp del: split_at.simps)
qed (cases "split_at (NL @ NL) s"; auto)

lemma split_at_block:
  assumes "list_all (\<lambda>l. l \<noteq> [] \<and> CHR 0x0A \<notin> set l) ls" and "ls \<noteq> []"
  shows "split_at (NL @ NL) (join NL ls @ NL @ NL @ s) = Some (join NL ls, s)"
  using assms
proof (induction ls)
  case (Cons l ls)
  have gap: "split_at (NL @ NL) (NL @ NL @ s) = Some ([], s)" by (simp add: starts_with_def NL_def)
  show ?case
  proof (cases "ls = []")
    case True
    then show ?thesis using Cons.prems gap by (simp add: split_at_line del: split_at.simps)
  next
    case False
    then obtain c k ls' where ls: "ls = (c # k) # ls'" "c \<noteq> CHR 0x0A"
      using Cons.prems by (cases ls; cases "hd ls") auto
    then have "\<exists>t. join NL ls @ NL @ NL @ s = c # t" by (cases ls') auto
    then have "split_at (NL @ NL) (NL @ join NL ls @ NL @ NL @ s) = Some (NL @ join NL ls, s)"
      using Cons False ls split_at_skip(2) [of c] by (auto simp: NL_def simp del: split_at.simps)
    then show ?thesis using Cons.prems False by (simp add: join_Cons split_at_line del: split_at.simps)
  qed
qed simp

lemma split_str_block:
  assumes "list_all (\<lambda>l. l \<noteq> [] \<and> CHR 0x0A \<notin> set l) ls" and "ls \<noteq> []"
  shows "split_str (NL @ NL) (join NL ls @ NL @ NL @ s) = join NL ls # split_str (NL @ NL) s"
  by (subst split_str.simps) (simp add: split_at_block [OF assms])

lemma split_str_Nil [simp]: "split_str pat [] = [[]]"
  by (subst split_str.simps) simp

lemma split_at_first:
  assumes "p \<notin> set a"
  shows "split_at (p # ps) (a @ p # ps @ b) = Some (a, b)"
  using assms by (induction a) (auto simp: starts_with_def)

lemma not_contains: "p \<notin> set s \<Longrightarrow> \<not> contains (p # ps) s"
  by (induction s) (auto simp: contains_def starts_with_def)

section \<open>Documents\<close>

record cue =
  cue_start :: u64
  cue_end :: u64
  cue_text :: "string list"

definition time_line :: "char \<Rightarrow> cue \<Rightarrow> string" where
  "time_line sep c = ms_to_timecode (cue_start c) sep @ '' --> '' @ ms_to_timecode (cue_end c) sep"

definition cue_lines :: "char \<Rightarrow> nat \<Rightarrow> cue \<Rightarrow> string list" where
  "cue_lines sep n c = show_nat n # time_line sep c # cue_text c"

fun doc_lines :: "char \<Rightarrow> nat \<Rightarrow> cue list \<Rightarrow> string list" where
  "doc_lines sep n [] = []"
| "doc_lines sep n (c # cs) = cue_lines sep n c @ [[]] @ doc_lines sep (n + 1) cs"

definition print_lines :: "string list \<Rightarrow> string" where
  "print_lines ls = concat (map (\<lambda>l. l @ NL) ls)"

definition srt_doc :: "cue list \<Rightarrow> string" where
  "srt_doc cs = print_lines (doc_lines CHR '','' 1 cs)"

definition vtt_doc :: "cue list \<Rightarrow> string" where
  "vtt_doc cs = print_lines (''WEBVTT'' # [] # doc_lines CHR ''.'' 1 cs)"

definition wf_cue :: "cue \<Rightarrow> bool" where
  "wf_cue c \<longleftrightarrow> list_all text_line (cue_text c)"

lemma NL_not_digit [simp]: "\<not> is_digit CHR 0x0A" "\<not> is_digit CHR ''-''" "\<not> is_digit CHR '' ''"
  by (simp_all add: is_digit_def)

lemma timecode_no_char:
  "\<not> is_digit c \<Longrightarrow> c \<noteq> CHR '':'' \<Longrightarrow> c \<noteq> sep \<Longrightarrow> c \<notin> set (ms_to_timecode ms sep)"
  by (auto simp: ms_to_timecode_def pad_show_u_no_char)

lemma time_line_no_NL: "sep \<noteq> CHR 0x0A \<Longrightarrow> CHR 0x0A \<notin> set (time_line sep c)"
  using timecode_no_char [of "CHR 0x0A" sep] by (auto simp: time_line_def)

lemma timecode_ends:
  "\<exists>d r. is_digit d \<and> ms_to_timecode ms sep = d # r"
  "\<exists>d r. is_digit d \<and> ms_to_timecode ms sep = r @ [d]"
proof -
  have "\<exists>d r. is_digit d \<and> s = d # r" "\<exists>d r. is_digit d \<and> s = r @ [d]" if "all_digits s" for s
    subgoal using that by (cases s) (auto simp: all_digits_def)
    subgoal using that by (cases s rule: rev_cases) (auto simp: all_digits_def)
    done
  note e = this [OF all_digits_pad_show_u]
  show "\<exists>d r. is_digit d \<and> ms_to_timecode ms sep = d # r"
    using e(1) [of 2 "ms div 3600000"] by (auto simp: ms_to_timecode_def)
  show "\<exists>d r. is_digit d \<and> ms_to_timecode ms sep = r @ [d]"
    using e(2) [of 3 "ms mod 1000"] by (auto simp: ms_to_timecode_def)
qed

lemma time_line_ends [simp]: "time_line sep c \<noteq> []" "\<not> ws_last (time_line sep c)"
  using timecode_ends(1) [of "cue_start c" sep] timecode_ends(2) [of "cue_end c" sep]
  by (auto simp: time_line_def)

lemma show_nat_line [simp]: "\<not> ws_last (show_nat n)"
  using all_digits_show_nat [of n] by (cases "show_nat n" rule: rev_cases) (auto simp: all_digits_def)

lemma cue_lines_wf:
  assumes "wf_cue c" and "sep \<noteq> CHR 0x0A"
  shows "list_all (\<lambda>l. l \<noteq> [] \<and> CHR 0x0A \<notin> set l \<and> \<not> ws_last l) (cue_lines sep n c)"
  using assms by (auto simp: cue_lines_def wf_cue_def text_line_def time_line_no_NL list_all_iff)

lemma trim_cue:
  assumes "wf_cue c" and "sep \<noteq> CHR 0x0A"
  shows "trim (join NL (cue_lines sep n c)) = join NL (cue_lines sep n c)"
proof (rule trim_id)
  show "\<not> ws_head ws2 ws3 (join NL (cue_lines sep n c))"
    using all_digits_show_nat [of n] by (cases "show_nat n") (auto simp: cue_lines_def all_digits_def)
  have "last (cue_lines sep n c) \<in> set (cue_lines sep n c)" by (simp add: cue_lines_def)
  then show "\<not> ws_last (join NL (cue_lines sep n c))"
    using ws_last_join [of "cue_lines sep n c"] cue_lines_wf [OF assms, of n]
    by (auto simp: list_all_iff) (simp add: cue_lines_def)
qed

lemma split_time_line:
  assumes "sep \<noteq> CHR ''-''"
  shows "split_at ''-->'' (time_line sep c)
      = Some (ms_to_timecode (cue_start c) sep @ '' '', '' '' @ ms_to_timecode (cue_end c) sep)"
  using split_at_first [of "CHR ''-''" "ms_to_timecode (cue_start c) sep @ '' ''" "''->''"]
    timecode_no_char [of "CHR ''-''" sep] assms by (simp add: time_line_def)

lemma block_cue_cue:
  assumes "wf_cue c" and "sep \<noteq> CHR 0x0A" and "sep \<noteq> CHR ''-''"
  shows "block_cue (join NL (cue_lines sep n c)) = Some (time_line sep c, cue_text c)"
proof -
  have "lines (join NL (cue_lines sep n c)) = cue_lines sep n c"
    using lines_join [OF cue_lines_wf [OF assms(1,2)]] by (simp add: cue_lines_def)
  moreover have "contains ''-->'' (time_line sep c)" "\<not> contains ''-->'' (show_nat n)"
    using split_time_line [OF assms(3)] by (simp add: contains_def) (simp add: not_contains)
  ultimately show ?thesis by (simp add: block_cue_def cue_lines_def)
qed

lemma print_cue:
  "print_lines (cue_lines sep n c @ [] # ls) = join NL (cue_lines sep n c) @ NL @ NL @ print_lines ls"
proof -
  have "concat (map (\<lambda>l. l @ NL) (cue_lines sep n c)) = join NL (cue_lines sep n c) @ NL"
    by (rule concat_NL) (simp add: cue_lines_def)
  then show ?thesis by (simp add: print_lines_def)
qed

lemma render_cue_lines:
  "render_cue n (time_line sep c) (cue_text c) = join NL (cue_lines sep n c) @ NL @ NL"
  using print_cue [of sep n c "[]"] by (simp add: render_cue_def print_lines_def cue_lines_def)

lemma replace_timecode:
  assumes "time_sep a"
  shows "replace_char a b (ms_to_timecode ms a) = ms_to_timecode ms b"
proof -
  have "replace_char a b (pad w (show_u n)) = pad w (show_u n)" for w and n :: u64
    using pad_show_u_no_char [of a w n] assms by (auto simp: replace_char_def time_sep_def intro: map_idI)
  then show ?thesis using assms by (auto simp: ms_to_timecode_def replace_char_def time_sep_def)
qed

lemma replace_time_line:
  assumes "time_sep a" and "a \<notin> set '' --> ''"
  shows "replace_char a b (time_line a c) = time_line b c"
  using assms replace_timecode [OF assms(1), of b] by (auto simp: time_line_def replace_char_def)

lemma split_doc:
  assumes "wf_cue c" and "sep \<noteq> CHR 0x0A"
  shows "split_str (NL @ NL) (print_lines (doc_lines sep n (c # cs)))
      = join NL (cue_lines sep n c) # split_str (NL @ NL) (print_lines (doc_lines sep (n + 1) cs))"
proof -
  have "list_all (\<lambda>l. l \<noteq> [] \<and> CHR 0x0A \<notin> set l) (cue_lines sep n c)" "cue_lines sep n c \<noteq> []"
    using cue_lines_wf [OF assms, of n] by (auto simp: list_all_iff cue_lines_def)
  then show ?thesis using split_str_block by (simp add: print_cue)
qed

lemma cue_head:
  "\<exists>d r. is_digit d \<and> join NL (cue_lines sep n c) = d # r"
  using all_digits_show_nat [of n] by (cases "show_nat n") (auto simp: cue_lines_def all_digits_def)

lemma srt_blocks_doc:
  "list_all wf_cue cs \<Longrightarrow>
     srt_blocks n (split_str (NL @ NL) (print_lines (doc_lines CHR '','' n cs))) = print_lines (doc_lines CHR ''.'' n cs)"
proof (induction cs arbitrary: n)
  case Nil
  then show ?case by (simp add: print_lines_def trim_def trim_start_def trim_end_def trim_with.simps)
next
  case (Cons c cs)
  then have wf: "wf_cue c" by simp
  obtain d r where "join NL (cue_lines CHR '','' n c) = d # r" using cue_head by blast
  then show ?case
    using Cons replace_time_line [of "CHR '',''" "CHR ''.''" c] trim_cue [OF wf, of "CHR '',''" n]
      block_cue_cue [OF wf, of "CHR '',''" n]
    by (simp add: split_doc del: doc_lines.simps) (simp add: render_cue_lines print_cue)
qed

lemma vtt_blocks_doc:
  "list_all wf_cue cs \<Longrightarrow>
     vtt_blocks n (split_str (NL @ NL) (print_lines (doc_lines CHR ''.'' n cs))) = print_lines (doc_lines CHR '','' n cs)"
proof (induction cs arbitrary: n)
  case Nil
  then show ?case by (simp add: print_lines_def trim_def trim_start_def trim_end_def trim_with.simps)
next
  case (Cons c cs)
  then have wf: "wf_cue c" by simp
  obtain d r where "is_digit d" "join NL (cue_lines CHR ''.'' n c) = d # r" using cue_head by blast
  moreover from this have "\<not> starts_with (d # r) ''WEBVTT''" "\<not> starts_with (d # r) ''NOTE''"
    by (auto simp: starts_with_def is_digit_def)
  ultimately show ?case
    using Cons replace_time_line [of "CHR ''.''" "CHR '',''" c] trim_cue [OF wf, of "CHR ''.''" n]
      block_cue_cue [OF wf, of "CHR ''.''" n]
    by (simp add: split_doc del: doc_lines.simps) (simp add: render_cue_lines print_cue)
qed

lemma srt_to_webvtt_doc: "list_all wf_cue cs \<Longrightarrow> srt_to_webvtt (srt_doc cs) = vtt_doc cs"
  by (simp add: srt_to_webvtt_def srt_doc_def vtt_doc_def srt_blocks_doc) (simp add: print_lines_def)

lemma vtt_to_srt_doc:
  assumes "list_all wf_cue cs"
  shows "vtt_to_srt (vtt_doc cs) = srt_doc cs"
proof -
  have "split_str (NL @ NL) (''WEBVTT'' @ NL @ NL @ s) = ''WEBVTT'' # split_str (NL @ NL) s" for s
    using split_str_block [of "[''WEBVTT'']" s] by simp
  moreover have "vtt_doc cs = ''WEBVTT'' @ NL @ NL @ print_lines (doc_lines CHR ''.'' 1 cs)"
    by (simp add: vtt_doc_def print_lines_def)
  moreover have "trim ''WEBVTT'' = ''WEBVTT''" by (simp add: dusk_eval)
  ultimately show ?thesis
    using assms by (simp add: vtt_to_srt_def srt_doc_def vtt_blocks_doc starts_with_def)
qed

section \<open>Shifting\<close>

text \<open>The specification of a shift: times move by the offset and stop at zero.\<close>

definition later :: "int \<Rightarrow> u64 \<Rightarrow> u64" where
  "later offset ms = word_of_int (max 0 (uint ms + offset))"

definition shift_cue :: "int \<Rightarrow> cue \<Rightarrow> cue" where
  "shift_cue offset c = c\<lparr>cue_start := later offset (cue_start c), cue_end := later offset (cue_end c)\<rparr>"

definition timed_cue :: "cue \<Rightarrow> bool" where
  "timed_cue c \<longleftrightarrow> wf_cue c \<and> uint (cue_start c) < 2 ^ 62 \<and> uint (cue_end c) < 2 ^ 62"

lemma sint_small: "uint (w :: u64) < 2 ^ 63 \<Longrightarrow> sint w = uint w"
proof -
  have "- (2 ^ 63) \<le> (0 :: int)" by simp
  then have "- (2 ^ 63) \<le> uint w" using uint_ge_0 by (rule order_trans)
  then show "uint w < 2 ^ 63 \<Longrightarrow> sint w = uint w" by (simp add: sint_uint signed_take_bit_int_eq_self)
qed

lemma is_i64_add: "is_i32 offset \<Longrightarrow> 0 \<le> u \<Longrightarrow> u < 2 ^ 62 \<Longrightarrow> is_i64 (u + offset)"
  by (simp add: is_i32_def is_i64_def)

lemma shift_ms_later:
  assumes "is_i32 offset" and "uint ms < 2 ^ 62"
  shows "shift_ms offset ms = later offset ms"
proof -
  have "sint ms = uint ms" using sint_small [of ms] assms(2) by simp
  moreover have "i64_wrap (uint ms + offset) = uint ms + offset"
    by (rule i64_wrap_id [OF is_i64_add [OF assms(1) uint_ge_0 assms(2)]])
  ultimately show ?thesis by (simp add: shift_ms_def later_def)
qed

lemma split_str_arrow:
  assumes "time_sep sep" and "sep \<noteq> CHR ''-''"
  shows "split_str ''-->'' (time_line sep c)
      = [ms_to_timecode (cue_start c) sep @ '' '', '' '' @ ms_to_timecode (cue_end c) sep]"
proof -
  have "CHR ''-'' \<notin> set ('' '' @ ms_to_timecode (cue_end c) sep)"
    using timecode_no_char [of "CHR ''-''" sep] assms by simp
  then have "split_at ''-->'' ('' '' @ ms_to_timecode (cue_end c) sep) = None"
    using not_contains [of "CHR ''-''" _ "''->''"] by (simp only: contains_def not_not)
  then show ?thesis
    using split_time_line [OF assms(2), of c] by (simp add: split_str.simps del: split_at.simps)
qed

lemma map_times_line:
  assumes "time_sep sep" and "sep \<noteq> CHR ''-''"
  shows "map_times f sep (time_line sep c)
      = time_line sep (c\<lparr>cue_start := f (cue_start c), cue_end := f (cue_end c)\<rparr>)"
  unfolding map_times_def split_str_arrow [OF assms]
  using trim_spaces(1) [OF trim_timecode] trim_spaces(2) [OF trim_timecode, simplified]
  by (simp add: parse_ms_to_timecode [OF assms(1)] time_line_def)

lemma shift_time_line:
  assumes "timed_cue c" and "is_i32 offset" and "time_sep sep" and "sep \<noteq> CHR ''-''"
  shows "apply_offset_to_timecode_line (time_line sep c) sep offset = time_line sep (shift_cue offset c)"
  using assms
  by (simp add: apply_offset_to_timecode_line_def map_times_line shift_ms_later timed_cue_def shift_cue_def)

lemma shift_cue_lines:
  assumes "timed_cue c" and "is_i32 offset" and "time_sep sep" and "sep \<noteq> CHR ''-''"
  shows "map (\<lambda>l. if contains ''-->'' l then apply_offset_to_timecode_line l sep offset else l) (cue_lines sep n c)
      = cue_lines sep n (shift_cue offset c)"
proof -
  have "contains ''-->'' (time_line sep c)" using split_time_line [OF assms(4)] by (simp add: contains_def)
  moreover have "map (\<lambda>l. if contains ''-->'' l then apply_offset_to_timecode_line l sep offset else l) (cue_text c) = cue_text c"
    using assms(1) by (auto simp: timed_cue_def wf_cue_def text_line_def list_all_iff intro: map_idI)
  moreover have "cue_text (shift_cue offset c) = cue_text c" by (simp add: shift_cue_def)
  ultimately show ?thesis
    by (simp add: cue_lines_def not_contains shift_time_line [OF assms])
qed

lemma shift_doc_lines:
  assumes "list_all timed_cue cs" and "is_i32 offset" and "time_sep sep" and "sep \<noteq> CHR ''-''"
  shows "map (\<lambda>l. if contains ''-->'' l then apply_offset_to_timecode_line l sep offset else l) (doc_lines sep n cs)
      = doc_lines sep n (map (shift_cue offset) cs)"
  using assms(1)
proof (induction cs arbitrary: n)
  case (Cons c cs)
  then show ?case using shift_cue_lines [OF _ assms(2-4)] by (simp add: contains_def)
qed simp

lemma doc_lines_wf:
  "list_all timed_cue cs \<Longrightarrow> sep \<noteq> CHR 0x0A \<Longrightarrow>
     list_all (\<lambda>l. CHR 0x0A \<notin> set l \<and> \<not> ws_last l) (doc_lines sep n cs)"
proof (induction cs arbitrary: n)
  case (Cons c cs)
  then show ?case using cue_lines_wf [of c sep n] by (auto simp: timed_cue_def list_all_iff)
qed simp

lemma apply_offset_lines:
  assumes "list_all (\<lambda>l. CHR 0x0A \<notin> set l \<and> \<not> ws_last l) ls" and "ls \<noteq> []"
  shows "map_timecode_lines f (print_lines ls) @ NL = print_lines (map (\<lambda>l. if contains ''-->'' l then f l else l) ls)"
  using assms(2) concat_NL [of "map (\<lambda>l. if contains ''-->'' l then f l else l) ls"]
  unfolding map_timecode_lines_def print_lines_def lines_concat [OF assms(1)] by simp

text \<open>
  C21. Shifting a document moves every cue and nothing else: for a non-empty document whose cues have
  trimmed, non-empty lines of text without arrows and whose times are below \<open>2^62\<close> milliseconds, the
  result of \<open>apply_offset\<close> is the document of the cues with both times moved by the offset and stopped
  at zero, in SubRip and in WebVTT form, only the newline at the very end being lost.
\<close>

theorem offset_moves_cues:
  assumes "list_all timed_cue cs" and "cs \<noteq> []" and "is_i32 offset"
  shows "apply_offset (srt_doc cs) ''srt'' offset @ NL = srt_doc (map (shift_cue offset) cs)
    \<and> apply_offset (vtt_doc cs) ''vtt'' offset @ NL = vtt_doc (map (shift_cue offset) cs)"
proof -
  have "doc_lines sep 1 cs \<noteq> []" for sep using assms(2) by (cases cs) (simp_all add: cue_lines_def)
  then have "apply_offset (srt_doc cs) ''srt'' offset @ NL = srt_doc (map (shift_cue offset) cs)"
    using assms by (simp add: apply_offset_def srt_doc_def apply_offset_lines doc_lines_wf shift_doc_lines)
  moreover have "\<not> ws_last ''WEBVTT''" "\<not> contains ''-->'' ''WEBVTT''" "\<not> contains ''-->'' []"
    by (simp_all add: contains_def starts_with_def dusk_eval)
  then have "apply_offset (vtt_doc cs) ''vtt'' offset @ NL = vtt_doc (map (shift_cue offset) cs)"
    using assms by (simp add: apply_offset_def vtt_doc_def apply_offset_lines doc_lines_wf shift_doc_lines)
  ultimately show ?thesis by blast
qed

definition sample_cues :: "cue list" where
  "sample_cues = [\<lparr>cue_start = 1000, cue_end = 4000, cue_text = [''Hi'', ''you'']\<rparr>, \<lparr>cue_start = 5000, cue_end = 9001, cue_text = []\<rparr>]"

lemma sample_cues_wf: "list_all timed_cue sample_cues" "list_all wf_cue sample_cues"
  by (simp_all add: sample_cues_def timed_cue_def wf_cue_def text_line_def contains_def starts_with_def dusk_eval)

theorem offset_moves_cues_witness:
  "apply_offset (srt_doc sample_cues) ''srt'' (- 2000) @ NL
     = srt_doc [\<lparr>cue_start = 0, cue_end = 2000, cue_text = [''Hi'', ''you'']\<rparr>, \<lparr>cue_start = 3000, cue_end = 7001, cue_text = []\<rparr>]"
  using offset_moves_cues [OF sample_cues_wf(1), of "- 2000"]
  by (simp add: sample_cues_def is_i32_def shift_cue_def later_def)

text \<open>
  C20. Subtitles survive conversion: a document of cues whose lines of text are trimmed and not empty
  is converted from SubRip to WebVTT into the WebVTT document of the same cues, and converting that
  back restores the document byte for byte.
\<close>

theorem conversion_roundtrip:
  assumes "list_all wf_cue cs"
  shows "srt_to_webvtt (srt_doc cs) = vtt_doc cs \<and> vtt_to_srt (srt_to_webvtt (srt_doc cs)) = srt_doc cs"
  using assms by (simp add: srt_to_webvtt_doc vtt_to_srt_doc)

theorem conversion_roundtrip_witness:
  "vtt_to_srt (srt_to_webvtt (srt_doc sample_cues)) = srt_doc sample_cues \<and> srt_doc sample_cues \<noteq> []"
proof -
  have "srt_doc sample_cues \<noteq> []" by (simp add: sample_cues_def srt_doc_def print_lines_def cue_lines_def)
  then show ?thesis using conversion_roundtrip [OF sample_cues_wf(2)] by blast
qed

text \<open>
  Times survive printing and reading: every number of milliseconds of 64 bits, printed with a
  comma or with a point before the fraction, is read back as itself.
\<close>

theorem timecode_roundtrip:
  "parse_timecode_to_ms (ms_to_timecode ms CHR '','') CHR '','' = ms
   \<and> parse_timecode_to_ms (ms_to_timecode ms CHR ''.'') CHR ''.'' = ms"
  by (simp add: parse_ms_to_timecode)

section \<open>Inputs that are damaged\<close>





text \<open>
  C24. Dialogue is cut at its first comma: for a line of dialogue in the order of fields that
  \<open>srt_to_ass\<close> itself writes, whatever follows the first comma of the text has no effect on the cue.
\<close>

theorem dialogue_cut_at_comma:
  assumes "start_idx st = 1" and "end_idx st = 2" and "text_idx st = 9"
    and "CHR '','' \<notin> set start" and "CHR '','' \<notin> set end'" and "CHR '','' \<notin> set said"
  shows "ass_dialogue ('' 0,'' @ start @ '','' @ end' @ '',Default,,0,0,0,,'' @ said @ '','' @ unsaid) st
      = ass_dialogue ('' 0,'' @ start @ '','' @ end' @ '',Default,,0,0,0,,'' @ said) st"
proof -
  have "split_on CHR '','' ('' 0,'' @ start @ '','' @ end' @ '',Default,,0,0,0,,'' @ rest)
      = ['' 0'', start, end', ''Default'', [], ''0'', ''0'', ''0'', []] @ split_on CHR '','' rest" for rest
    using assms(4,5) by (simp add: split_on_cons split_on_cons [of _ "[]", simplified])
  moreover have "split_on CHR '','' (said @ '','' @ unsaid) = said # split_on CHR '','' unsaid"
    "split_on CHR '','' said = [said]"
    using assms(6) by (simp_all add: split_on_cons split_on_no_sep)
  ultimately show ?thesis using assms(1-3) by (simp add: ass_dialogue_def)
qed


theorem dialogue_cut_at_comma_witness:
  "fst (ass_dialogue '' 0,0:00:01.00,0:00:04.00,Default,,0,0,0,,Yes, sir''
       \<lparr>in_events = True, start_idx = 1, end_idx = 2, text_idx = 9, cue_num = 1\<rparr>)
     = ''1'' @ NL @ ''00:00:01,000 --> 00:00:04,000'' @ NL @ ''Yes'' @ NL @ NL"
proof -
  have p: "parse_u32 ''00'' = Some 0" "parse_u32 ''01'' = Some 1" "parse_u32 ''0'' = Some 0" "parse_u32 ''04'' = Some 4"
    by (simp_all add: parse_u32_def dusk_eval)
  have t: "trim ''0:00:01.00'' = ''0:00:01.00''" "trim ''0:00:04.00'' = ''0:00:04.00''" "trim ''Yes'' = ''Yes''"
    by (simp_all add: dusk_eval)
  have u: "show_u (0 :: u32) = ''0''" "show_u (1 :: u32) = ''1''" "show_u (4 :: u32) = ''4''" "show_nat (Suc 0) = ''1''"
    by (simp_all add: dusk_eval)
  have times: "ass_timestamp_to_srt ''0:00:01.00'' = ''00:00:01,000''" "ass_timestamp_to_srt ''0:00:04.00'' = ''00:00:04,000''"
    by (simp_all add: ass_timestamp_to_srt_def split_fraction_def p t u or_zero_def pad_def numeral_2_eq_2)
  have "replace_str [CHR 0x5C, c] d ''Yes'' = ''Yes''" for c d
    by (simp add: replace_str_def split_str.simps starts_with_def)
  then show ?thesis
    using dialogue_cut_at_comma [of "\<lparr>in_events = True, start_idx = 1, end_idx = 2, text_idx = 9, cue_num = 1\<rparr>"
        "''0:00:01.00''" "''0:00:04.00''" "''Yes''" "'' sir''"]
    by (simp add: ass_dialogue_def times t u strip_ass_override_tags_def)
qed

lemma length_split_on: "length (split_on c s) = Suc (count_list s c)"
  by (induction s) (auto split: list.splits)

lemma colons_of_timecode: "sep \<noteq> CHR '':'' \<Longrightarrow> count_list (ms_to_timecode ms sep) CHR '':'' = 2"
  by (simp add: ms_to_timecode_def count_list_append count_notin pad_show_u_no_char)

lemma parse_too_many_colons:
  assumes "trim s = s" and "2 < count_list s CHR '':''"
  shows "parse_timecode_to_ms s sep = 0"
proof -
  have "3 < length (split_on CHR '':'' s)" using assms(2) by (simp add: length_split_on)
  then show ?thesis using assms(1) by (auto simp: parse_timecode_to_ms_def split: list.splits)
qed

text \<open>
  Cue settings cost a cue its end: shifting a WebVTT cue whose time line carries settings, such as
  an alignment, drops the settings and puts the end at the offset itself, or at zero, wherever it was.
\<close>

theorem settings_lose_cue_end:
  assumes "CHR '':'' \<in> set settings" and "CHR ''-'' \<notin> set settings" and "\<not> ws_last settings"
  shows "apply_offset_to_timecode_line (time_line CHR ''.'' c @ '' '' @ settings) CHR ''.'' offset
      = ms_to_timecode (shift_ms offset (cue_start c)) CHR ''.'' @ '' --> '' @ ms_to_timecode (shift_ms offset 0) CHR ''.''"
proof -
  let ?e = "ms_to_timecode (cue_end c) CHR ''.'' @ '' '' @ settings"
  have no_dash: "CHR ''-'' \<notin> set (ms_to_timecode (cue_start c) CHR ''.'' @ '' '')" "CHR ''-'' \<notin> set ('' '' @ ?e)"
    using assms(2) timecode_no_char [of "CHR ''-''" "CHR ''.''"] by auto
  then have "split_at ''-->'' ('' '' @ ?e) = None" using not_contains by (simp only: contains_def not_not)
  then have parts: "split_str ''-->'' (time_line CHR ''.'' c @ '' '' @ settings) = [ms_to_timecode (cue_start c) CHR ''.'' @ '' '', '' '' @ ?e]"
    using split_at_first [OF no_dash(1), of "''->''" "'' '' @ ?e"]
    by (simp add: split_str.simps time_line_def del: split_at.simps)
  have "settings \<noteq> []" using assms(1) by auto
  then have "\<not> ws_last ?e" using ws_last_line [OF _ assms(3), of "CHR '' ''"] by simp
  moreover have "\<not> ws_head ws2 ws3 ?e" using timecode_ends(1) [of "cue_end c" "CHR ''.''"] by auto
  ultimately have e: "trim ?e = ?e" by (rule trim_id [rotated])
  have "0 < count_list settings CHR '':''" using assms(1) count_list_0_iff [of settings] by (metis not_gr_zero)
  then have "parse_timecode_to_ms ?e CHR ''.'' = 0"
    using e by (intro parse_too_many_colons) (simp_all add: colons_of_timecode)
  then show ?thesis
    unfolding apply_offset_to_timecode_line_def map_times_def parts
    using trim_spaces(1) [OF trim_timecode] trim_spaces(2) [OF e] by (simp add: parse_ms_to_timecode)
qed

theorem settings_lose_cue_end_witness:
  "apply_offset_to_timecode_line (time_line CHR ''.'' \<lparr>cue_start = 1000, cue_end = 4000, cue_text = []\<rparr> @ '' align:start'') CHR ''.'' 500
     = ''00:00:01.500 --> 00:00:00.500''"
  using settings_lose_cue_end [of "''align:start''" "\<lparr>cue_start = 1000, cue_end = 4000, cue_text = []\<rparr>" 500]
  by (simp add: shift_ms_def i64_wrap_def ms_to_timecode_def pad_def dusk_eval)

section \<open>Alignment\<close>

lemma best_offset_in: "best_offset best xs \<in> insert best (set xs)"
proof (induction best xs rule: best_offset.induct)
  case (2 best offset count rest)
  then show ?case by (auto split: if_splits)
qed simp

text \<open>A candidate is no better than another: fewer cues, or as many and no closer to zero.\<close>

definition no_better :: "int \<times> nat \<Rightarrow> int \<times> nat \<Rightarrow> bool" where
  "no_better x y \<longleftrightarrow> snd x < snd y \<or> (snd x = snd y \<and> \<bar>fst y\<bar> \<le> \<bar>fst x\<bar>)"

lemma no_better_trans: "no_better x y \<Longrightarrow> no_better y z \<Longrightarrow> no_better x z"
  unfolding no_better_def by linarith

lemma best_offset_best: "x \<in> insert best (set xs) \<Longrightarrow> no_better x (best_offset best xs)"
proof (induction best xs arbitrary: x rule: best_offset.induct)
  case (1 best)
  then show ?case by (simp add: no_better_def)
next
  case (2 best offset count rest)
  let ?b = "if count > snd best \<or> (count = snd best \<and> \<bar>offset\<bar> < \<bar>fst best\<bar>) then (offset, count) else best"
  have here: "no_better y ?b" if "y = best \<or> y = (offset, count)" for y
    using that by (auto simp: no_better_def)
  have step: "best_offset best ((offset, count) # rest) = best_offset ?b rest" by simp
  show ?case
  proof (cases "x \<in> set rest")
    case True
    then show ?thesis unfolding step by (intro "2.IH") simp
  next
    case False
    then have "no_better x ?b" using "2.prems" by (intro here) simp
    then show ?thesis unfolding step by (rule no_better_trans) (intro "2.IH"; simp only: insertI1)
  qed
qed

lemma cross_correlate_fst:
  "fst (cross_correlate sp cs) = fst (best_offset (0, 0) (map (\<lambda>x. (x, matching_cues sp cs x)) candidate_offsets))"
proof -
  have "zip candidate_offsets (map (matching_cues sp cs) candidate_offsets) = map (\<lambda>x. (x, matching_cues sp cs x)) candidate_offsets"
    by (simp add: zip_map2 zip_same_conv_map)
  then show ?thesis by (simp add: cross_correlate_def Let_def split_beta)
qed

text \<open>
  C22. Alignment picks the best offset: the offset it returns is one of the candidates from thirty
  seconds before to thirty seconds after in steps of 250 milliseconds; no candidate brings more cues
  within a second of the start of speech, and none that brings as many is closer to zero.
\<close>

theorem alignment_is_best:
  assumes "x \<in> set candidate_offsets"
  shows "fst (cross_correlate sp cs) \<in> set candidate_offsets
    \<and> (matching_cues sp cs x < matching_cues sp cs (fst (cross_correlate sp cs))
       \<or> (matching_cues sp cs x = matching_cues sp cs (fst (cross_correlate sp cs))
          \<and> \<bar>fst (cross_correlate sp cs)\<bar> \<le> \<bar>x\<bar>))"
proof -
  define xs where "xs = map (\<lambda>x. (x, matching_cues sp cs x)) candidate_offsets"
  obtain off count where b: "best_offset (0, 0) xs = (off, count)" by fastforce
  have le: "no_better (y, matching_cues sp cs y) (off, count)" if "y \<in> set candidate_offsets" for y
    using best_offset_best [of "(y, matching_cues sp cs y)" "(0, 0)" xs] that b by (simp add: xs_def)
  have zero: "0 \<in> set candidate_offsets"
    unfolding candidate_offsets_def set_map set_upt by (rule image_eqI [of _ _ 120]) simp_all
  have "(off, count) \<in> insert (0, 0) (set xs)" using best_offset_in [of "(0, 0)" xs] b by simp
  then have "off \<in> set candidate_offsets \<and> count = matching_cues sp cs off"
    using le [OF zero] zero by (auto simp: xs_def no_better_def)
  moreover have "fst (cross_correlate sp cs) = off" using b by (simp add: cross_correlate_fst xs_def)
  ultimately show ?thesis using le [OF assms] by (simp add: no_better_def)
qed

theorem alignment_is_best_witness:
  "matching_cues [5000] [3000] 1000 = 1 \<and> 0 < matching_cues [5000] [3000] (fst (cross_correlate [5000] [3000]))"
proof -
  have one: "matching_cues [5000] [3000] 1000 = 1" by (simp add: matching_cues_def i64_wrap_def)
  have "1000 \<in> set candidate_offsets"
    unfolding candidate_offsets_def set_map set_upt by (rule image_eqI [of _ _ 124]) simp_all
  from alignment_is_best [OF this, of "[5000]" "[3000]"] show ?thesis unfolding one by linarith
qed

end
