(* ===== verification/Auth.thy ===== *)
theory Auth
  imports Json
begin

text \<open>
  domains/auth/service.rs, the login handler of domains/auth/handlers.rs and the session extractor of
  extractors.rs: accounts, sessions, profiles and capabilities. The tables are lists of rows; an
  insertion that violates a UNIQUE or CHECK constraint of the migrations fails with a database
  error. Instants are integers in nanoseconds; \<open>now\<close> is the clock of the process, \<open>sql\<close> the clock of
  the database. Random tokens and codes and generated row identifiers are arguments, as are SHA-256
  and PBKDF2. A database error of any other kind ends an operation with \<open>A_Database\<close> and rolls its
  transaction back, that is, it leaves the tables as they are.
\<close>

type_synonym instant = int

definition seconds :: "int \<Rightarrow> instant" where
  "seconds n = n * 1000000000"

datatype AuthError =
    A_AccountLocked instant
  | A_SessionExpired
  | A_InvalidCredentials
  | A_InsufficientCapabilities "string list"
  | A_InviteCodeInvalid
  | A_InviteCodeRevoked
  | A_InviteCodeUseLimitExceeded
  | A_DeviceLinkingExpired
  | A_DeviceLinkingDenied
  | A_DeviceLinkingPending
  | A_DeviceLinkingSlowDown int
  | A_ReauthCodeInvalid
  | A_ReauthRateLimited
  | A_SetupAlreadyComplete
  | A_Validation
  | A_Database

section \<open>Tables\<close>

record user =
  u_id :: uuid
  u_username :: string
  u_display_name :: string
  u_email :: "string option"
  u_password_hash :: "string option"
  u_role :: string
  u_status :: string
  u_deleted_at :: "instant option"
  u_has_all_library_access :: bool
  u_failed_login_attempts :: int
  u_locked_until :: "instant option"

record DeviceInfo =
  device_id :: "string option"
  device_name :: "string option"
  client_name :: "string option"
  client_version :: "string option"
  client_platform :: "string option"
  ip_address :: "string option"
  user_agent :: "string option"
  is_secure :: bool

record UserSession =
  s_id :: uuid
  s_user_id :: uuid
  s_active_profile_id :: "uuid option"
  s_profile_selection_required :: bool
  s_token_hash :: string
  s_credential_version :: int
  s_device :: DeviceInfo
  s_expires_at :: instant
  s_last_active_at :: instant

record profile =
  p_id :: uuid
  p_owner_user_id :: uuid
  p_name :: string
  p_type :: string
  p_is_default :: bool

record device_preference =
  d_owner_user_id :: uuid
  d_device_id :: string
  d_profile_id :: uuid

record capability =
  c_user_id :: uuid
  c_capability :: string
  c_is_granted :: bool

record invitation =
  i_id :: uuid
  i_created_by_user_id :: uuid
  i_user_id :: "uuid option"
  i_code_hash :: string
  i_code_prefix :: string
  i_email :: string
  i_display_name :: "string option"
  i_role :: string
  i_capabilities :: json
  i_has_all_library_access :: bool
  i_max_uses :: int
  i_use_count :: int
  i_expires_at :: "instant option"
  i_is_revoked :: bool

record linking_code =
  l_id :: uuid
  l_user_code :: string
  l_device_code :: string
  l_device :: DeviceInfo
  l_expires_at :: instant
  l_is_approved :: bool
  l_approved_by_user_id :: "uuid option"
  l_is_denied :: bool
  l_denied_by_user_id :: "uuid option"
  l_last_polled_at :: "instant option"
  l_poll_interval_seconds :: int

record reauth_code =
  r_id :: uuid
  r_user_id :: uuid
  r_requested_by_user_id :: uuid
  r_code_hash :: string
  r_code_prefix :: string
  r_created_at :: instant
  r_expires_at :: instant
  r_is_used :: bool
  r_resulting_session_id :: "uuid option"

record tables =
  users :: "user list"
  user_sessions :: "UserSession list"
  user_profiles :: "profile list"
  profile_device_preferences :: "device_preference list"
  user_capabilities :: "capability list"
  invitations :: "invitation list"
  device_linking_codes :: "linking_code list"
  reauth_codes :: "reauth_code list"
  setup_complete :: "bool option"

record auth_config =
  session_absolute_timeout_days :: int
  session_idle_timeout_hours :: "int option"
  device_linking_code_expiry_seconds :: int
  device_linking_poll_interval_seconds :: int
  reauth_code_expiry_hours :: int
  reauth_max_requests_per_user_per_day :: int

section \<open>Hexadecimal text and passwords\<close>

definition hex_digit :: "nat \<Rightarrow> char" where
  "hex_digit n = (if n < 10 then char_of (48 + n) else char_of (87 + n))"

definition hex_encode :: "u8 list \<Rightarrow> string" where
  "hex_encode bytes = concat (map (\<lambda>b. [hex_digit (unat b div 16), hex_digit (unat b mod 16)]) bytes)"

definition hex_value :: "char \<Rightarrow> nat option" where
  "hex_value c =
     (let n = (of_char c :: nat) in
      if 48 \<le> n \<and> n \<le> 57 then Some (n - 48)
      else if 65 \<le> n \<and> n \<le> 70 then Some (n - 55)
      else if 97 \<le> n \<and> n \<le> 102 then Some (n - 87) else None)"

text \<open>
  \<^verbatim>\<open>u8::from_str_radix\<close> of two characters in base 16; a leading plus sign is accepted. A pair cut
  inside a character of more than one byte would panic; the stored hashes are ASCII.
\<close>

definition parse_hex_pair :: "char \<Rightarrow> char \<Rightarrow> u8 option" where
  "parse_hex_pair a b =
     (case (hex_value a, hex_value b) of
        (Some x, Some y) \<Rightarrow> Some (word_of_nat (16 * x + y))
      | (None, Some y) \<Rightarrow> (if a = CHR ''+'' then Some (word_of_nat y) else None)
      | _ \<Rightarrow> None)"

fun hex_decode :: "string \<Rightarrow> u8 list option" where
  "hex_decode [] = Some []"
| "hex_decode [a] = None"
| "hex_decode (a # b # rest) =
     (case (parse_hex_pair a b, hex_decode rest) of (Some x, Some xs) \<Rightarrow> Some (x # xs) | _ \<Rightarrow> None)"

definition sha256_hex :: "(string \<Rightarrow> u8 list) \<Rightarrow> string \<Rightarrow> string" where
  "sha256_hex sha input = hex_encode (sha input)"

definition hash_password :: "(u8 list \<Rightarrow> string \<Rightarrow> u8 list) \<Rightarrow> u8 list \<Rightarrow> string \<Rightarrow> string" where
  "hash_password derive salt password =
     ''pbkdf2:'' @ hex_encode salt @ '':'' @ hex_encode (derive salt password)"

definition splitn3 :: "string \<Rightarrow> (string \<times> string \<times> string) option" where
  "splitn3 s =
     (case split_once CHR '':'' s of
        None \<Rightarrow> None
      | Some (a, r) \<Rightarrow> (case split_once CHR '':'' r of None \<Rightarrow> None | Some (b, c) \<Rightarrow> Some (a, b, c)))"

definition verify_password_hash ::
  "(u8 list \<Rightarrow> string \<Rightarrow> u8 list \<Rightarrow> bool) \<Rightarrow> string \<Rightarrow> string \<Rightarrow> AuthError + unit" where
  "verify_password_hash pbkdf2_verify hash password =
     (case splitn3 hash of
        None \<Rightarrow> Inl A_InvalidCredentials
      | Some (scheme, salt_hex, hash_hex) \<Rightarrow>
          if scheme \<noteq> ''pbkdf2'' then Inl A_InvalidCredentials
          else case (hex_decode salt_hex, hex_decode hash_hex) of
              (Some salt, Some stored) \<Rightarrow>
                if pbkdf2_verify salt password stored then Inr () else Inl A_InvalidCredentials
            | _ \<Rightarrow> Inl A_InvalidCredentials)"

section \<open>Capabilities\<close>

definition ALL_CAPABILITIES :: "string list" where
  "ALL_CAPABILITIES =
     [''play_media'', ''can_transcode'', ''can_download'', ''can_delete_media'', ''can_manage_libraries'',
      ''can_manage_users'', ''can_view_analytics'', ''can_manage_server'', ''can_manage_scheduled_tasks'',
      ''can_use_live_tv'', ''can_share_content'', ''can_remote_control'']"

definition role_default_capabilities :: "string \<Rightarrow> string list" where
  "role_default_capabilities role =
     (if role = ''admin'' then
        [''play_media'', ''can_transcode'', ''can_download'', ''can_delete_media'', ''can_manage_libraries'',
         ''can_manage_users'', ''can_view_analytics'', ''can_manage_server'', ''can_manage_scheduled_tasks'',
         ''can_share_content'', ''can_remote_control'']
      else if role = ''member'' then [''play_media'', ''can_download'', ''can_share_content'']
      else if role = ''guest'' then [''play_media'']
      else [])"

definition apply_override :: "capability \<Rightarrow> string list \<Rightarrow> string list" where
  "apply_override row caps =
     (if c_is_granted row \<and> c_capability row \<notin> set caps then caps @ [c_capability row]
      else if \<not> c_is_granted row then filter (\<lambda>c. c \<noteq> c_capability row) caps
      else caps)"

definition resolve_capabilities :: "uuid \<Rightarrow> string \<Rightarrow> tables \<Rightarrow> string list" where
  "resolve_capabilities uid role db =
     (if role = ''owner'' then ALL_CAPABILITIES
      else
        (let rows = filter (\<lambda>c. c_user_id c = uid) (user_capabilities db) in
         if rows = [] then role_default_capabilities role
         else fold apply_override rows (role_default_capabilities role)))"

definition validate_capability_name :: "string \<Rightarrow> bool" where
  "validate_capability_name name \<longleftrightarrow> name \<in> set ALL_CAPABILITIES"

definition check_capability :: "string \<Rightarrow> string list \<Rightarrow> string \<Rightarrow> AuthError + unit" where
  "check_capability role capabilities required =
     (if role = ''owner'' then Inr ()
      else if required \<in> set capabilities then Inr ()
      else Inl (A_InsufficientCapabilities [required]))"

text \<open>\<open>UNIQUE(user_id, capability)\<close>; with \<open>ON CONFLICT DO NOTHING\<close> the conflicting row is skipped.\<close>

definition has_capability_row :: "uuid \<Rightarrow> string \<Rightarrow> tables \<Rightarrow> bool" where
  "has_capability_row uid cap db \<longleftrightarrow> list_ex (\<lambda>c. c_user_id c = uid \<and> c_capability c = cap) (user_capabilities db)"

definition insert_capability :: "uuid \<Rightarrow> string \<times> bool \<Rightarrow> tables \<Rightarrow> AuthError + tables" where
  "insert_capability uid ov db =
     (if has_capability_row uid (fst ov) db then Inl A_Database
      else Inr (db\<lparr>user_capabilities := user_capabilities db
                    @ [\<lparr>c_user_id = uid, c_capability = fst ov, c_is_granted = snd ov\<rparr>]\<rparr>))"

fun insert_overrides :: "uuid \<Rightarrow> (string \<times> bool) list \<Rightarrow> tables \<Rightarrow> AuthError + tables" where
  "insert_overrides uid [] db = Inr db"
| "insert_overrides uid (ov # ovs) db = bind_res (insert_capability uid ov db) (insert_overrides uid ovs)"

text \<open>The rows come in the collation order of the database, an argument.\<close>

definition get_capability_overrides ::
  "((string \<times> bool) list \<Rightarrow> (string \<times> bool) list) \<Rightarrow> uuid \<Rightarrow> tables \<Rightarrow> (string \<times> bool) list" where
  "get_capability_overrides collate uid db =
     collate (map (\<lambda>c. (c_capability c, c_is_granted c)) (filter (\<lambda>c. c_user_id c = uid) (user_capabilities db)))"

definition update_capabilities ::
  "((string \<times> bool) list \<Rightarrow> (string \<times> bool) list) \<Rightarrow> uuid \<Rightarrow> (string \<times> bool) list \<Rightarrow> string \<Rightarrow> tables \<Rightarrow> (AuthError + (string \<times> bool) list) \<times> tables" where
  "update_capabilities collate uid overrides role db =
     (case List.find (\<lambda>ov. \<not> validate_capability_name (fst ov)) overrides of
        Some ov \<Rightarrow> (Inl (A_InsufficientCapabilities [''invalid capability: '' @ fst ov]), db)
      | None \<Rightarrow>
          if role = ''owner'' then (Inr (get_capability_overrides collate uid db), db)
          else
            (case insert_overrides uid overrides
                    (db\<lparr>user_capabilities := filter (\<lambda>c. c_user_id c \<noteq> uid) (user_capabilities db)\<rparr>) of
               Inl e \<Rightarrow> (Inl e, db)
             | Inr db' \<Rightarrow> (Inr (get_capability_overrides collate uid db'), db')))"

section \<open>Sessions\<close>

definition char_count :: "string \<Rightarrow> nat" where
  "char_count s = length (filter (\<lambda>c. (of_char c :: nat) < 128 \<or> 192 \<le> (of_char c :: nat)) s)"

definition normalized_device_id :: "string option \<Rightarrow> string option" where
  "normalized_device_id d =
     (case d of
        None \<Rightarrow> None
      | Some v \<Rightarrow> (let v' = trim v in if v' \<noteq> [] \<and> char_count v' \<le> 200 then Some v' else None))"

text \<open>The CHECK on the name of a profile: 1 to 80 characters without the spaces around it.\<close>

definition profile_name_ok :: "string \<Rightarrow> bool" where
  "profile_name_ok name =
     (let n = char_count (rev (dropWhile (\<lambda>c. c = CHR '' '') (rev (dropWhile (\<lambda>c. c = CHR '' '') name))))
      in 1 \<le> n \<and> n \<le> 80)"

definition find_user :: "uuid \<Rightarrow> tables \<Rightarrow> user option" where
  "find_user uid db = List.find (\<lambda>u. u_id u = uid) (users db)"

definition default_profile :: "uuid \<Rightarrow> tables \<Rightarrow> profile option" where
  "default_profile uid db = List.find (\<lambda>p. p_owner_user_id p = uid \<and> p_is_default p) (user_profiles db)"

definition ensure_default_profile :: "uuid \<Rightarrow> uuid \<Rightarrow> tables \<Rightarrow> AuthError + uuid \<times> tables" where
  "ensure_default_profile pid uid db =
     (case default_profile uid db of
        Some p \<Rightarrow> Inr (p_id p, db)
      | None \<Rightarrow>
          (case find_user uid db of
             None \<Rightarrow> Inl A_Database
           | Some u \<Rightarrow>
               if \<not> profile_name_ok (u_display_name u) \<or> pid \<in> p_id ` set (user_profiles db) then Inl A_Database
               else Inr (pid, db\<lparr>user_profiles := user_profiles db
                      @ [\<lparr>p_id = pid, p_owner_user_id = uid, p_name = u_display_name u,
                          p_type = ''standard'', p_is_default = True\<rparr>]\<rparr>)))"

definition remembered_profile_for_device :: "uuid \<Rightarrow> string option \<Rightarrow> tables \<Rightarrow> uuid option" where
  "remembered_profile_for_device uid device db =
     (case normalized_device_id device of
        None \<Rightarrow> None
      | Some d \<Rightarrow>
          find_map (\<lambda>pref.
            if d_owner_user_id pref = uid \<and> d_device_id pref = d
            then map_option p_id (List.find (\<lambda>p. p_id p = d_profile_id pref \<and> p_owner_user_id p = uid) (user_profiles db))
            else None) (profile_device_preferences db))"

definition requires_profile_selection :: "bool \<Rightarrow> nat \<Rightarrow> bool" where
  "requires_profile_selection has_remembered_profile profile_count \<longleftrightarrow> \<not> has_remembered_profile \<and> profile_count > 1"

text \<open>The random token, the identifiers of the new session and of a new default profile.\<close>

record fresh =
  g_token :: string
  g_session :: uuid
  g_profile :: uuid

definition create_session ::
  "(string \<Rightarrow> u8 list) \<Rightarrow> auth_config \<Rightarrow> instant \<Rightarrow> fresh \<Rightarrow> uuid \<Rightarrow> DeviceInfo \<Rightarrow> tables
     \<Rightarrow> AuthError + (string \<times> UserSession) \<times> tables" where
  "create_session sha config sql g uid device db =
     bind_res (ensure_default_profile (g_profile g) uid db) (\<lambda>(default_profile_id, db1).
       (let remembered = remembered_profile_for_device uid (device_id device) db1;
            active = (case remembered of Some p \<Rightarrow> p | None \<Rightarrow> default_profile_id);
            profile_count = length (filter (\<lambda>p. p_owner_user_id p = uid) (user_profiles db1));
            session = \<lparr>s_id = g_session g, s_user_id = uid, s_active_profile_id = Some active,
              s_profile_selection_required = requires_profile_selection (remembered \<noteq> None) profile_count,
              s_token_hash = sha256_hex sha (g_token g), s_credential_version = 1, s_device = device,
              s_expires_at = sql + seconds (86400 * session_absolute_timeout_days config),
              s_last_active_at = sql\<rparr>
        in if sha256_hex sha (g_token g) \<in> s_token_hash ` set (user_sessions db1)
             \<or> g_session g \<in> s_id ` set (user_sessions db1) \<or> find_user uid db1 = None
           then Inl A_Database
           else Inr ((g_token g, session), db1\<lparr>user_sessions := user_sessions db1 @ [session]\<rparr>)))"

record ValidatedSession =
  w_session :: UserSession
  w_user :: user
  w_capabilities :: "string list"
  w_active_profile_id :: uuid

definition validate_session ::
  "(string \<Rightarrow> u8 list) \<Rightarrow> instant \<Rightarrow> string \<Rightarrow> tables \<Rightarrow> AuthError + ValidatedSession" where
  "validate_session sha sql token db =
     (case List.find (\<lambda>s. s_token_hash s = sha256_hex sha token \<and> s_expires_at s > sql) (user_sessions db) of
        None \<Rightarrow> Inl A_SessionExpired
      | Some session \<Rightarrow>
          (case s_active_profile_id session of
             None \<Rightarrow> Inl A_SessionExpired
           | Some profile_id \<Rightarrow>
               (case List.find (\<lambda>u. u_id u = s_user_id session \<and> u_deleted_at u = None \<and> u_status u = ''active'') (users db) of
                  None \<Rightarrow> Inl A_SessionExpired
                | Some u \<Rightarrow>
                    Inr \<lparr>w_session = session, w_user = u,
                         w_capabilities = resolve_capabilities (u_id u) (u_role u) db,
                         w_active_profile_id = profile_id\<rparr>)))"

definition is_idle_expired :: "instant \<Rightarrow> UserSession \<Rightarrow> int option \<Rightarrow> bool" where
  "is_idle_expired now session idle_timeout_hours =
     (case idle_timeout_hours of
        None \<Rightarrow> False
      | Some hours \<Rightarrow>
          if hours \<le> 0 then False else quot (now - s_last_active_at session) (seconds 3600) \<ge> hours)"

datatype transport = Cookie | Bearer

definition session_cookie :: "string \<Rightarrow> string option" where
  "session_cookie cookies =
     find_map (\<lambda>cookie.
       case strip_prefix ''session='' (trim cookie) of
         None \<Rightarrow> None
       | Some t \<Rightarrow> (let t' = trim t in if t' \<noteq> [] then Some t' else None)) (split_on CHR '';'' cookies)"

text \<open>The two headers as far as they are readable text.\<close>

definition extract_session_token :: "string option \<Rightarrow> string option \<Rightarrow> (string \<times> transport) option" where
  "extract_session_token cookie_header auth_header =
     (case Option.bind cookie_header session_cookie of
        Some token \<Rightarrow> Some (token, Cookie)
      | None \<Rightarrow>
          (case Option.bind auth_header (strip_prefix ''Bearer '') of
             None \<Rightarrow> None
           | Some t \<Rightarrow> (let t' = trim t in if t' \<noteq> [] then Some (t', Bearer) else None)))"

text \<open>
  The extractor of an authenticated user: an idle session is deleted and refused, an active one
  has its activity recorded once a minute. The two statements that write may fail silently.
\<close>

definition from_request_parts ::
  "(string \<Rightarrow> u8 list) \<Rightarrow> auth_config \<Rightarrow> instant \<Rightarrow> instant \<Rightarrow> bool \<Rightarrow> string \<Rightarrow> tables
     \<Rightarrow> (AuthError + ValidatedSession) \<times> tables" where
  "from_request_parts sha config now sql written token db =
     (case validate_session sha sql token db of
        Inl e \<Rightarrow> (Inl e, db)
      | Inr v \<Rightarrow>
          (let sid = s_id (w_session v) in
           if is_idle_expired now (w_session v) (session_idle_timeout_hours config)
           then (Inl A_SessionExpired,
                 if written then db\<lparr>user_sessions := filter (\<lambda>s. s_id s \<noteq> sid) (user_sessions db)\<rparr> else db)
           else (Inr v,
                 if quot (now - s_last_active_at (w_session v)) (seconds 1) > 60 \<and> written
                 then db\<lparr>user_sessions :=
                        update_where (\<lambda>s. s_id s = sid) (\<lambda>s. s\<lparr>s_last_active_at := sql\<rparr>) (user_sessions db)\<rparr>
                 else db)))"

definition revoke_session :: "uuid \<Rightarrow> uuid \<Rightarrow> tables \<Rightarrow> (AuthError + unit) \<times> tables" where
  "revoke_session sid uid db =
     (case List.find (\<lambda>s. s_id s = sid \<and> s_user_id s = uid) (user_sessions db) of
        None \<Rightarrow> (Inl A_SessionExpired, db)
      | Some session \<Rightarrow>
          (let db1 = db\<lparr>user_sessions := filter (\<lambda>s. \<not> (s_id s = sid \<and> s_user_id s = uid)) (user_sessions db)\<rparr>
           in (Inr (),
               case normalized_device_id (device_id (s_device session)) of
                 None \<Rightarrow> db1
               | Some d \<Rightarrow>
                   db1\<lparr>profile_device_preferences :=
                     filter (\<lambda>p. \<not> (d_owner_user_id p = uid \<and> d_device_id p = d)) (profile_device_preferences db1)\<rparr>)))"

definition revoke_all_sessions :: "uuid \<Rightarrow> tables \<Rightarrow> nat \<times> tables" where
  "revoke_all_sessions uid db =
     (length (filter (\<lambda>s. s_user_id s = uid) (user_sessions db)),
      db\<lparr>profile_device_preferences := filter (\<lambda>p. d_owner_user_id p \<noteq> uid) (profile_device_preferences db),
         user_sessions := filter (\<lambda>s. s_user_id s \<noteq> uid) (user_sessions db)\<rparr>)"

section \<open>Password login\<close>

definition get_user_for_login :: "string \<Rightarrow> tables \<Rightarrow> user option" where
  "get_user_for_login username db = List.find (\<lambda>u. u_username u = username \<and> u_deleted_at u = None) (users db)"

definition login_check ::
  "(u8 list \<Rightarrow> string \<Rightarrow> u8 list \<Rightarrow> bool) \<Rightarrow> instant \<Rightarrow> string \<Rightarrow> string \<Rightarrow> tables \<Rightarrow> AuthError + user" where
  "login_check pbkdf2_verify now username password db =
     (case get_user_for_login username db of
        None \<Rightarrow> Inl A_InvalidCredentials
      | Some u \<Rightarrow>
          if u_status u = ''locked'' \<and> (case u_locked_until u of Some until \<Rightarrow> until > now | None \<Rightarrow> False)
          then Inl (A_AccountLocked (the (u_locked_until u)))
          else
            (case u_password_hash u of
               None \<Rightarrow> Inl A_InvalidCredentials
             | Some hash \<Rightarrow> bind_res (verify_password_hash pbkdf2_verify hash password) (\<lambda>_. Inr u)))"

definition reset_login_failures :: "uuid \<Rightarrow> tables \<Rightarrow> tables" where
  "reset_login_failures uid db =
     db\<lparr>users := update_where (\<lambda>u. u_id u = uid) (\<lambda>u. u\<lparr>u_failed_login_attempts := 0, u_locked_until := None\<rparr>) (users db)\<rparr>"

text \<open>The session is committed before the failures are reset, a statement that may fail on its own.\<close>

definition auth_login ::
  "(string \<Rightarrow> u8 list) \<Rightarrow> (u8 list \<Rightarrow> string \<Rightarrow> u8 list \<Rightarrow> bool) \<Rightarrow> auth_config \<Rightarrow> instant \<Rightarrow> instant \<Rightarrow> fresh
     \<Rightarrow> bool \<Rightarrow> string \<Rightarrow> string \<Rightarrow> DeviceInfo \<Rightarrow> tables \<Rightarrow> (AuthError + string) \<times> tables" where
  "auth_login sha pbkdf2_verify config now sql g up username password device db =
     (case login_check pbkdf2_verify now username password db of
        Inl e \<Rightarrow> (Inl e, db)
      | Inr u \<Rightarrow>
          (case create_session sha config sql g (u_id u) device db of
             Inl e \<Rightarrow> (Inl e, db)
           | Inr ((token, _), db1) \<Rightarrow>
               if up then (Inr token, reset_login_failures (u_id u) db1) else (Inl A_Database, db1)))"

end
