(* ===== verification/Auth_Codes.thy ===== *)
theory Auth_Codes
  imports Auth
begin

text \<open>
  domains/auth/service.rs, the codes that stand for a login: first setup, invitations, codes for
  signing in again, and linking of devices. Linking works in transactions on a locked row. The
  others run statement by statement without a transaction, so a request is a task whose stages are
  the points between its statements; a database error ends it after any of them and keeps what it
  did.
\<close>

section \<open>Codes\<close>

definition BASE20_CHARS :: string where
  "BASE20_CHARS = ''BCDFGHJKLMNPQRSTVWXZ''"

text \<open>Random codes from the random indices drawn.\<close>

definition generate_device_user_code :: "nat list \<Rightarrow> string" where
  "generate_device_user_code indices = map (\<lambda>i. BASE20_CHARS ! i) indices"

fun chunks4 :: "string \<Rightarrow> string list" where
  "chunks4 (a # b # c # d # rest) = [a, b, c, d] # chunks4 rest"
| "chunks4 [] = []"
| "chunks4 s = [s]"

fun join_dash :: "string list \<Rightarrow> string" where
  "join_dash [] = []"
| "join_dash [s] = s"
| "join_dash (s # ss) = s @ CHR ''-'' # join_dash ss"

definition generate_invite_code :: "nat list \<Rightarrow> string" where
  "generate_invite_code indices = ''mv_invite-'' @ join_dash (chunks4 (map (\<lambda>i. BASE20_CHARS ! i) indices))"

definition generate_reauth_code :: "nat list \<Rightarrow> string" where
  "generate_reauth_code indices = ''mv_reauth-'' @ join_dash (chunks4 (map (\<lambda>i. BASE20_CHARS ! i) indices))"

definition code_prefix :: "string \<Rightarrow> string \<Rightarrow> string" where
  "code_prefix p full_code =
     (let stripped = (case strip_prefix p full_code of Some s \<Rightarrow> s | None \<Rightarrow> full_code)
      in take 4 (filter (\<lambda>c. c \<noteq> CHR ''-'') stripped))"

definition extract_code_prefix :: "string \<Rightarrow> string" where
  "extract_code_prefix full_code = code_prefix ''mv_invite-'' full_code"

definition extract_reauth_prefix :: "string \<Rightarrow> string" where
  "extract_reauth_prefix full_code = code_prefix ''mv_reauth-'' full_code"

definition format_user_code :: "string \<Rightarrow> string" where
  "format_user_code code = (let mid = length code div 2 in take mid code @ CHR ''-'' # drop mid code)"

definition is_ascii_alphanumeric :: "char \<Rightarrow> bool" where
  "is_ascii_alphanumeric c \<longleftrightarrow>
     (let n = (of_char c :: nat) in (48 \<le> n \<and> n \<le> 57) \<or> (65 \<le> n \<and> n \<le> 90) \<or> (97 \<le> n \<and> n \<le> 122))"

definition ascii_upper_char :: "char \<Rightarrow> char" where
  "ascii_upper_char c = (let n = (of_char c :: nat) in if 97 \<le> n \<and> n \<le> 122 then char_of (n - 32) else c)"

definition normalize_device_user_code :: "string \<Rightarrow> string" where
  "normalize_device_user_code user_code = map ascii_upper_char (filter is_ascii_alphanumeric user_code)"

section \<open>Linking a device\<close>

definition create_device_linking_code ::
  "(string \<Rightarrow> u8 list) \<Rightarrow> auth_config \<Rightarrow> instant \<Rightarrow> uuid \<Rightarrow> string \<Rightarrow> string \<Rightarrow> DeviceInfo \<Rightarrow> tables
     \<Rightarrow> (AuthError + string \<times> string) \<times> tables" where
  "create_device_linking_code sha config sql lid raw_user_code device_code_raw device db =
     (let hash = sha256_hex sha device_code_raw;
          row = \<lparr>l_id = lid, l_user_code = raw_user_code, l_device_code = hash,
            l_device = device, l_expires_at = sql + seconds (device_linking_code_expiry_seconds config),
            l_is_approved = False, l_approved_by_user_id = None, l_is_denied = False, l_denied_by_user_id = None,
            l_last_polled_at = None, l_poll_interval_seconds = device_linking_poll_interval_seconds config\<rparr>
      in if list_ex (\<lambda>l. l_id l = lid \<or> l_user_code l = raw_user_code \<or> l_device_code l = hash) (device_linking_codes db)
         then (Inl A_Database, db)
         else (Inr (device_code_raw, format_user_code raw_user_code),
               db\<lparr>device_linking_codes := device_linking_codes db @ [row]\<rparr>))"

definition delete_linking :: "uuid \<Rightarrow> tables \<Rightarrow> tables" where
  "delete_linking lid db = db\<lparr>device_linking_codes := filter (\<lambda>l. l_id l \<noteq> lid) (device_linking_codes db)\<rparr>"

definition update_linking :: "uuid \<Rightarrow> (linking_code \<Rightarrow> linking_code) \<Rightarrow> tables \<Rightarrow> tables" where
  "update_linking lid f db =
     db\<lparr>device_linking_codes := update_where (\<lambda>l. l_id l = lid) f (device_linking_codes db)\<rparr>"

definition link_session ::
  "(string \<Rightarrow> u8 list) \<Rightarrow> auth_config \<Rightarrow> instant \<Rightarrow> fresh \<Rightarrow> linking_code \<Rightarrow> tables
     \<Rightarrow> AuthError + (string \<times> uuid) \<times> tables" where
  "link_session sha config sql g row db =
     (case l_approved_by_user_id row of
        None \<Rightarrow> Inl A_DeviceLinkingDenied
      | Some uid \<Rightarrow>
          bind_res (create_session sha config sql g uid ((l_device row)\<lparr>device_name := None, is_secure := False\<rparr>) db)
            (\<lambda>((token, session), db1).
              case List.find (\<lambda>u. u_id u = uid \<and> u_deleted_at u = None \<and> u_status u = ''active'') (users db1) of
                None \<Rightarrow> Inl A_InvalidCredentials
              | Some u \<Rightarrow> Inr ((token, u_id u), delete_linking (l_id row) db1)))"

definition poll_device_linking_token ::
  "(string \<Rightarrow> u8 list) \<Rightarrow> auth_config \<Rightarrow> instant \<Rightarrow> instant \<Rightarrow> instant \<Rightarrow> fresh \<Rightarrow> string \<Rightarrow> tables
     \<Rightarrow> (AuthError + string \<times> uuid) \<times> tables" where
  "poll_device_linking_token sha config now now2 sql g device_code_raw db =
     (case List.find (\<lambda>l. l_device_code l = sha256_hex sha device_code_raw) (device_linking_codes db) of
        None \<Rightarrow> (Inl A_DeviceLinkingExpired, db)
      | Some row \<Rightarrow>
          if l_expires_at row < now then (Inl A_DeviceLinkingExpired, delete_linking (l_id row) db)
          else if l_is_denied row then (Inl A_DeviceLinkingDenied, db)
          else
            (let interval = max (l_poll_interval_seconds row) 1 in
             if (case l_last_polled_at row of None \<Rightarrow> False | Some polled \<Rightarrow> now2 < polled + seconds interval)
             then (let next_interval = min (i32_wrap (interval + 5)) 60 in
                   (Inl (A_DeviceLinkingSlowDown next_interval),
                    update_linking (l_id row)
                      (\<lambda>l. l\<lparr>l_last_polled_at := Some sql, l_poll_interval_seconds := next_interval\<rparr>) db))
             else
               (let db1 = update_linking (l_id row) (\<lambda>l. l\<lparr>l_last_polled_at := Some sql\<rparr>) db in
                if \<not> l_is_approved row then (Inl A_DeviceLinkingPending, db1)
                else case link_session sha config sql g row db1 of
                    Inl e \<Rightarrow> (Inl e, db)
                  | Inr (r, db2) \<Rightarrow> (Inr r, db2))))"

definition get_device_linking_request :: "instant \<Rightarrow> string \<Rightarrow> tables \<Rightarrow> (AuthError + string) \<times> tables" where
  "get_device_linking_request now user_code db =
     (case List.find (\<lambda>l. l_user_code l = normalize_device_user_code user_code) (device_linking_codes db) of
        None \<Rightarrow> (Inl A_DeviceLinkingExpired, db)
      | Some row \<Rightarrow>
          if l_expires_at row < now then (Inl A_DeviceLinkingExpired, delete_linking (l_id row) db)
          else if l_is_denied row then (Inl A_DeviceLinkingDenied, db)
          else if l_is_approved row then (Inl A_DeviceLinkingExpired, db)
          else (Inr (format_user_code (l_user_code row)), db))"

definition decide_linking :: "bool \<Rightarrow> uuid \<Rightarrow> linking_code \<Rightarrow> linking_code" where
  "decide_linking approve uid l =
     l\<lparr>l_is_approved := approve, l_approved_by_user_id := (if approve then Some uid else None),
       l_is_denied := \<not> approve, l_denied_by_user_id := (if approve then None else Some uid)\<rparr>"

definition verify_device_linking_code ::
  "instant \<Rightarrow> uuid \<Rightarrow> string \<Rightarrow> bool \<Rightarrow> tables \<Rightarrow> (AuthError + bool) \<times> tables" where
  "verify_device_linking_code now uid user_code approve db =
     (case List.find (\<lambda>l. l_user_code l = normalize_device_user_code user_code) (device_linking_codes db) of
        None \<Rightarrow> (Inl A_DeviceLinkingExpired, db)
      | Some row \<Rightarrow>
          if l_expires_at row < now then (Inl A_DeviceLinkingExpired, delete_linking (l_id row) db)
          else if l_is_approved row \<or> l_is_denied row then (Inl A_DeviceLinkingExpired, db)
          else if uid \<notin> u_id ` set (users db) then (Inl A_Database, db)
          else (Inr approve, update_linking (l_id row) (decide_linking approve uid) db))"

section \<open>Invitations and codes for signing in again\<close>

definition create_invitation ::
  "(string \<Rightarrow> u8 list) \<Rightarrow> string \<Rightarrow> invitation \<Rightarrow> tables \<Rightarrow> (AuthError + string) \<times> tables" where
  "create_invitation sha raw_code params db =
     (let row = params\<lparr>i_user_id := None, i_code_hash := sha256_hex sha raw_code,
            i_code_prefix := extract_code_prefix raw_code, i_use_count := 0, i_is_revoked := False\<rparr>
      in if i_id row \<in> i_id ` set (invitations db) \<or> i_code_hash row \<in> i_code_hash ` set (invitations db)
           \<or> i_created_by_user_id row \<notin> u_id ` set (users db)
           \<or> i_role row \<notin> {''admin'', ''member'', ''guest''}
         then (Inl A_Database, db)
         else (Inr raw_code, db\<lparr>invitations := invitations db @ [row]\<rparr>))"

definition revoke_invitation :: "uuid \<Rightarrow> tables \<Rightarrow> (AuthError + unit) \<times> tables" where
  "revoke_invitation iid db =
     (if list_ex (\<lambda>i. i_id i = iid \<and> \<not> i_is_revoked i) (invitations db)
      then (Inr (), db\<lparr>invitations :=
              update_where (\<lambda>i. i_id i = iid \<and> \<not> i_is_revoked i) (\<lambda>i. i\<lparr>i_is_revoked := True\<rparr>) (invitations db)\<rparr>)
      else (Inl A_InviteCodeRevoked, db))"

definition resend_invitation ::
  "(string \<Rightarrow> u8 list) \<Rightarrow> string \<Rightarrow> uuid \<Rightarrow> tables \<Rightarrow> (AuthError + string) \<times> tables" where
  "resend_invitation sha new_code iid db =
     (case List.find (\<lambda>i. i_id i = iid) (invitations db) of
        None \<Rightarrow> (Inl A_InviteCodeInvalid, db)
      | Some existing \<Rightarrow>
          if i_is_revoked existing then (Inl A_InviteCodeRevoked, db)
          else if sha256_hex sha new_code \<in> i_code_hash ` set (filter (\<lambda>i. i_id i \<noteq> iid) (invitations db))
          then (Inl A_Database, db)
          else (Inr new_code, db\<lparr>invitations := update_where (\<lambda>i. i_id i = iid)
                  (\<lambda>i. i\<lparr>i_code_hash := sha256_hex sha new_code, i_code_prefix := extract_code_prefix new_code,
                         i_use_count := 0\<rparr>) (invitations db)\<rparr>))"

datatype auth_task =
    T_Setup_User string string "string option"
  | T_Setup_Profile uuid
  | T_Setup_Flag uuid uuid
  | T_Setup_Session uuid uuid
  | T_Invite_User invitation DeviceInfo
  | T_Invite_Caps uuid "string list" uuid DeviceInfo
  | T_Invite_Bind uuid uuid DeviceInfo
  | T_Invite_Count uuid uuid DeviceInfo
  | T_Invite_Session uuid DeviceInfo
  | T_Reauth_User uuid uuid DeviceInfo
  | T_Reauth_Session uuid uuid DeviceInfo
  | T_Reauth_Used uuid uuid
  | T_Reauth_Insert uuid uuid string

text \<open>What a stage reads besides the tables: digests, configuration, clocks and generated values.\<close>

record auth_env =
  e_sha :: "string \<Rightarrow> u8 list"
  e_config :: auth_config
  e_now :: instant
  e_sql :: instant
  e_fresh :: fresh
  e_user :: uuid
  e_username :: string
  e_row :: uuid

text \<open>A stage ends in an error, in the end of the request, or in the next stage.\<close>

type_synonym outcome = "(AuthError + auth_task option) \<times> tables"

definition insert_user :: "user \<Rightarrow> tables \<Rightarrow> AuthError + tables" where
  "insert_user u db =
     (if u_id u \<in> u_id ` set (users db)
        \<or> list_ex (\<lambda>v. u_deleted_at v = None \<and> u_username v = u_username u) (users db)
        \<or> (u_email u \<noteq> None \<and> list_ex (\<lambda>v. u_deleted_at v = None \<and> u_email v = u_email u) (users db))
        \<or> u_role u \<notin> {''owner'', ''admin'', ''member'', ''guest''}
      then Inl A_Database else Inr (db\<lparr>users := users db @ [u]\<rparr>))"

subsection \<open>First setup\<close>

definition is_setup_complete :: "tables \<Rightarrow> bool" where
  "is_setup_complete db \<longleftrightarrow> setup_complete db = Some True"

definition SetupRequest_validate :: "string \<Rightarrow> string \<Rightarrow> string option \<Rightarrow> bool" where
  "SetupRequest_validate username display_name password \<longleftrightarrow>
     1 \<le> char_count username \<and> char_count username \<le> 100
     \<and> 1 \<le> char_count display_name \<and> char_count display_name \<le> 200
     \<and> (case password of None \<Rightarrow> True | Some p \<Rightarrow> 8 \<le> char_count p \<and> char_count p \<le> 200)"

definition setup_check :: "(string \<Rightarrow> string) \<Rightarrow> string \<Rightarrow> string \<Rightarrow> string option \<Rightarrow> tables \<Rightarrow> AuthError + auth_task" where
  "setup_check hash username display_name password db =
     (if is_setup_complete db then Inl A_SetupAlreadyComplete
      else if length (users db) > 0 then Inl A_SetupAlreadyComplete
      else if \<not> SetupRequest_validate username display_name password then Inl A_Validation
      else Inr (T_Setup_User username display_name (map_option hash password)))"

definition setup_user :: "auth_env \<Rightarrow> string \<Rightarrow> string \<Rightarrow> string option \<Rightarrow> tables \<Rightarrow> outcome" where
  "setup_user env username display_name password_hash db =
     (case insert_user \<lparr>u_id = e_user env, u_username = username, u_display_name = display_name, u_email = None,
              u_password_hash = password_hash, u_role = ''owner'', u_status = ''active'', u_deleted_at = None,
              u_has_all_library_access = True, u_failed_login_attempts = 0, u_locked_until = None\<rparr> db of
        Inl e \<Rightarrow> (Inl e, db)
      | Inr db' \<Rightarrow> (Inr (Some (T_Setup_Profile (e_user env))), db'))"

definition setup_profile :: "auth_env \<Rightarrow> uuid \<Rightarrow> tables \<Rightarrow> outcome" where
  "setup_profile env uid db =
     (case ensure_default_profile (g_profile (e_fresh env)) uid db of
        Inl e \<Rightarrow> (Inl e, db)
      | Inr (pid, db') \<Rightarrow> (Inr (Some (T_Setup_Flag uid pid)), db'))"

definition setup_flag :: "uuid \<Rightarrow> uuid \<Rightarrow> tables \<Rightarrow> outcome" where
  "setup_flag uid pid db =
     (Inr (Some (T_Setup_Session uid pid)), db\<lparr>setup_complete := map_option (\<lambda>_. True) (setup_complete db)\<rparr>)"

definition no_device :: DeviceInfo where
  "no_device = \<lparr>device_id = None, device_name = None, client_name = None, client_version = None,
     client_platform = None, ip_address = None, user_agent = None, is_secure = False\<rparr>"

definition setup_session :: "auth_env \<Rightarrow> uuid \<Rightarrow> uuid \<Rightarrow> tables \<Rightarrow> outcome" where
  "setup_session env uid pid db =
     (let g = e_fresh env; hash = sha256_hex (e_sha env) (g_token g) in
      if hash \<in> s_token_hash ` set (user_sessions db) \<or> g_session g \<in> s_id ` set (user_sessions db)
        \<or> uid \<notin> u_id ` set (users db) \<or> pid \<notin> p_id ` set (user_profiles db)
      then (Inl A_Database, db)
      else (Inr None, db\<lparr>user_sessions := user_sessions db @
              [\<lparr>s_id = g_session g, s_user_id = uid, s_active_profile_id = Some pid,
                s_profile_selection_required = False, s_token_hash = hash, s_credential_version = 1,
                s_device = no_device, s_expires_at = e_sql env + seconds (86400 * 90),
                s_last_active_at = e_sql env\<rparr>]\<rparr>))"

subsection \<open>Signing in with an invitation\<close>

definition invite_check ::
  "(string \<Rightarrow> u8 list) \<Rightarrow> instant \<Rightarrow> string \<Rightarrow> DeviceInfo \<Rightarrow> tables \<Rightarrow> AuthError + auth_task" where
  "invite_check sha now code device db =
     (case List.find (\<lambda>i. i_code_hash i = sha256_hex sha code) (invitations db) of
        None \<Rightarrow> Inl A_InviteCodeInvalid
      | Some row \<Rightarrow>
          if i_is_revoked row then Inl A_InviteCodeRevoked
          else if (case i_expires_at row of Some expires \<Rightarrow> expires < now | None \<Rightarrow> False) then Inl A_InviteCodeInvalid
          else if i_use_count row \<ge> i_max_uses row then Inl A_InviteCodeUseLimitExceeded
          else case i_user_id row of
              Some uid \<Rightarrow> Inr (T_Invite_Count uid (i_id row) device)
            | None \<Rightarrow> Inr (T_Invite_User row device))"

definition json_strings :: "json \<Rightarrow> string list" where
  "json_strings v =
     (case as_array v of
        None \<Rightarrow> []
      | Some xs \<Rightarrow> (if list_all (\<lambda>x. as_str x \<noteq> None) xs then map (\<lambda>x. the (as_str x)) xs else []))"

definition invite_user :: "auth_env \<Rightarrow> invitation \<Rightarrow> DeviceInfo \<Rightarrow> tables \<Rightarrow> outcome" where
  "invite_user env row device db =
     (case insert_user \<lparr>u_id = e_user env, u_username = e_username env,
              u_display_name = (case i_display_name row of Some d \<Rightarrow> d | None \<Rightarrow> ''New User''),
              u_email = Some (i_email row), u_password_hash = None, u_role = i_role row, u_status = ''active'',
              u_deleted_at = None, u_has_all_library_access = i_has_all_library_access row,
              u_failed_login_attempts = 0, u_locked_until = None\<rparr> db of
        Inl e \<Rightarrow> (Inl e, db)
      | Inr db' \<Rightarrow> (Inr (Some (T_Invite_Caps (e_user env) (json_strings (i_capabilities row)) (i_id row) device)), db'))"

definition invite_cap :: "uuid \<Rightarrow> string list \<Rightarrow> uuid \<Rightarrow> DeviceInfo \<Rightarrow> tables \<Rightarrow> outcome" where
  "invite_cap uid caps iid device db =
     (case caps of
        [] \<Rightarrow> (Inr (Some (T_Invite_Bind uid iid device)), db)
      | cap # rest \<Rightarrow>
          (Inr (Some (T_Invite_Caps uid rest iid device)),
           case insert_capability uid (cap, True) db of Inl _ \<Rightarrow> db | Inr db' \<Rightarrow> db'))"

definition invite_bind :: "uuid \<Rightarrow> uuid \<Rightarrow> DeviceInfo \<Rightarrow> tables \<Rightarrow> outcome" where
  "invite_bind uid iid device db =
     (Inr (Some (T_Invite_Count uid iid device)),
      db\<lparr>invitations := update_where (\<lambda>i. i_id i = iid) (\<lambda>i. i\<lparr>i_user_id := Some uid\<rparr>) (invitations db)\<rparr>)"

definition invite_count :: "uuid \<Rightarrow> uuid \<Rightarrow> DeviceInfo \<Rightarrow> tables \<Rightarrow> outcome" where
  "invite_count uid iid device db =
     (Inr (Some (T_Invite_Session uid device)),
      db\<lparr>invitations := update_where (\<lambda>i. i_id i = iid) (\<lambda>i. i\<lparr>i_use_count := i_use_count i + 1\<rparr>) (invitations db)\<rparr>)"

definition invite_session :: "auth_env \<Rightarrow> uuid \<Rightarrow> DeviceInfo \<Rightarrow> tables \<Rightarrow> outcome" where
  "invite_session env uid device db =
     (case create_session (e_sha env) (e_config env) (e_sql env) (e_fresh env) uid device db of
        Inl e \<Rightarrow> (Inl e, db)
      | Inr (_, db') \<Rightarrow> (Inr None, db'))"

subsection \<open>Signing in again\<close>

definition create_reauth_check :: "auth_config \<Rightarrow> instant \<Rightarrow> uuid \<Rightarrow> uuid \<Rightarrow> string \<Rightarrow> tables \<Rightarrow> AuthError + auth_task" where
  "create_reauth_check config sql uid requested_by raw_code db =
     (if int (length (filter (\<lambda>r. r_user_id r = uid \<and> r_created_at r > sql - seconds 86400) (reauth_codes db)))
           \<ge> reauth_max_requests_per_user_per_day config
      then Inl A_ReauthRateLimited
      else Inr (T_Reauth_Insert uid requested_by raw_code))"

definition reauth_insert :: "auth_env \<Rightarrow> uuid \<Rightarrow> uuid \<Rightarrow> string \<Rightarrow> tables \<Rightarrow> outcome" where
  "reauth_insert env uid requested_by raw_code db =
     (let hash = sha256_hex (e_sha env) raw_code in
      if hash \<in> r_code_hash ` set (reauth_codes db) \<or> e_row env \<in> r_id ` set (reauth_codes db)
        \<or> uid \<notin> u_id ` set (users db) \<or> requested_by \<notin> u_id ` set (users db)
      then (Inl A_Database, db)
      else (Inr None, db\<lparr>reauth_codes := reauth_codes db @
              [\<lparr>r_id = e_row env, r_user_id = uid, r_requested_by_user_id = requested_by, r_code_hash = hash,
                r_code_prefix = extract_reauth_prefix raw_code, r_created_at = e_sql env,
                r_expires_at = e_sql env + seconds (3600 * reauth_code_expiry_hours (e_config env)),
                r_is_used = False, r_resulting_session_id = None\<rparr>]\<rparr>))"

definition reauth_check ::
  "(string \<Rightarrow> u8 list) \<Rightarrow> instant \<Rightarrow> string \<Rightarrow> DeviceInfo \<Rightarrow> tables \<Rightarrow> AuthError + auth_task" where
  "reauth_check sha now code device db =
     (case List.find (\<lambda>r. r_code_hash r = sha256_hex sha code) (reauth_codes db) of
        None \<Rightarrow> Inl A_ReauthCodeInvalid
      | Some row \<Rightarrow>
          if r_is_used row then Inl A_ReauthCodeInvalid
          else if r_expires_at row < now then Inl A_ReauthCodeInvalid
          else Inr (T_Reauth_User (r_id row) (r_user_id row) device))"

definition reauth_user :: "uuid \<Rightarrow> uuid \<Rightarrow> DeviceInfo \<Rightarrow> tables \<Rightarrow> outcome" where
  "reauth_user rid uid device db =
     (case List.find (\<lambda>u. u_id u = uid \<and> u_deleted_at u = None) (users db) of
        None \<Rightarrow> (Inl A_ReauthCodeInvalid, db)
      | Some u \<Rightarrow>
          if u_status u \<noteq> ''active'' then (Inl A_ReauthCodeInvalid, db)
          else (Inr (Some (T_Reauth_Session rid uid device)), db))"

definition reauth_session :: "auth_env \<Rightarrow> uuid \<Rightarrow> uuid \<Rightarrow> DeviceInfo \<Rightarrow> tables \<Rightarrow> outcome" where
  "reauth_session env rid uid device db =
     (case create_session (e_sha env) (e_config env) (e_sql env) (e_fresh env) uid device db of
        Inl e \<Rightarrow> (Inl e, db)
      | Inr ((_, session), db') \<Rightarrow> (Inr (Some (T_Reauth_Used rid (s_id session))), db'))"

definition reauth_used :: "uuid \<Rightarrow> uuid \<Rightarrow> tables \<Rightarrow> outcome" where
  "reauth_used rid sid db =
     (Inr None,
      db\<lparr>reauth_codes := update_where (\<lambda>r. r_id r = rid)
           (\<lambda>r. r\<lparr>r_is_used := True, r_resulting_session_id := Some sid\<rparr>) (reauth_codes db)\<rparr>)"

section \<open>A request from stage to stage\<close>

fun advance :: "auth_env \<Rightarrow> auth_task \<Rightarrow> tables \<Rightarrow> outcome" where
  "advance env (T_Setup_User username display_name hash) db = setup_user env username display_name hash db"
| "advance env (T_Setup_Profile uid) db = setup_profile env uid db"
| "advance env (T_Setup_Flag uid pid) db = setup_flag uid pid db"
| "advance env (T_Setup_Session uid pid) db = setup_session env uid pid db"
| "advance env (T_Invite_User row device) db = invite_user env row device db"
| "advance env (T_Invite_Caps uid caps iid device) db = invite_cap uid caps iid device db"
| "advance env (T_Invite_Bind uid iid device) db = invite_bind uid iid device db"
| "advance env (T_Invite_Count uid iid device) db = invite_count uid iid device db"
| "advance env (T_Invite_Session uid device) db = invite_session env uid device db"
| "advance env (T_Reauth_User rid uid device) db = reauth_user rid uid device db"
| "advance env (T_Reauth_Session rid uid device) db = reauth_session env rid uid device db"
| "advance env (T_Reauth_Used rid sid) db = reauth_used rid sid db"
| "advance env (T_Reauth_Insert uid by code) db = reauth_insert env uid by code db"

fun stages_left :: "auth_task \<Rightarrow> nat" where
  "stages_left (T_Setup_User _ _ _) = 4"
| "stages_left (T_Setup_Profile _) = 3"
| "stages_left (T_Setup_Flag _ _) = 2"
| "stages_left (T_Setup_Session _ _) = 1"
| "stages_left (T_Invite_User row _) = 5 + length (json_strings (i_capabilities row))"
| "stages_left (T_Invite_Caps _ caps _ _) = 4 + length caps"
| "stages_left (T_Invite_Bind _ _ _) = 3"
| "stages_left (T_Invite_Count _ _ _) = 2"
| "stages_left (T_Invite_Session _ _) = 1"
| "stages_left (T_Reauth_User _ _ _) = 3"
| "stages_left (T_Reauth_Session _ _ _) = 2"
| "stages_left (T_Reauth_Used _ _) = 1"
| "stages_left (T_Reauth_Insert _ _ _) = 1"

lemmas stage_defs =
  setup_user_def setup_profile_def setup_flag_def setup_session_def invite_user_def invite_cap_def invite_bind_def
  invite_count_def invite_session_def reauth_user_def reauth_session_def reauth_used_def reauth_insert_def

lemma advance_decreases: "advance env t db = (Inr (Some t'), db') \<Longrightarrow> stages_left t' < stages_left t"
  by (cases "(env, t, db)" rule: advance.cases)
    (auto simp: stage_defs Let_def split: sum.splits if_splits option.splits list.splits)

text \<open>A request that runs alone, its generated values the same at every stage.\<close>

function run_task :: "auth_env \<Rightarrow> auth_task \<Rightarrow> tables \<Rightarrow> (AuthError + unit) \<times> tables" where
  "run_task env t db =
     (case advance env t db of
        (Inl e, db') \<Rightarrow> (Inl e, db')
      | (Inr None, db') \<Rightarrow> (Inr (), db')
      | (Inr (Some t'), db') \<Rightarrow> run_task env t' db')"
  by pat_completeness auto
termination
  by (relation "measure (\<lambda>(env, t, db). stages_left t)") (auto dest: advance_decreases [OF sym])

declare run_task.simps [simp del]

definition authenticate_invite_code ::
  "auth_env \<Rightarrow> string \<Rightarrow> DeviceInfo \<Rightarrow> tables \<Rightarrow> (AuthError + unit) \<times> tables" where
  "authenticate_invite_code env code device db =
     (case invite_check (e_sha env) (e_now env) code device db of
        Inl e \<Rightarrow> (Inl e, db)
      | Inr t \<Rightarrow> run_task env t db)"

definition authenticate_reauth_code ::
  "auth_env \<Rightarrow> string \<Rightarrow> DeviceInfo \<Rightarrow> tables \<Rightarrow> (AuthError + unit) \<times> tables" where
  "authenticate_reauth_code env code device db =
     (case reauth_check (e_sha env) (e_now env) code device db of
        Inl e \<Rightarrow> (Inl e, db)
      | Inr t \<Rightarrow> run_task env t db)"

definition create_reauth_code ::
  "auth_env \<Rightarrow> uuid \<Rightarrow> uuid \<Rightarrow> string \<Rightarrow> tables \<Rightarrow> (AuthError + unit) \<times> tables" where
  "create_reauth_code env uid requested_by raw_code db =
     (case create_reauth_check (e_config env) (e_sql env) uid requested_by raw_code db of
        Inl e \<Rightarrow> (Inl e, db)
      | Inr t \<Rightarrow> run_task env t db)"

definition run_setup ::
  "auth_env \<Rightarrow> (string \<Rightarrow> string) \<Rightarrow> string \<Rightarrow> string \<Rightarrow> string option \<Rightarrow> tables \<Rightarrow> (AuthError + unit) \<times> tables" where
  "run_setup env hash username display_name password db =
     (case setup_check hash username display_name password db of
        Inl e \<Rightarrow> (Inl e, db)
      | Inr t \<Rightarrow> run_task env t db)"

end
