(* ===== verification/Auth_Props.thy ===== *)
theory Auth_Props
  imports Auth_Codes
begin

text \<open>
  Properties of accounts and codes: stored passwords, capabilities, linking of devices, single use
  of codes, and what interleaved requests can do that one after the other they cannot.
\<close>

section \<open>Hexadecimal text and passwords\<close>

lemma hex_value_digit: "n < 16 \<Longrightarrow> hex_value (hex_digit n) = Some n"
  by (auto simp: hex_digit_def hex_value_def Let_def of_char_of)

lemma unat_u8 [simp]: "unat (b :: u8) < 256"
  using unsigned_less [of b, where ?'a = nat] by simp

lemma parse_hex_byte: "parse_hex_pair (hex_digit (unat b div 16)) (hex_digit (unat b mod 16)) = Some (b :: u8)"
proof -
  have "unat b div 16 < 16" using unat_u8 [of b] by linarith
  then show ?thesis by (simp add: parse_hex_pair_def hex_value_digit)
qed

lemma hex_roundtrip [simp]: "hex_decode (hex_encode bytes) = Some bytes"
  by (induction bytes) (simp_all add: hex_encode_def parse_hex_byte)

lemma hex_digit_colon: "n < 16 \<Longrightarrow> hex_digit n \<noteq> CHR '':''"
proof
  assume "n < 16" "hex_digit n = CHR '':''"
  then have "(of_char (hex_digit n) :: nat) = 58" by simp
  with \<open>n < 16\<close> show False by (auto simp: hex_digit_def of_char_of split: if_splits)
qed

lemma hex_no_colon: "CHR '':'' \<notin> set (hex_encode bytes)"
proof -
  have "hex_digit (unat b div 16) \<noteq> CHR '':''" "hex_digit (unat b mod 16) \<noteq> CHR '':''" for b :: u8
  proof -
    have "unat b div 16 < 16" using unat_u8 [of b] by linarith
    then show "hex_digit (unat b div 16) \<noteq> CHR '':''" by (rule hex_digit_colon)
    show "hex_digit (unat b mod 16) \<noteq> CHR '':''" by (rule hex_digit_colon) simp
  qed
  then show ?thesis unfolding hex_encode_def by (induction bytes) (auto simp: eq_commute)
qed

text \<open>
  A stored password admits exactly the passwords that derive the same key: with a \<open>verify\<close> that
  compares the derived key, as that of PBKDF2 does, checking a password against the text stored for
  another one succeeds if and only if both give the same key under the stored salt.
\<close>

theorem password_roundtrip:
  assumes "\<And>salt password key. pbkdf2_verify salt password key \<longleftrightarrow> derive salt password = key"
  shows "verify_password_hash pbkdf2_verify (hash_password derive salt password) attempt
    = (if derive salt attempt = derive salt password then Inr () else Inl A_InvalidCredentials)"
proof -
  have "splitn3 (hash_password derive salt password)
      = Some (''pbkdf2'', hex_encode salt, hex_encode (derive salt password))"
    using split_once_at [of "CHR '':''" "''pbkdf2''" "hex_encode salt @ '':'' @ hex_encode (derive salt password)"]
      split_once_at [OF hex_no_colon, of salt "hex_encode (derive salt password)"]
    by (simp add: splitn3_def hash_password_def)
  then show ?thesis using assms by (simp add: verify_password_hash_def)
qed

definition toy_derive :: "u8 list \<Rightarrow> string \<Rightarrow> u8 list" where
  "toy_derive salt password = salt @ map (\<lambda>c. word_of_nat (of_char c)) password"

theorem password_roundtrip_witness:
  "verify_password_hash (\<lambda>salt password key. toy_derive salt password = key) (hash_password toy_derive [1, 255] ''pw'') ''pw''
     = Inr ()
   \<and> verify_password_hash (\<lambda>salt password key. toy_derive salt password = key) (hash_password toy_derive [1, 255] ''pw'') ''px''
     = Inl A_InvalidCredentials"
proof -
  note r = password_roundtrip [of "\<lambda>salt password key. toy_derive salt password = key" toy_derive, OF refl]
  show ?thesis unfolding r by (simp add: toy_derive_def)
qed

section \<open>Capabilities\<close>

lemma apply_override_set:
  "set (apply_override row caps) = (if c_is_granted row then insert (c_capability row) (set caps) else set caps - {c_capability row})"
  by (auto simp: apply_override_def)

lemma fold_override_set:
  "distinct (map c_capability rows) \<Longrightarrow>
     set (fold apply_override rows caps)
       = (set caps \<union> c_capability ` set (filter c_is_granted rows)) - c_capability ` set (filter (\<lambda>r. \<not> c_is_granted r) rows)"
  by (induction rows arbitrary: caps) (auto simp: apply_override_set)

definition own_rows :: "uuid \<Rightarrow> tables \<Rightarrow> capability list" where
  "own_rows uid db = filter (\<lambda>c. c_user_id c = uid) (user_capabilities db)"

lemma insert_overrides_rows:
  "insert_overrides uid ovs db = Inr db' \<Longrightarrow>
     distinct (map c_capability (own_rows uid db)) \<Longrightarrow>
     map (\<lambda>c. (c_capability c, c_is_granted c)) (own_rows uid db') = map (\<lambda>c. (c_capability c, c_is_granted c)) (own_rows uid db) @ ovs
     \<and> distinct (map c_capability (own_rows uid db'))
     \<and> filter (\<lambda>c. c_user_id c \<noteq> uid) (user_capabilities db') = filter (\<lambda>c. c_user_id c \<noteq> uid) (user_capabilities db)"
proof (induction ovs arbitrary: db)
  case (Cons ov ovs)
  then obtain db1 where i: "insert_capability uid ov db = Inr db1" "insert_overrides uid ovs db1 = Inr db'"
    by (auto simp: bind_res_Inr)
  from i(1) have c: "\<not> has_capability_row uid (fst ov) db"
    and db1: "user_capabilities db1 = user_capabilities db @ [\<lparr>c_user_id = uid, c_capability = fst ov, c_is_granted = snd ov\<rparr>]"
    by (auto simp: insert_capability_def split: if_splits)
  have "distinct (map c_capability (own_rows uid db1))"
    using Cons.prems(2) c by (auto simp: own_rows_def db1 has_capability_row_def list_ex_iff)
  from Cons.IH [OF i(2) this] show ?case by (simp add: own_rows_def db1)
qed simp

text \<open>
  C35. Capability overrides take effect as given: after a successful update of a user who is not an
  owner, the user has exactly the default capabilities of the role and the granted ones, less the
  withdrawn ones, all of them known names, and nobody else's overrides have changed.
\<close>

theorem overrides_take_effect:
  assumes "update_capabilities collate uid overrides role db = (Inr r, db')" and "role \<noteq> ''owner''"
  shows "set (resolve_capabilities uid role db')
      = (set (role_default_capabilities role) \<union> fst ` set (filter snd overrides)) - fst ` set (filter (\<lambda>ov. \<not> snd ov) overrides)
    \<and> set (resolve_capabilities uid role db') \<subseteq> set ALL_CAPABILITIES
    \<and> filter (\<lambda>c. c_user_id c \<noteq> uid) (user_capabilities db') = filter (\<lambda>c. c_user_id c \<noteq> uid) (user_capabilities db)"
proof -
  from assms have v: "List.find (\<lambda>ov. \<not> validate_capability_name (fst ov)) overrides = None"
    and ins: "insert_overrides uid overrides
        (db\<lparr>user_capabilities := filter (\<lambda>c. c_user_id c \<noteq> uid) (user_capabilities db)\<rparr>) = Inr db'"
    by (auto simp: update_capabilities_def split: option.splits sum.splits)
  have rows: "map (\<lambda>c. (c_capability c, c_is_granted c)) (own_rows uid db') = overrides"
      "distinct (map c_capability (own_rows uid db'))"
      "filter (\<lambda>c. c_user_id c \<noteq> uid) (user_capabilities db') = filter (\<lambda>c. c_user_id c \<noteq> uid) (user_capabilities db)"
    using insert_overrides_rows [OF ins] by (simp_all add: own_rows_def)
  have granted: "c_capability ` set (filter c_is_granted (own_rows uid db')) = fst ` set (filter snd overrides)"
    and denied: "c_capability ` set (filter (\<lambda>r. \<not> c_is_granted r) (own_rows uid db')) = fst ` set (filter (\<lambda>ov. \<not> snd ov) overrides)"
    unfolding rows(1) [symmetric] by force+
  have eq: "set (resolve_capabilities uid role db')
      = (set (role_default_capabilities role) \<union> fst ` set (filter snd overrides)) - fst ` set (filter (\<lambda>ov. \<not> snd ov) overrides)"
  proof (cases "own_rows uid db' = []")
    case True
    then have "overrides = []" using rows(1) by simp
    then show ?thesis using True assms(2) by (simp add: resolve_capabilities_def own_rows_def)
  next
    case False
    then have "resolve_capabilities uid role db' = fold apply_override (own_rows uid db') (role_default_capabilities role)"
      using assms(2) by (simp add: resolve_capabilities_def own_rows_def)
    then show ?thesis using fold_override_set [OF rows(2)] granted denied by simp
  qed
  have "set (role_default_capabilities role) \<subseteq> set ALL_CAPABILITIES"
    by (auto simp: role_default_capabilities_def ALL_CAPABILITIES_def)
  moreover have "fst ` set overrides \<subseteq> set ALL_CAPABILITIES"
    using v by (auto simp: find_None_iff validate_capability_name_def)
  ultimately show ?thesis using eq rows(3) by auto
qed

definition no_tables :: tables where
  "no_tables = \<lparr>users = [], user_sessions = [], user_profiles = [], profile_device_preferences = [],
     user_capabilities = [], invitations = [], device_linking_codes = [], reauth_codes = [], setup_complete = Some False\<rparr>"

theorem overrides_take_effect_witness:
  "\<exists>db'. update_capabilities id 7 [(''can_transcode'', True), (''can_download'', False)] ''member'' no_tables
        = (Inr [(''can_transcode'', True), (''can_download'', False)], db')
     \<and> set (resolve_capabilities 7 ''member'' db') = {''play_media'', ''can_share_content'', ''can_transcode''}"
proof -
  obtain r db' where u: "update_capabilities id 7 [(''can_transcode'', True), (''can_download'', False)] ''member'' no_tables = (Inr r, db')"
      "r = [(''can_transcode'', True), (''can_download'', False)]"
    by (simp add: update_capabilities_def insert_capability_def has_capability_row_def validate_capability_name_def
        ALL_CAPABILITIES_def get_capability_overrides_def no_tables_def)
  show ?thesis using u overrides_take_effect [OF u(1)] by (auto simp: role_default_capabilities_def)
qed

section \<open>Sessions\<close>

definition owns_profile :: "uuid \<Rightarrow> uuid \<Rightarrow> tables \<Rightarrow> bool" where
  "owns_profile uid pid db \<longleftrightarrow> (\<exists>p \<in> set (user_profiles db). p_id p = pid \<and> p_owner_user_id p = uid)"

lemma owns_profile_more: "owns_profile uid pid db \<Longrightarrow> set (user_profiles db) \<subseteq> set (user_profiles db') \<Longrightarrow> owns_profile uid pid db'"
  unfolding owns_profile_def by blast

text \<open>A table of profiles that has grown by fresh rows.\<close>

definition more_profiles :: "tables \<Rightarrow> tables \<Rightarrow> bool" where
  "more_profiles db db' \<longleftrightarrow>
     (\<exists>ps. user_profiles db' = user_profiles db @ ps)
     \<and> (distinct (map p_id (user_profiles db)) \<longrightarrow> distinct (map p_id (user_profiles db')))"

lemma more_profiles_refl [simp]: "user_profiles db' = user_profiles db \<Longrightarrow> more_profiles db db'"
  by (simp add: more_profiles_def)

lemma ensure_default_profile_Inr:
  assumes "ensure_default_profile new uid db = Inr (pid, db')"
  shows "(\<exists>ps. db' = db\<lparr>user_profiles := ps\<rparr>) \<and> owns_profile uid pid db' \<and> more_profiles db db'"
proof (cases "default_profile uid db")
  case (Some p)
  then have "p \<in> set (user_profiles db) \<and> p_owner_user_id p = uid"
    unfolding default_profile_def by (auto dest: find_Some_set)
  moreover have "\<exists>ps. db = db\<lparr>user_profiles := ps\<rparr>" by (rule exI [of _ "user_profiles db"]) simp
  ultimately show ?thesis using assms Some by (auto simp: ensure_default_profile_def owns_profile_def)
next
  case None
  then show ?thesis using assms
    by (auto simp: ensure_default_profile_def owns_profile_def more_profiles_def split: option.splits if_splits)
qed

definition adds_session :: "tables \<Rightarrow> UserSession \<Rightarrow> tables \<Rightarrow> bool" where
  "adds_session db s db' \<longleftrightarrow>
     (\<exists>ps. db' = db\<lparr>user_profiles := ps, user_sessions := user_sessions db @ [s]\<rparr>)
     \<and> s_token_hash s \<notin> s_token_hash ` set (user_sessions db) \<and> s_id s \<notin> s_id ` set (user_sessions db)
     \<and> s_user_id s \<in> u_id ` set (users db) \<and> more_profiles db db'
     \<and> (\<exists>pid. s_active_profile_id s = Some pid \<and> owns_profile (s_user_id s) pid db')"

lemma remembered_owned:
  assumes "remembered_profile_for_device uid d db = Some pid"
  shows "owns_profile uid pid db"
proof -
  from assms obtain x where "normalized_device_id d = Some x"
    by (auto simp: remembered_profile_for_device_def split: option.splits)
  with assms have "\<exists>pref \<in> set (profile_device_preferences db).
      (if d_owner_user_id pref = uid \<and> d_device_id pref = x
       then map_option p_id (List.find (\<lambda>p. p_id p = d_profile_id pref \<and> p_owner_user_id p = uid) (user_profiles db))
       else None) = Some pid"
    by (intro find_map_Some) (simp add: remembered_profile_for_device_def)
  then show ?thesis
    by (auto simp: owns_profile_def dest!: find_Some_set split: if_splits)
qed

lemma find_user_Some: "find_user uid db \<noteq> None \<longleftrightarrow> uid \<in> u_id ` set (users db)"
  by (auto simp: find_user_def find_None_iff)

lemma create_session_Inr:
  assumes "create_session sha config sql g uid device db = Inr ((token, s), db')"
  shows "adds_session db s db' \<and> token = g_token g \<and> s_user_id s = uid \<and> s_id s = g_session g
    \<and> s_token_hash s = sha256_hex sha token \<and> s_device s = device
    \<and> s_expires_at s = sql + seconds (86400 * session_absolute_timeout_days config)"
proof -
  from assms obtain pid db1 where p: "ensure_default_profile (g_profile g) uid db = Inr (pid, db1)"
    by (auto simp: create_session_def bind_res_Inr)
  note d = ensure_default_profile_Inr [OF p]
  let ?active = "case remembered_profile_for_device uid (device_id device) db1 of Some p \<Rightarrow> p | None \<Rightarrow> pid"
  have o: "owns_profile uid ?active db1"
    using d by (auto split: option.splits dest: remembered_owned)
  from assms p have s: "s_active_profile_id s = Some ?active" "db' = db1\<lparr>user_sessions := user_sessions db1 @ [s]\<rparr>"
      "s_user_id s = uid" "s_id s = g_session g" "s_token_hash s = sha256_hex sha (g_token g)" "token = g_token g"
      "s_device s = device" "s_expires_at s = sql + seconds (86400 * session_absolute_timeout_days config)"
      "s_token_hash s \<notin> s_token_hash ` set (user_sessions db1)" "s_id s \<notin> s_id ` set (user_sessions db1)"
      "uid \<in> u_id ` set (users db1)"
    by (auto simp: create_session_def Let_def find_user_Some [symmetric] split: if_splits)
  from d obtain ps where e: "db1 = db\<lparr>user_profiles := ps\<rparr>" by blast
  have "owns_profile uid ?active db'" using o by (simp add: owns_profile_def s(2))
  moreover have "more_profiles db db'" using d by (simp add: more_profiles_def s(2))
  moreover have "db' = db\<lparr>user_profiles := ps, user_sessions := user_sessions db @ [s]\<rparr>" by (simp add: s(2) e)
  ultimately show ?thesis using s e unfolding adds_session_def by auto
qed

lemma adds_session_fields:
  assumes "adds_session db s db'"
  shows "users db' = users db" "user_sessions db' = user_sessions db @ [s]"
    "device_linking_codes db' = device_linking_codes db" "invitations db' = invitations db"
    "reauth_codes db' = reauth_codes db" "user_capabilities db' = user_capabilities db"
  using assms by (auto simp: adds_session_def)

lemma find_append_None: "List.find P xs = None \<Longrightarrow> List.find P (xs @ ys) = List.find P ys"
  by (induction xs) (simp_all split: if_splits)

text \<open>A session that has just been added is found by its token.\<close>

lemma validate_added:
  assumes "adds_session db s db'" and "s_token_hash s = sha256_hex sha token" and "sql < s_expires_at s"
    and u: "List.find (\<lambda>u. u_id u = s_user_id s \<and> u_deleted_at u = None \<and> u_status u = ''active'') (users db) = Some u"
    and "user_sessions db'' = user_sessions db'" "users db'' = users db'"
  shows "\<exists>v. validate_session sha sql token db'' = Inr v \<and> w_session v = s \<and> w_user v = u"
proof -
  have "List.find (\<lambda>x. s_token_hash x = sha256_hex sha token \<and> s_expires_at x > sql) (user_sessions db) = None"
  proof -
    have "sha256_hex sha token \<notin> s_token_hash ` set (user_sessions db)" using assms(1,2) by (simp add: adds_session_def)
    then show ?thesis unfolding find_None_iff by (metis image_eqI)
  qed
  then have "List.find (\<lambda>x. s_token_hash x = sha256_hex sha token \<and> s_expires_at x > sql) (user_sessions db'') = Some s"
    using adds_session_fields [OF assms(1)] assms(2,3,5) by (simp add: find_append_None)
  moreover obtain pid where "s_active_profile_id s = Some pid" using assms(1) by (auto simp: adds_session_def)
  ultimately show ?thesis using u adds_session_fields(1) [OF assms(1)] assms(6) by (simp add: validate_session_def)
qed

subsection \<open>Revocation\<close>

lemma find_filter_other:
  "(\<And>x. x \<in> set xs \<Longrightarrow> P x \<Longrightarrow> Q x) \<Longrightarrow> List.find P (filter Q xs) = List.find P xs"
  by (induction xs) auto

lemma validate_removed:
  assumes "user_sessions db' = filter Q (user_sessions db)" "users db' = users db" "user_capabilities db' = user_capabilities db"
  shows "(\<And>s. s \<in> set (user_sessions db) \<Longrightarrow> s_token_hash s = sha256_hex sha token \<Longrightarrow> Q s)
      \<Longrightarrow> validate_session sha sql token db' = validate_session sha sql token db"
    and "(\<And>s. s \<in> set (user_sessions db) \<Longrightarrow> s_token_hash s = sha256_hex sha token \<Longrightarrow> \<not> Q s)
      \<Longrightarrow> validate_session sha sql token db' = Inl A_SessionExpired"
proof -
  assume "\<And>s. s \<in> set (user_sessions db) \<Longrightarrow> s_token_hash s = sha256_hex sha token \<Longrightarrow> Q s"
  then have f: "List.find (\<lambda>s. s_token_hash s = sha256_hex sha token \<and> s_expires_at s > sql) (user_sessions db')
      = List.find (\<lambda>s. s_token_hash s = sha256_hex sha token \<and> s_expires_at s > sql) (user_sessions db)"
    unfolding assms(1) by (intro find_filter_other) auto
  have c: "resolve_capabilities uid role db' = resolve_capabilities uid role db" for uid role
    using assms(3) by (simp add: resolve_capabilities_def)
  show "validate_session sha sql token db' = validate_session sha sql token db"
    unfolding validate_session_def f assms(2) c ..
next
  assume "\<And>s. s \<in> set (user_sessions db) \<Longrightarrow> s_token_hash s = sha256_hex sha token \<Longrightarrow> \<not> Q s"
  then have "List.find (\<lambda>s. s_token_hash s = sha256_hex sha token \<and> s_expires_at s > sql) (user_sessions db') = None"
    by (auto simp: assms(1) find_None_iff)
  then show "validate_session sha sql token db' = Inl A_SessionExpired" by (simp add: validate_session_def)
qed

text \<open>
  C34. Signing out works and affects nobody else: after a session is revoked its token is refused at any
  later time and every other token is judged as before; after all sessions of a user are revoked, each
  of their tokens is refused, and the tokens of other users are judged as before.
\<close>

theorem revocation_contract:
  assumes "s \<in> set (user_sessions db)" "distinct (map s_token_hash (user_sessions db))" "distinct (map s_id (user_sessions db))"
    and "s_token_hash s = sha256_hex sha token" "o' \<in> set (user_sessions db)" "s_token_hash o' = sha256_hex sha other"
  shows "fst (revoke_session (s_id s) (s_user_id s) db) = Inr ()
    \<and> validate_session sha sql token (snd (revoke_session (s_id s) (s_user_id s) db)) = Inl A_SessionExpired
    \<and> (s \<noteq> o' \<longrightarrow> validate_session sha sql other (snd (revoke_session (s_id s) (s_user_id s) db)) = validate_session sha sql other db)
    \<and> validate_session sha sql other (snd (revoke_all_sessions (s_user_id s) db))
        = (if s_user_id o' = s_user_id s then Inl A_SessionExpired else validate_session sha sql other db)"
proof -
  let ?Q = "\<lambda>x. \<not> (s_id x = s_id s \<and> s_user_id x = s_user_id s)"
  let ?db = "snd (revoke_session (s_id s) (s_user_id s) db)"
  obtain x where x: "List.find (\<lambda>x. s_id x = s_id s \<and> s_user_id x = s_user_id s) (user_sessions db) = Some x"
    using assms(1) by (metis (mono_tags, lifting) find_None_iff option.exhaust)
  have same: "y = s" if "y \<in> set (user_sessions db)" "s_token_hash y = sha256_hex sha token" for y
    using assms(1,2,4) that by (metis distinct_map inj_onD)
  have id: "y = s" if "y \<in> set (user_sessions db)" "s_id y = s_id s" for y
    using assms(1,3) that by (metis distinct_map inj_onD)
  have other: "y = o'" if "y \<in> set (user_sessions db)" "s_token_hash y = sha256_hex sha other" for y
    using assms(2,5,6) that by (metis distinct_map inj_onD)
  have db: "user_sessions ?db = filter ?Q (user_sessions db)" "users ?db = users db" "user_capabilities ?db = user_capabilities db"
    using x by (simp_all add: revoke_session_def Let_def split: option.splits)
  have "validate_session sha sql token ?db = Inl A_SessionExpired"
    by (rule validate_removed(2) [OF db]) (auto dest: same)
  moreover have "validate_session sha sql other ?db = validate_session sha sql other db" if "s \<noteq> o'"
    by (rule validate_removed(1) [OF db]) (use that other id in blast)
  moreover have "validate_session sha sql other (snd (revoke_all_sessions (s_user_id s) db))
      = (if s_user_id o' = s_user_id s then Inl A_SessionExpired else validate_session sha sql other db)"
    using validate_removed [where Q = "\<lambda>x. s_user_id x \<noteq> s_user_id s" and db = db
        and db' = "snd (revoke_all_sessions (s_user_id s) db)" and sha = sha and token = other and sql = sql] other
    by (auto simp: revoke_all_sessions_def)
  ultimately show ?thesis using x by (simp add: revoke_session_def Let_def)
qed

section \<open>First setup\<close>

lemma create_session_unnamed:
  assumes "default_profile uid db = None" "\<And>u. find_user uid db = Some u \<Longrightarrow> \<not> profile_name_ok (u_display_name u)"
  shows "create_session sha config sql g uid device db = Inl A_Database"
  using assms by (auto simp: create_session_def ensure_default_profile_def split: option.splits)

text \<open>
  C33. A long display name makes the server unusable: a setup request that passes validation but whose
  display name is longer than the database allows for a profile fails after the owner has been
  created; from then on every setup is refused as complete and every login fails without a session.
\<close>

theorem long_name_blocks_setup:
  assumes "setup_check hash username display_name password db = Inr t" and "\<not> profile_name_ok display_name" and "user_profiles db = []"
    and "db1 = snd (run_setup env hash username display_name password db)"
  shows "fst (run_setup env hash username display_name password db) = Inl A_Database \<and> length (users db1) = 1
    \<and> run_setup env' hash' username' display_name' password' db1 = (Inl A_SetupAlreadyComplete, db1)
    \<and> isl (fst (auth_login sha pbkdf2_verify config now sql g up login attempt device db1))
    \<and> snd (auth_login sha pbkdf2_verify config now sql g up login attempt device db1) = db1"
proof -
  from assms(1) have c: "users db = []" "t = T_Setup_User username display_name (map_option hash password)"
    by (auto simp: setup_check_def split: if_splits)
  define u where "u = \<lparr>u_id = e_user env, u_username = username, u_display_name = display_name, u_email = None,
    u_password_hash = map_option hash password, u_role = ''owner'', u_status = ''active'', u_deleted_at = None,
    u_has_all_library_access = True, u_failed_login_attempts = 0, u_locked_until = None\<rparr>"
  have ins: "insert_user u db = Inr (db\<lparr>users := [u]\<rparr>)" using c(1) by (simp add: insert_user_def u_def)
  have find: "default_profile uid (db\<lparr>users := [u]\<rparr>) = None" for uid by (simp add: default_profile_def assms(3))
  have "run_task env (T_Setup_Profile (e_user env)) (db\<lparr>users := [u]\<rparr>) = (Inl A_Database, db\<lparr>users := [u]\<rparr>)"
    using assms(2) find by (subst run_task.simps) (simp add: setup_profile_def ensure_default_profile_def find_user_def u_def)
  then have "run_task env t db = (Inl A_Database, db\<lparr>users := [u]\<rparr>)"
    unfolding c(2) by (subst run_task.simps) (simp add: setup_user_def ins flip: u_def)
  then have run: "run_setup env hash username display_name password db = (Inl A_Database, db\<lparr>users := [u]\<rparr>)"
    by (simp add: run_setup_def assms(1))
  then have db1: "db1 = db\<lparr>users := [u]\<rparr>" using assms(4) by simp
  have "create_session sha config sql g uid device db1 = Inl A_Database" for uid
    using assms(2) find by (intro create_session_unnamed) (auto simp: db1 find_user_def u_def split: if_splits)
  then have "isl (fst (auth_login sha pbkdf2_verify config now sql g up login attempt device db1))
      \<and> snd (auth_login sha pbkdf2_verify config now sql g up login attempt device db1) = db1"
    by (simp add: auth_login_def split: sum.splits)
  moreover have "setup_check hash' username' display_name' password' db1 = Inl A_SetupAlreadyComplete"
    by (simp add: setup_check_def db1)
  ultimately show ?thesis using run by (simp add: run_setup_def db1)
qed

section \<open>Linking a device\<close>

lemma update_linking_fields [simp]:
  "users (update_linking lid f db) = users db" "user_sessions (update_linking lid f db) = user_sessions db"
  "user_profiles (update_linking lid f db) = user_profiles db"
  by (simp_all add: update_linking_def)

lemma update_linking_codes:
  "device_linking_codes (update_linking lid f db) = update_where (\<lambda>l. l_id l = lid) f (device_linking_codes db)"
  by (simp add: update_linking_def)

lemma delete_linking_fields [simp]:
  "users (delete_linking lid db) = users db" "user_sessions (delete_linking lid db) = user_sessions db"
  "user_profiles (delete_linking lid db) = user_profiles db"
  by (simp_all add: delete_linking_def)

lemma link_session_Inr:
  assumes "link_session sha config sql g row db = Inr ((token, uid), db')"
  shows "\<exists>s u db1. l_approved_by_user_id row = Some uid \<and> adds_session db s db1 \<and> db' = delete_linking (l_id row) db1
    \<and> token = g_token g \<and> s_user_id s = uid \<and> s_token_hash s = sha256_hex sha token
    \<and> s_expires_at s = sql + seconds (86400 * session_absolute_timeout_days config)
    \<and> List.find (\<lambda>u. u_id u = uid \<and> u_deleted_at u = None \<and> u_status u = ''active'') (users db) = Some u"
proof -
  from assms obtain a where a: "l_approved_by_user_id row = Some a" by (auto simp: link_session_def split: option.splits)
  let ?find = "List.find (\<lambda>u. u_id u = a \<and> u_deleted_at u = None \<and> u_status u = ''active'')"
  from assms a obtain x where c': "create_session sha config sql g a ((l_device row)\<lparr>device_name := None, is_secure := False\<rparr>) db = Inr x"
    and x: "(\<lambda>((token, session), db1). case ?find (users db1) of None \<Rightarrow> Inl A_InvalidCredentials
              | Some u \<Rightarrow> Inr ((token, u_id u), delete_linking (l_id row) db1)) x = Inr ((token, uid), db')"
    unfolding link_session_def by (simp only: option.case bind_res_Inr) blast
  obtain t s db1 where tsd: "x = ((t, s), db1)" by (metis surj_pair)
  note c = c' [unfolded tsd]
  from x obtain u where u: "?find (users db1) = Some u" "t = token" "u_id u = uid" "db' = delete_linking (l_id row) db1"
    by (auto simp: tsd split: option.splits)
  note cs = create_session_Inr [OF c]
  have "uid = a" using find_Some_set [OF u(1)] u(3) by simp
  moreover have "users db1 = users db" using cs adds_session_fields(1) by blast
  ultimately show ?thesis using a cs u
    by (intro exI [of _ s] exI [of _ u] exI [of _ db1]) simp
qed

lemma filter_map_other: "filter (\<lambda>l. g l \<noteq> k) (map (\<lambda>l. if g l = k then f l else l) xs) = filter (\<lambda>l. g l \<noteq> k) xs"
  if "\<And>l. g (f l) = g l"
  using that by (induction xs) auto

lemma distinct_filter_find:
  assumes "distinct (map g xs)" "List.find (\<lambda>x. g x = k) xs = Some y"
  shows "filter (\<lambda>x. g x = k) xs = [y]"
  using assms
proof (induction xs)
  case (Cons x xs)
  have "filter (\<lambda>z. g z = k) xs = []" if "g x = k"
    using Cons.prems(1) that by (auto simp: filter_empty_conv image_iff)
  with Cons show ?case by auto
qed simp

lemma filter_singleton:
  assumes "filter P xs = [y]" "x \<in> set xs" "P x"
  shows "x = y"
proof -
  have "x \<in> set (filter P xs)" using assms(2,3) by simp
  then show ?thesis using assms(1) by simp
qed

definition same_code :: "(string \<Rightarrow> u8 list) \<Rightarrow> string \<Rightarrow> tables \<Rightarrow> linking_code list" where
  "same_code sha code db = filter (\<lambda>l. l_device_code l = sha256_hex sha code) (device_linking_codes db)"

section \<open>Codes that are redeemed once\<close>

fun attempts :: "('a \<Rightarrow> tables \<Rightarrow> (AuthError + 'r) \<times> tables) \<Rightarrow> 'a list \<Rightarrow> tables \<Rightarrow> (AuthError + 'r) list" where
  "attempts redeem [] db = []"
| "attempts redeem (a # as) db = (let (r, db') = redeem a db in r # attempts redeem as db')"

text \<open>The contract of an operation that redeems a code.\<close>

locale single_use =
  fixes redeem :: "'a \<Rightarrow> tables \<Rightarrow> (AuthError + 'r) \<times> tables"
    and ok :: "tables \<Rightarrow> bool"
  assumes keeps: "ok db \<Longrightarrow> ok (snd (redeem a db))"
    and spent: "ok db \<Longrightarrow> redeem a db = (Inr r, db') \<Longrightarrow> \<exists>e. redeem b db' = (Inl e, db')"
begin

lemma refused_all:
  "(\<And>b. \<exists>e. redeem b db = (Inl e, db)) \<Longrightarrow> filter (\<lambda>r. \<not> isl r) (attempts redeem as db) = []"
proof (induction as)
  case (Cons a as)
  obtain e where "redeem a db = (Inl e, db)" using Cons.prems by blast
  then show ?case using Cons by simp
qed simp

lemma at_most_one: "ok db \<Longrightarrow> length (filter (\<lambda>r. \<not> isl r) (attempts redeem as db)) \<le> 1"
proof (induction as arbitrary: db)
  case (Cons a as)
  obtain r db' where r: "redeem a db = (r, db')" by (cases "redeem a db")
  show ?case
  proof (cases r)
    case (Inl e)
    moreover have "ok db'" using keeps [OF Cons.prems, of a] r by simp
    ultimately show ?thesis using Cons.IH r by simp
  next
    case (Inr x)
    then show ?thesis using r refused_all [of db' as] spent [OF Cons.prems, of a x db'] by simp
  qed
qed simp

end

subsection \<open>What happens to the rows of linking codes\<close>

definition decision :: "linking_code \<Rightarrow> bool \<times> uuid option \<times> bool \<times> uuid option" where
  "decision l = (l_is_approved l, l_approved_by_user_id l, l_is_denied l, l_denied_by_user_id l)"

definition row_keeps :: "linking_code \<Rightarrow> linking_code \<Rightarrow> bool" where
  "row_keeps l l' \<longleftrightarrow> l_id l' = l_id l \<and> l_user_code l' = l_user_code l \<and> l_device_code l' = l_device_code l
     \<and> l_expires_at l' = l_expires_at l \<and> (l_is_approved l \<or> l_is_denied l \<longrightarrow> decision l' = decision l)"

definition codes_keep :: "linking_code list \<Rightarrow> linking_code list \<Rightarrow> bool" where
  "codes_keep ls ls' \<longleftrightarrow> (\<exists>P g. ls' = map g (filter P ls) \<and> (\<forall>l \<in> set ls. row_keeps l (g l)))"

lemma row_keeps_refl [simp]: "row_keeps l l"
  by (simp add: row_keeps_def)

lemma codes_keep_refl [simp]: "codes_keep ls ls"
  unfolding codes_keep_def by (intro exI [of _ "\<lambda>_. True"] exI [of _ id]) simp

lemma codes_keep_filter [simp]: "codes_keep ls (filter P ls)"
  unfolding codes_keep_def by (intro exI [of _ P] exI [of _ id]) simp

lemma codes_keep_update:
  "(\<And>l. l \<in> set ls \<Longrightarrow> p l \<Longrightarrow> row_keeps l (f l)) \<Longrightarrow> codes_keep ls (update_where p f ls)"
  unfolding codes_keep_def update_where_def
  by (intro exI [of _ "\<lambda>_. True"] exI [of _ "\<lambda>l. if p l then f l else l"]) simp

lemma codes_keep_distinct:
  assumes "codes_keep ls ls'"
  shows "distinct (map l_id ls) \<Longrightarrow> distinct (map l_id ls')"
    and "distinct (map l_device_code ls) \<Longrightarrow> distinct (map l_device_code ls')"
    and "distinct (map l_user_code ls) \<Longrightarrow> distinct (map l_user_code ls')"
proof -
  from assms obtain P g where g: "ls' = map g (filter P ls)" "\<forall>l \<in> set ls. row_keeps l (g l)"
    unfolding codes_keep_def by blast
  then have "map l_id ls' = map l_id (filter P ls)" "map l_device_code ls' = map l_device_code (filter P ls)"
      "map l_user_code ls' = map l_user_code (filter P ls)"
    by (simp_all add: row_keeps_def)
  then show "distinct (map l_id ls) \<Longrightarrow> distinct (map l_id ls')"
      "distinct (map l_device_code ls) \<Longrightarrow> distinct (map l_device_code ls')"
      "distinct (map l_user_code ls) \<Longrightarrow> distinct (map l_user_code ls')"
    by (simp_all add: distinct_map_filter)
qed

lemma codes_keep_row:
  assumes "codes_keep ls ls'" "distinct (map l_id ls)" "l \<in> set ls" "l' \<in> set ls'" "l_id l' = l_id l"
  shows "row_keeps l l'"
proof -
  from assms obtain k where k: "k \<in> set ls" "row_keeps k l'" unfolding codes_keep_def by auto
  then have "l_id k = l_id l" using assms(5) by (simp add: row_keeps_def)
  then have "k = l" using assms(2,3) k(1) by (metis distinct_map inj_onD)
  then show ?thesis using k(2) by simp
qed

lemma link_session_codes:
  assumes "link_session sha config sql g row (update_linking (l_id row) f db) = Inr (x, db')" and "\<And>l. l_id (f l) = l_id l"
  shows "device_linking_codes db' = filter (\<lambda>l. l_id l \<noteq> l_id row) (device_linking_codes db)"
proof -
  obtain token uid where "x = (token, uid)" by (cases x)
  from link_session_Inr [OF assms(1) [unfolded this]] obtain s db1 where
      "adds_session (update_linking (l_id row) f db) s db1" "db' = delete_linking (l_id row) db1" by blast
  then show ?thesis
    by (simp add: adds_session_fields delete_linking_def update_linking_def update_where_def filter_map_other assms(2))
qed

lemma poll_codes:
  "codes_keep (device_linking_codes db) (device_linking_codes (snd (poll_device_linking_token sha config now now2 sql g code db)))"
proof (cases "List.find (\<lambda>l. l_device_code l = sha256_hex sha code) (device_linking_codes db)")
  case None
  then show ?thesis by (simp add: poll_device_linking_token_def)
next
  case (Some row)
  have upd: "codes_keep (device_linking_codes db) (device_linking_codes (update_linking (l_id row) f db))"
    if "\<And>l. row_keeps l (f l)" for f
    using that by (simp add: update_linking_def codes_keep_update)
  have link: "codes_keep (device_linking_codes db) (device_linking_codes db2)"
    if "link_session sha config sql g row (update_linking (l_id row) (\<lambda>l. l\<lparr>l_last_polled_at := Some sql\<rparr>) db) = Inr (x, db2)" for x db2
    using link_session_codes [OF that] by simp
  show ?thesis
    using upd [of "\<lambda>l. l\<lparr>l_last_polled_at := Some sql\<rparr>"]
      upd [of "\<lambda>l. l\<lparr>l_last_polled_at := Some sql, l_poll_interval_seconds := n\<rparr>" for n] link
    by (auto simp: Some poll_device_linking_token_def Let_def delete_linking_def row_keeps_def decision_def split: sum.splits)
qed

lemma get_request_codes:
  "codes_keep (device_linking_codes db) (device_linking_codes (snd (get_device_linking_request now user_code db)))"
  by (simp add: get_device_linking_request_def delete_linking_def split: option.splits)

lemma verify_codes:
  assumes "distinct (map l_id (device_linking_codes db))"
  shows "codes_keep (device_linking_codes db) (device_linking_codes (snd (verify_device_linking_code now uid user_code approve db)))"
proof (cases "List.find (\<lambda>l. l_user_code l = normalize_device_user_code user_code) (device_linking_codes db)")
  case (Some row)
  note r = find_Some_set [OF Some]
  have "codes_keep (device_linking_codes db) (device_linking_codes (update_linking (l_id row) (decide_linking approve uid) db))"
    if "\<not> (l_is_approved row \<or> l_is_denied row)"
    unfolding update_linking_codes
  proof (rule codes_keep_update)
    fix l assume "l \<in> set (device_linking_codes db)" "l_id l = l_id row"
    then have "l = row" using assms r by (metis distinct_map inj_onD)
    then show "row_keeps l (decide_linking approve uid l)" using that by (simp add: row_keeps_def decide_linking_def)
  qed
  then show ?thesis by (auto simp: verify_device_linking_code_def Some delete_linking_def)
qed (simp add: verify_device_linking_code_def)

lemma poll_spent:
  assumes "distinct (map l_device_code (device_linking_codes db))"
    and "poll_device_linking_token sha config now now2 sql g code db = (Inr x, db')"
  shows "poll_device_linking_token sha config' now' now2' sql' g' code db' = (Inl A_DeviceLinkingExpired, db')"
proof -
  from assms(2) obtain row where row: "List.find (\<lambda>l. l_device_code l = sha256_hex sha code) (device_linking_codes db) = Some row"
    by (auto simp: poll_device_linking_token_def split: option.splits)
  with assms(2) have "link_session sha config sql g row (update_linking (l_id row) (\<lambda>l. l\<lparr>l_last_polled_at := Some sql\<rparr>) db) = Inr (x, db')"
    by (auto simp: poll_device_linking_token_def Let_def split: if_splits sum.splits)
  then have codes: "device_linking_codes db' = filter (\<lambda>l. l_id l \<noteq> l_id row) (device_linking_codes db)"
    by (rule link_session_codes) simp
  have "List.find (\<lambda>l. l_device_code l = sha256_hex sha code) (device_linking_codes db') = None"
    using distinct_filter_find [OF assms(1) row] by (auto simp: codes find_None_iff dest: filter_singleton)
  then show ?thesis by (simp add: poll_device_linking_token_def)
qed

text \<open>
  C6. A device gets a session exactly through an approval, once: when polling succeeds, the code was
  known, unexpired, not denied and approved by the user returned, whose account is active; one
  session of that user has been added, its token validates to that user, no other code is affected,
  and the code is spent: polling it again finds nothing.
\<close>

theorem linked_session_contract:
  assumes "poll_device_linking_token sha config now now2 sql g code db = (Inr (token, uid), db')"
    and "distinct (map l_device_code (device_linking_codes db))"
    and "0 < session_absolute_timeout_days config"
  shows "\<exists>row s u. same_code sha code db = [row] \<and> l_is_approved row \<and> l_approved_by_user_id row = Some uid
      \<and> \<not> l_is_denied row \<and> now \<le> l_expires_at row
      \<and> u_id u = uid \<and> u_status u = ''active'' \<and> u_deleted_at u = None
      \<and> user_sessions db' = user_sessions db @ [s] \<and> s_user_id s = uid
      \<and> (case validate_session sha sql token db' of Inl _ \<Rightarrow> False | Inr v \<Rightarrow> w_session v = s \<and> w_user v = u)
      \<and> device_linking_codes db' = filter (\<lambda>l. l_id l \<noteq> l_id row) (device_linking_codes db)
      \<and> poll_device_linking_token sha config' now' now2' sql' g' code db' = (Inl A_DeviceLinkingExpired, db')"
proof -
  from assms(1) obtain row where row: "List.find (\<lambda>l. l_device_code l = sha256_hex sha code) (device_linking_codes db) = Some row"
    by (auto simp: poll_device_linking_token_def split: option.splits)
  let ?db1 = "update_linking (l_id row) (\<lambda>l. l\<lparr>l_last_polled_at := Some sql\<rparr>) db"
  from assms(1) row have c: "now \<le> l_expires_at row" "\<not> l_is_denied row" "l_is_approved row"
    and ls: "link_session sha config sql g row ?db1 = Inr ((token, uid), db')"
    by (auto simp: poll_device_linking_token_def Let_def split: if_splits sum.splits)
  from link_session_Inr [OF ls] obtain s u db2 where l: "l_approved_by_user_id row = Some uid"
      "adds_session ?db1 s db2" "db' = delete_linking (l_id row) db2" "token = g_token g" "s_user_id s = uid"
      "s_token_hash s = sha256_hex sha token" "s_expires_at s = sql + seconds (86400 * session_absolute_timeout_days config)"
      "List.find (\<lambda>u. u_id u = uid \<and> u_deleted_at u = None \<and> u_status u = ''active'') (users ?db1) = Some u"
    by blast
  note f = adds_session_fields [OF l(2)]
  have "sql < s_expires_at s" using assms(3) by (simp add: l(7) seconds_def)
  then have v: "\<exists>v. validate_session sha sql token db' = Inr v \<and> w_session v = s \<and> w_user v = u"
    by (rule validate_added [OF l(2,6)]) (use l(3,5,8) in simp_all)
  have codes: "device_linking_codes db' = filter (\<lambda>l. l_id l \<noteq> l_id row) (device_linking_codes db)"
    by (rule link_session_codes [OF ls]) simp
  have single: "same_code sha code db = [row]"
    using distinct_filter_find [OF assms(2) row] by (simp add: same_code_def)
  have "poll_device_linking_token sha config' now' now2' sql' g' code db' = (Inl A_DeviceLinkingExpired, db')"
    by (rule poll_spent [OF assms(2,1)])
  moreover have "u_id u = uid \<and> u_status u = ''active'' \<and> u_deleted_at u = None" using l(8) by (auto dest: find_Some_set)
  ultimately show ?thesis using single c l(1,5) f(2) v codes l(3) by auto
qed

interpretation linking: single_use
  "\<lambda>(config, now, now2, sql, g). poll_device_linking_token sha config now now2 sql g code"
  "\<lambda>db. distinct (map l_device_code (device_linking_codes db))" for sha code
  by unfold_locales (auto simp: codes_keep_distinct(2) [OF poll_codes] dest: poll_spent)

section \<open>Signing in again\<close>

lemma reauth_run:
  assumes "authenticate_reauth_code env code device db = (Inr u, db')"
  shows "\<exists>row s db1. List.find (\<lambda>r. r_code_hash r = sha256_hex (e_sha env) code) (reauth_codes db) = Some row
    \<and> \<not> r_is_used row \<and> e_now env \<le> r_expires_at row \<and> adds_session db s db1 \<and> s_user_id s = r_user_id row
    \<and> db' = snd (reauth_used (r_id row) (s_id s) db1)"
proof -
  from assms obtain row where row: "List.find (\<lambda>r. r_code_hash r = sha256_hex (e_sha env) code) (reauth_codes db) = Some row"
      "\<not> r_is_used row" "e_now env \<le> r_expires_at row"
      and run: "run_task env (T_Reauth_User (r_id row) (r_user_id row) device) db = (Inr u, db')"
    by (auto simp: authenticate_reauth_code_def reauth_check_def split: option.splits if_splits)
  from run have "run_task env (T_Reauth_Session (r_id row) (r_user_id row) device) db = (Inr u, db')"
    by (subst (asm) run_task.simps) (auto simp: reauth_user_def split: option.splits if_splits)
  then obtain t s db1 where c: "create_session (e_sha env) (e_config env) (e_sql env) (e_fresh env) (r_user_id row) device db = Inr ((t, s), db1)"
      and "run_task env (T_Reauth_Used (r_id row) (s_id s)) db1 = (Inr u, db')"
    by (subst (asm) run_task.simps) (auto simp: reauth_session_def split: sum.splits)
  then have "db' = snd (reauth_used (r_id row) (s_id s) db1)"
    by (subst (asm) run_task.simps) (simp add: reauth_used_def)
  then show ?thesis using row create_session_Inr [OF c] by blast
qed

lemma reauth_spent:
  assumes "authenticate_reauth_code (env\<lparr>e_sha := sha\<rparr>) code device db = (Inr u, db')"
  shows "authenticate_reauth_code (env'\<lparr>e_sha := sha\<rparr>) code device' db' = (Inl A_ReauthCodeInvalid, db')"
proof -
  from reauth_run [OF assms] obtain row s db1 where
      row: "List.find (\<lambda>r. r_code_hash r = sha256_hex sha code) (reauth_codes db) = Some row"
      and a: "adds_session db s db1" and db': "db' = snd (reauth_used (r_id row) (s_id s) db1)" by auto
  have "reauth_codes db' = update_where (\<lambda>r. r_id r = r_id row) (\<lambda>r. r\<lparr>r_is_used := True, r_resulting_session_id := Some (s_id s)\<rparr>) (reauth_codes db)"
    by (simp add: db' reauth_used_def adds_session_fields [OF a])
  then have "List.find (\<lambda>r. r_code_hash r = sha256_hex sha code) (reauth_codes db')
      = Some (row\<lparr>r_is_used := True, r_resulting_session_id := Some (s_id s)\<rparr>)"
    by (simp add: find_update_where row)
  then show ?thesis by (simp add: authenticate_reauth_code_def reauth_check_def)
qed

interpretation reauth: single_use
  "\<lambda>(env, device). authenticate_reauth_code (env\<lparr>e_sha := sha\<rparr>) code device" "\<lambda>_. True" for sha code
  by unfold_locales (auto dest: reauth_spent)

text \<open>
  C31. One after the other, a code is redeemed at most once: of any sequence of polls of a device code,
  whatever the clock, configuration and generated values, and of any sequence of sign-ins with one
  code for signing in again, at most one succeeds.
\<close>

theorem codes_redeemed_once:
  assumes "distinct (map l_device_code (device_linking_codes db))"
  shows "length (filter (\<lambda>r. \<not> isl r) (attempts (\<lambda>(config, now, now2, sql, g).
        poll_device_linking_token sha config now now2 sql g code) polls db)) \<le> 1
    \<and> length (filter (\<lambda>r. \<not> isl r) (attempts (\<lambda>(env, device).
        authenticate_reauth_code (env\<lparr>e_sha := sha\<rparr>) code' device) sign_ins db')) \<le> 1"
  using linking.at_most_one [OF assms] reauth.at_most_one [OF TrueI] by blast

section \<open>A linked device\<close>

definition toy_sha :: "string \<Rightarrow> u8 list" where
  "toy_sha s = map (\<lambda>c. word_of_nat (of_char c)) s"

definition sample_config :: auth_config where
  "sample_config = \<lparr>session_absolute_timeout_days = 90, session_idle_timeout_hours = Some 24,
     device_linking_code_expiry_seconds = 900, device_linking_poll_interval_seconds = 5,
     reauth_code_expiry_hours = 24, reauth_max_requests_per_user_per_day = 3\<rparr>"

definition sample_user :: user where
  "sample_user = \<lparr>u_id = 1, u_username = ''anna'', u_display_name = ''Anna'', u_email = Some ''a@x'', u_password_hash = None,
     u_role = ''member'', u_status = ''active'', u_deleted_at = None, u_has_all_library_access = True,
     u_failed_login_attempts = 0, u_locked_until = None\<rparr>"

definition sample_fresh :: "nat \<Rightarrow> fresh" where
  "sample_fresh n = \<lparr>g_token = ''t'' @ show_nat n, g_session = word_of_nat (100 + n), g_profile = word_of_nat (200 + n)\<rparr>"

definition sample_env :: "nat \<Rightarrow> auth_env" where
  "sample_env n = \<lparr>e_sha = toy_sha, e_config = sample_config, e_now = 0, e_sql = 0, e_fresh = sample_fresh n,
     e_user = word_of_nat (300 + n), e_username = ''user_'' @ show_nat n, e_row = word_of_nat (400 + n)\<rparr>"

definition one_user :: tables where
  "one_user = no_tables\<lparr>users := [sample_user]\<rparr>"

definition linked_codes :: tables where
  "linked_codes = snd (verify_device_linking_code 0 1 ''bc-df'' True
     (snd (create_device_linking_code toy_sha sample_config 0 50 ''BCDF'' ''secret'' no_device one_user)))"

lemma linked_poll:
  "fst (poll_device_linking_token toy_sha sample_config 0 0 0 (sample_fresh 1) ''secret'' linked_codes) = Inr (''t1'', 1)"
  by code_simp

lemma linked_distinct: "distinct (map l_device_code (device_linking_codes linked_codes))"
  by code_simp

theorem linked_session_contract_witness:
  "\<exists>db' s. poll_device_linking_token toy_sha sample_config 0 0 0 (sample_fresh 1) ''secret'' linked_codes = (Inr (''t1'', 1), db')
     \<and> user_sessions db' = user_sessions linked_codes @ [s] \<and> s_user_id s = 1"
proof -
  define db' where "db' = snd (poll_device_linking_token toy_sha sample_config 0 0 0 (sample_fresh 1) ''secret'' linked_codes)"
  then have p: "poll_device_linking_token toy_sha sample_config 0 0 0 (sample_fresh 1) ''secret'' linked_codes = (Inr (''t1'', 1), db')"
    using linked_poll by (metis prod.collapse)
  have "0 < session_absolute_timeout_days sample_config" by code_simp
  from linked_session_contract [OF p linked_distinct this, of sample_config 0 0 0 "sample_fresh 2"] p show ?thesis by blast
qed

definition two_polls :: "(auth_config \<times> instant \<times> instant \<times> instant \<times> fresh) list" where
  "two_polls = [(sample_config, 0, 0, 0, sample_fresh 1), (sample_config, seconds 6, seconds 6, seconds 6, sample_fresh 2)]"

theorem codes_redeemed_once_witness:
  "map isl (attempts (\<lambda>(config, now, now2, sql, g). poll_device_linking_token toy_sha config now now2 sql g ''secret'') two_polls linked_codes)
     = [False, True]
   \<and> length (filter (\<lambda>r. \<not> isl r) (attempts (\<lambda>(config, now, now2, sql, g).
        poll_device_linking_token toy_sha config now now2 sql g ''secret'') two_polls linked_codes)) \<le> 1"
proof -
  have "map isl (attempts (\<lambda>(config, now, now2, sql, g). poll_device_linking_token toy_sha config now now2 sql g ''secret'') two_polls linked_codes)
     = [False, True]" by code_simp
  moreover note codes_redeemed_once [OF linked_distinct, of toy_sha "''secret''" two_polls "''c''" "[]" linked_codes]
  ultimately show ?thesis by simp
qed

definition two_sessions :: tables where
  "two_sessions = (case create_session toy_sha sample_config 0 (sample_fresh 1) 1 no_device one_user of
     Inl _ \<Rightarrow> one_user
   | Inr (_, db) \<Rightarrow> (case create_session toy_sha sample_config 0 (sample_fresh 2) 1 no_device db of Inl _ \<Rightarrow> db | Inr (_, db') \<Rightarrow> db'))"

theorem revocation_contract_witness:
  "validate_session toy_sha 0 ''t1'' (snd (revoke_session 101 1 two_sessions)) = Inl A_SessionExpired
   \<and> \<not> isl (validate_session toy_sha 0 ''t2'' (snd (revoke_session 101 1 two_sessions)))
   \<and> validate_session toy_sha 0 ''t2'' (snd (revoke_all_sessions 1 two_sessions)) = Inl A_SessionExpired"
proof -
  let ?s = "user_sessions two_sessions ! 0" and ?o = "user_sessions two_sessions ! 1"
  have m: "?s \<in> set (user_sessions two_sessions)" "?o \<in> set (user_sessions two_sessions)" by code_simp+
  have d: "distinct (map s_token_hash (user_sessions two_sessions))" "distinct (map s_id (user_sessions two_sessions))" by code_simp+
  have t: "s_token_hash ?s = sha256_hex toy_sha ''t1''" "s_token_hash ?o = sha256_hex toy_sha ''t2''" by code_simp+
  have f: "s_id ?s = 101" "s_user_id ?s = 1" "s_user_id ?o = 1" "?s \<noteq> ?o" by code_simp+
  have v: "\<not> isl (validate_session toy_sha 0 ''t2'' two_sessions)" by code_simp
  show ?thesis using revocation_contract [OF m(1) d t(1) m(2) t(2), of 0] f v by simp
qed

theorem long_name_blocks_setup_witness:
  "fst (run_setup (sample_env 1) id ''anna'' (replicate 90 CHR ''x'') None no_tables) = Inl A_Database
   \<and> fst (run_setup (sample_env 2) id ''anna'' ''Anna'' None (snd (run_setup (sample_env 1) id ''anna'' (replicate 90 CHR ''x'') None no_tables)))
       = Inl A_SetupAlreadyComplete"
proof -
  have "setup_check id ''anna'' (replicate 90 CHR ''x'') None no_tables
      = Inr (T_Setup_User ''anna'' (replicate 90 CHR ''x'') None)"
    by code_simp
  moreover have "\<not> profile_name_ok (replicate 90 CHR ''x'')" by code_simp
  moreover have "user_profiles no_tables = []" by (simp add: no_tables_def)
  ultimately show ?thesis
    using long_name_blocks_setup [of id "''anna''" "replicate 90 CHR ''x''" None no_tables _ _ "sample_env 1", OF _ _ _ refl] by simp
qed

end
