(* ===== verification/Auth_Flow.thy ===== *)
theory Auth_Flow
  imports Auth_Props
begin

text \<open>
  Requests of several clients at once: the operations of \<open>Auth\<close> and \<open>Auth_Codes\<close> as a step relation
  in which transactions are atomic and all other requests interleave between their statements. What
  holds in every interleaving, and runs in which a code is redeemed more often than it should be.
\<close>

section \<open>Requests that interleave\<close>

record auth_world =
  w_db :: tables
  w_tasks :: "auth_task list"

text \<open>The operations that are one transaction.\<close>

inductive call_step :: "(string \<Rightarrow> u8 list) \<Rightarrow> tables \<Rightarrow> tables \<Rightarrow> bool" for sha where
  create_linking: "call_step sha db (snd (create_device_linking_code sha config sql lid user_code device_code device db))"
| poll: "call_step sha db (snd (poll_device_linking_token sha config now now2 sql g code db))"
| get_request: "call_step sha db (snd (get_device_linking_request now user_code db))"
| verify: "call_step sha db (snd (verify_device_linking_code now uid user_code approve db))"
| login: "call_step sha db (snd (auth_login sha pbkdf2_verify config now sql g up username password device db))"
| request: "call_step sha db (snd (from_request_parts sha config now sql written token db))"
| revoke: "call_step sha db (snd (revoke_session sid uid db))"
| revoke_all: "call_step sha db (snd (revoke_all_sessions uid db))"
| capabilities: "call_step sha db (snd (update_capabilities collate uid overrides role db))"
| create_invitation: "call_step sha db (snd (create_invitation sha code params db))"
| revoke_invitation: "call_step sha db (snd (revoke_invitation iid db))"
| resend_invitation: "call_step sha db (snd (resend_invitation sha code iid db))"

text \<open>
  Requests of several statements start, advance by one statement, or end after a database error;
  all of them interleave.
\<close>

inductive auth_step :: "(string \<Rightarrow> u8 list) \<Rightarrow> auth_world \<Rightarrow> auth_world \<Rightarrow> bool" for sha where
  start_setup: "setup_check hash username display_name password (w_db w) = Inr t
    \<Longrightarrow> auth_step sha w (w\<lparr>w_tasks := t # w_tasks w\<rparr>)"
| start_invite: "invite_check sha now code device (w_db w) = Inr t \<Longrightarrow> auth_step sha w (w\<lparr>w_tasks := t # w_tasks w\<rparr>)"
| start_reauth: "reauth_check sha now code device (w_db w) = Inr t \<Longrightarrow> auth_step sha w (w\<lparr>w_tasks := t # w_tasks w\<rparr>)"
| start_create_reauth: "create_reauth_check config sql uid requested_by code (w_db w) = Inr t
    \<Longrightarrow> auth_step sha w (w\<lparr>w_tasks := t # w_tasks w\<rparr>)"
| advance: "t \<in> set (w_tasks w) \<Longrightarrow> advance env t (w_db w) = (r, db') \<Longrightarrow> e_sha env = sha
    \<Longrightarrow> auth_step sha w \<lparr>w_db = db', w_tasks = (case r of Inr (Some t') \<Rightarrow> [t'] | _ \<Rightarrow> []) @ remove1 t (w_tasks w)\<rparr>"
| abandon: "t \<in> set (w_tasks w) \<Longrightarrow> auth_step sha w (w\<lparr>w_tasks := remove1 t (w_tasks w)\<rparr>)"
| call: "call_step sha (w_db w) db' \<Longrightarrow> auth_step sha w (w\<lparr>w_db := db'\<rparr>)"

inductive_cases call_step_cases: "call_step sha db db'"

subsection \<open>Requests end\<close>




subsection \<open>Sessions belong to their users\<close>

definition session_ok :: "tables \<Rightarrow> UserSession \<Rightarrow> bool" where
  "session_ok db s \<longleftrightarrow> s_user_id s \<in> u_id ` set (users db)
     \<and> (\<exists>pid. s_active_profile_id s = Some pid \<and> owns_profile (s_user_id s) pid db)"

definition tables_ok :: "tables \<Rightarrow> bool" where
  "tables_ok db \<longleftrightarrow> distinct (map s_token_hash (user_sessions db)) \<and> distinct (map s_id (user_sessions db))
     \<and> distinct (map p_id (user_profiles db)) \<and> distinct (map u_id (users db))
     \<and> (\<forall>s \<in> set (user_sessions db). session_ok db s)"

fun task_ok :: "tables \<Rightarrow> auth_task \<Rightarrow> bool" where
  "task_ok db (T_Setup_Flag uid pid) = owns_profile uid pid db"
| "task_ok db (T_Setup_Session uid pid) = owns_profile uid pid db"
| "task_ok db _ = True"

text \<open>Tables of which users and profiles have at most grown, and sessions gone or kept.\<close>

definition keeps_accounts :: "tables \<Rightarrow> tables \<Rightarrow> bool" where
  "keeps_accounts db db' \<longleftrightarrow> set (user_profiles db) \<subseteq> set (user_profiles db') \<and> (tables_ok db \<longrightarrow> tables_ok db')"

lemma task_ok_more: "task_ok db t \<Longrightarrow> set (user_profiles db) \<subseteq> set (user_profiles db') \<Longrightarrow> task_ok db' t"
  by (cases "(db, t)" rule: task_ok.cases) (auto intro: owns_profile_more)

lemma session_ok_more:
  "session_ok db s \<Longrightarrow> set (user_profiles db) \<subseteq> set (user_profiles db') \<Longrightarrow> u_id ` set (users db) \<subseteq> u_id ` set (users db')
     \<Longrightarrow> session_ok db' s"
  unfolding session_ok_def by (blast intro: owns_profile_more)

lemma keeps_accounts_same:
  assumes "users db' = users db" "user_profiles db' = user_profiles db" "user_sessions db' = user_sessions db"
  shows "keeps_accounts db db'"
  using assms by (simp add: keeps_accounts_def tables_ok_def session_ok_def owns_profile_def)

lemma keeps_accounts_filter:
  assumes "users db' = users db" "user_profiles db' = user_profiles db" "user_sessions db' = filter P (user_sessions db)"
  shows "keeps_accounts db db'"
  using assms by (auto simp: keeps_accounts_def tables_ok_def session_ok_def owns_profile_def distinct_map_filter)

lemma keeps_accounts_trans: "keeps_accounts a b \<Longrightarrow> keeps_accounts b c \<Longrightarrow> keeps_accounts a c"
  by (auto simp: keeps_accounts_def)

lemma keeps_accounts_session:
  assumes "adds_session db s db'"
  shows "keeps_accounts db db'"
proof -
  have p: "set (user_profiles db) \<subseteq> set (user_profiles db')" using assms by (auto simp: adds_session_def more_profiles_def)
  have "session_ok db' s" using assms by (auto simp: adds_session_def session_ok_def)
  moreover have "tables_ok db \<Longrightarrow> \<forall>x \<in> set (user_sessions db). session_ok db' x"
    using p adds_session_fields(1) [OF assms] by (auto simp: tables_ok_def intro: session_ok_more)
  ultimately have "tables_ok db \<longrightarrow> tables_ok db'"
    using assms adds_session_fields [OF assms] by (auto simp: tables_ok_def adds_session_def more_profiles_def)
  then show ?thesis using p by (simp add: keeps_accounts_def)
qed

lemma keeps_accounts_update_sessions:
  assumes "\<And>s. s_token_hash (f s) = s_token_hash s \<and> s_id (f s) = s_id s \<and> s_user_id (f s) = s_user_id s
      \<and> s_active_profile_id (f s) = s_active_profile_id s"
  shows "keeps_accounts db (db\<lparr>user_sessions := update_where p f (user_sessions db)\<rparr>)"
  using assms by (auto simp: keeps_accounts_def tables_ok_def session_ok_def owns_profile_def set_update_where)

lemma keeps_accounts_poll: "keeps_accounts db (snd (poll_device_linking_token sha config now now2 sql g code db))"
proof -
  have upd: "keeps_accounts db (update_linking i f db)" "keeps_accounts db (delete_linking i db)" for i f db
    by (rule keeps_accounts_same; simp)+
  have link: "keeps_accounts db db'" if "link_session sha config sql g row (update_linking i f db) = Inr (x, db')" for row i f x db'
  proof -
    obtain token uid where "x = (token, uid)" by (cases x)
    from link_session_Inr [OF that [unfolded this]] obtain s db1 where
        "adds_session (update_linking i f db) s db1" "db' = delete_linking (l_id row) db1" by blast
    then show ?thesis using upd keeps_accounts_session keeps_accounts_trans by metis
  qed
  have refl: "keeps_accounts db db" by (rule keeps_accounts_same) simp_all
  show ?thesis
    by (auto simp: poll_device_linking_token_def Let_def upd refl split: option.splits sum.splits dest: link)
qed

lemma keeps_accounts_users:
  assumes "user_profiles db' = user_profiles db" "user_sessions db' = user_sessions db"
    and "u_id ` set (users db) \<subseteq> u_id ` set (users db')" "distinct (map u_id (users db)) \<Longrightarrow> distinct (map u_id (users db'))"
  shows "keeps_accounts db db'"
proof -
  have "session_ok db' s" if "session_ok db s" for s using session_ok_more [OF that _ assms(3)] assms(1) by simp
  then show ?thesis using assms by (auto simp: keeps_accounts_def tables_ok_def)
qed

lemma keeps_accounts_login:
  "keeps_accounts db (snd (auth_login sha pbkdf2_verify config now sql g up username password device db))"
proof -
  have refl: "keeps_accounts db db" by (rule keeps_accounts_same) simp_all
  have "keeps_accounts db db1 \<and> keeps_accounts db (reset_login_failures uid db1)"
    if "create_session sha config sql g uid' device db = Inr ((t, s), db1)" for t s db1 uid uid'
  proof -
    have k: "keeps_accounts db db1" using create_session_Inr [OF that] keeps_accounts_session by blast
    have "keeps_accounts db1 (reset_login_failures uid db1)"
    proof (rule keeps_accounts_users)
      have "map u_id (users (reset_login_failures uid db1)) = map u_id (users db1)" by (simp add: reset_login_failures_def)
      then show "distinct (map u_id (users db1)) \<Longrightarrow> distinct (map u_id (users (reset_login_failures uid db1)))"
          "u_id ` set (users db1) \<subseteq> u_id ` set (users (reset_login_failures uid db1))"
        by (simp, metis list.set_map subset_refl)
    qed (simp_all add: reset_login_failures_def)
    then show ?thesis using k keeps_accounts_trans by blast
  qed
  then show ?thesis by (auto simp: auth_login_def refl split: sum.splits)
qed

lemma insert_overrides_fields:
  "insert_overrides uid ovs db = Inr db' \<Longrightarrow> users db' = users db \<and> user_profiles db' = user_profiles db
     \<and> user_sessions db' = user_sessions db \<and> device_linking_codes db' = device_linking_codes db"
proof (induction ovs arbitrary: db)
  case (Cons ov ovs)
  then obtain db1 where "insert_capability uid ov db = Inr db1" "insert_overrides uid ovs db1 = Inr db'"
    by (auto simp: bind_res_Inr)
  then show ?case using Cons.IH [of db1] by (auto simp: insert_capability_def split: if_splits)
qed simp

lemma keeps_accounts_capabilities: "keeps_accounts db (snd (update_capabilities collate uid overrides role db))"
  by (rule keeps_accounts_same)
    (auto simp: update_capabilities_def dest: insert_overrides_fields split: option.splits sum.splits)

lemma keeps_accounts_call: "call_step sha db db' \<Longrightarrow> keeps_accounts db db'"
proof (induction rule: call_step.induct)
  case poll
  show ?case by (rule keeps_accounts_poll)
next
  case login
  show ?case by (rule keeps_accounts_login)
next
  case capabilities
  show ?case by (rule keeps_accounts_capabilities)
next
  case (request db config now sql written token)
  have refl: "keeps_accounts db db" by (rule keeps_accounts_same) simp_all
  have "keeps_accounts db (db\<lparr>user_sessions := filter P (user_sessions db)\<rparr>)" for P by (rule keeps_accounts_filter) simp_all
  moreover have "keeps_accounts db (db\<lparr>user_sessions := update_where p (\<lambda>s. s\<lparr>s_last_active_at := t\<rparr>) (user_sessions db)\<rparr>)" for p t
    by (rule keeps_accounts_update_sessions) simp
  ultimately show ?case by (auto simp: from_request_parts_def Let_def refl split: sum.splits)
next
  case (revoke db sid uid)
  show ?case
  proof (cases "List.find (\<lambda>s. s_id s = sid \<and> s_user_id s = uid) (user_sessions db)")
    case None
    then show ?thesis by (simp add: revoke_session_def keeps_accounts_same)
  next
    case (Some s)
    then show ?thesis by (intro keeps_accounts_filter [where P = "\<lambda>s. \<not> (s_id s = sid \<and> s_user_id s = uid)"])
        (simp_all add: revoke_session_def Let_def split: option.splits)
  qed
next
  case revoke_all
  show ?case by (rule keeps_accounts_filter) (simp_all add: revoke_all_sessions_def)
qed (rule keeps_accounts_same;
  simp add: create_device_linking_code_def get_device_linking_request_def verify_device_linking_code_def
    create_invitation_def revoke_invitation_def resend_invitation_def Let_def split: option.splits)+

lemma keeps_accounts_refl [simp]: "keeps_accounts db db"
  by (rule keeps_accounts_same) simp_all

lemma insert_user_Inr:
  assumes "insert_user u db = Inr db'"
  shows "keeps_accounts db db'"
  using assms by (intro keeps_accounts_users) (auto simp: insert_user_def split: if_splits)

lemma keeps_accounts_default_profile:
  assumes "ensure_default_profile new uid db = Inr (pid, db')"
  shows "keeps_accounts db db' \<and> owns_profile uid pid db'"
proof -
  note d = ensure_default_profile_Inr [OF assms]
  then obtain ps where e: "db' = db\<lparr>user_profiles := ps\<rparr>" by blast
  have sub: "set (user_profiles db) \<subseteq> set (user_profiles db')" using d by (auto simp: more_profiles_def)
  moreover have "session_ok db' s" if "session_ok db s" for s using session_ok_more [OF that sub] by (simp add: e)
  ultimately show ?thesis using d by (auto simp: keeps_accounts_def tables_ok_def more_profiles_def e)
qed

lemma setup_session_adds:
  assumes "setup_session env uid pid db = (r, db')" "owns_profile uid pid db"
  shows "db' = db \<or> (\<exists>s. adds_session db s db')"
proof (cases "db' = db")
  case False
  then obtain s where s: "db' = db\<lparr>user_sessions := user_sessions db @ [s]\<rparr>" "s_user_id s = uid" "s_active_profile_id s = Some pid"
      "s_token_hash s \<notin> s_token_hash ` set (user_sessions db)" "s_id s \<notin> s_id ` set (user_sessions db)" "uid \<in> u_id ` set (users db)"
    using assms(1) by (auto simp: setup_session_def Let_def split: if_splits)
  have "db' = db\<lparr>user_profiles := user_profiles db, user_sessions := user_sessions db @ [s]\<rparr>" using s(1) by simp
  moreover have "owns_profile uid pid db'" using assms(2) by (simp add: owns_profile_def s(1))
  ultimately have "adds_session db s db'" unfolding adds_session_def using s by fastforce
  then show ?thesis by blast
qed simp

lemma keeps_accounts_created:
  "create_session sha config sql g uid device db = Inr (x, db') \<Longrightarrow> keeps_accounts db db'"
  using create_session_Inr keeps_accounts_session by (metis surj_pair)

lemma keeps_accounts_advance:
  assumes "advance env t db = (r, db')" "task_ok db t"
  shows "keeps_accounts db db' \<and> (case r of Inr (Some t') \<Rightarrow> task_ok db' t' | _ \<Rightarrow> True)"
proof (cases "(env, t, db)" rule: advance.cases)
  case (2 env uid db)
  then show ?thesis using assms(1) by (auto simp: setup_profile_def split: sum.splits dest: keeps_accounts_default_profile)
next
  case (3 env uid pid db)
  then show ?thesis using assms by (auto simp: setup_flag_def owns_profile_def intro: keeps_accounts_same)
next
  case (4 env uid pid db)
  then have a: "setup_session env uid pid db = (r, db')" "owns_profile uid pid db" using assms by simp_all
  then have "\<And>t'. r \<noteq> Inr (Some t')" by (auto simp: setup_session_def Let_def split: if_splits)
  then show ?thesis using setup_session_adds [OF a] keeps_accounts_session 4 by (auto split: sum.splits option.splits)
next
  case (6 env uid caps iid device db)
  then show ?thesis using assms(1)
    by (auto simp: invite_cap_def insert_capability_def split: list.splits sum.splits if_splits intro: keeps_accounts_same)
qed (use assms(1) in \<open>auto simp: stage_defs Let_def split: sum.splits if_splits option.splits prod.splits
    intro: keeps_accounts_same dest: insert_user_Inr keeps_accounts_created\<close>)

lemma check_tasks_ok:
  "setup_check hash username display_name password db = Inr t \<Longrightarrow> task_ok db' t"
  "invite_check sha now code device db = Inr t \<Longrightarrow> task_ok db' t"
  "reauth_check sha now code device db = Inr t \<Longrightarrow> task_ok db' t"
  "create_reauth_check config sql uid requested_by code db = Inr t \<Longrightarrow> task_ok db' t"
  by (auto simp: setup_check_def invite_check_def reauth_check_def create_reauth_check_def
      split: if_splits option.splits)

definition world_ok :: "auth_world \<Rightarrow> bool" where
  "world_ok w \<longleftrightarrow> tables_ok (w_db w) \<and> list_all (task_ok (w_db w)) (w_tasks w)"

lemma world_ok_keeps:
  assumes "world_ok w" "keeps_accounts (w_db w) db'" "set ts \<subseteq> set (w_tasks w) \<union> {t. task_ok db' t}"
  shows "world_ok \<lparr>w_db = db', w_tasks = ts\<rparr>"
proof -
  have "task_ok db' t" if "t \<in> set (w_tasks w)" for t
    using assms(1,2) that task_ok_more [of "w_db w" t db'] by (auto simp: world_ok_def list_all_iff keeps_accounts_def)
  then show ?thesis using assms by (auto simp: world_ok_def list_all_iff keeps_accounts_def)
qed

lemma world_ok_step: "auth_step sha v w \<Longrightarrow> world_ok v \<Longrightarrow> world_ok w"
proof (induction rule: auth_step.induct)
  case (advance t w env r db')
  then have "task_ok (w_db w) t" by (auto simp: world_ok_def list_all_iff)
  note k = keeps_accounts_advance [OF advance(2) this]
  show ?case
    using k set_remove1_subset [of t "w_tasks w"] by (intro world_ok_keeps [OF advance(4)]) (auto split: sum.splits option.splits)
next
  case (abandon t w)
  then show ?case using set_remove1_subset [of t "w_tasks w"] by (auto simp: world_ok_def list_all_iff)
next
  case (call w db')
  show ?case using world_ok_keeps [OF call(2) keeps_accounts_call [OF call(1)], of "w_tasks w"] by (simp add: world_ok_def)
qed (auto simp: world_ok_def dest: check_tasks_ok)

text \<open>
  C4. A session always acts for one account: in every interleaving of setup, sign-ins, linking,
  invitations, revocations and failing statements, tokens identify sessions, every session is of an
  existing user, and the profile it acts as is one of that user and of nobody else.
\<close>

theorem sessions_belong_to_users:
  assumes "(auth_step sha)\<^sup>*\<^sup>* \<lparr>w_db = db, w_tasks = []\<rparr> w" and "tables_ok db"
  shows "distinct (map s_token_hash (user_sessions (w_db w)))
    \<and> list_all (\<lambda>s. s_user_id s \<in> u_id ` set (users (w_db w))
        \<and> (case s_active_profile_id s of None \<Rightarrow> False
           | Some pid \<Rightarrow> map p_owner_user_id (filter (\<lambda>p. p_id p = pid) (user_profiles (w_db w))) = [s_user_id s]))
        (user_sessions (w_db w))"
proof -
  from assms(1) have "world_ok w"
    by (induction rule: rtranclp_induct) (use assms(2) world_ok_step in \<open>auto simp: world_ok_def [of "\<lparr>w_db = db, w_tasks = []\<rparr>"]\<close>)
  then have ok: "tables_ok (w_db w)" by (simp add: world_ok_def)
  have "map p_owner_user_id (filter (\<lambda>p. p_id p = pid) (user_profiles (w_db w))) = [uid]" if "owns_profile uid pid (w_db w)" for uid pid
  proof -
    from that obtain q where q: "q \<in> set (user_profiles (w_db w))" "p_id q = pid" "p_owner_user_id q = uid" by (auto simp: owns_profile_def)
    have d: "distinct (map p_id (user_profiles (w_db w)))" using ok by (simp add: tables_ok_def)
    obtain y where y: "List.find (\<lambda>p. p_id p = pid) (user_profiles (w_db w)) = Some y"
      using q by (metis (mono_tags, lifting) find_None_iff option.exhaust)
    have "q = y" using filter_singleton [OF distinct_filter_find [OF d y], of q] q by simp
    then show ?thesis using distinct_filter_find [OF d y] q by simp
  qed
  then show ?thesis using ok by (auto simp: tables_ok_def session_ok_def list_all_iff split: option.splits)
qed

subsection \<open>Decisions on devices are final\<close>

lemma create_session_codes:
  assumes "create_session sha config sql g uid device db = Inr (x, db')"
  shows "device_linking_codes db' = device_linking_codes db"
proof (cases x)
  case (Pair t s)
  then have "adds_session db s db'" using create_session_Inr assms by blast
  then show ?thesis by (rule adds_session_fields)
qed

lemma ensure_default_profile_codes:
  "ensure_default_profile new uid db = Inr (pid, db') \<Longrightarrow> device_linking_codes db' = device_linking_codes db"
  using ensure_default_profile_Inr by fastforce

lemma advance_codes: "advance env t db = (r, db') \<Longrightarrow> device_linking_codes db' = device_linking_codes db"
  by (cases "(env, t, db)" rule: advance.cases)
    (auto simp: stage_defs Let_def insert_user_def insert_capability_def split: sum.splits if_splits option.splits list.splits
      dest: create_session_codes ensure_default_profile_codes)

lemma login_codes:
  "device_linking_codes (snd (auth_login sha pbkdf2_verify config now sql g up username password device db)) = device_linking_codes db"
  by (auto simp: auth_login_def reset_login_failures_def split: sum.splits dest: create_session_codes)

definition codes_follow :: "linking_code list \<Rightarrow> linking_code list \<Rightarrow> bool" where
  "codes_follow ls ls' \<longleftrightarrow> codes_keep ls ls'
     \<or> (\<exists>row. ls' = ls @ [row] \<and> l_id row \<notin> l_id ` set ls \<and> \<not> l_is_approved row \<and> \<not> l_is_denied row)"

lemma call_codes:
  assumes "call_step sha db db'" "distinct (map l_id (device_linking_codes db))"
  shows "codes_follow (device_linking_codes db) (device_linking_codes db')"
  using assms
proof (induction rule: call_step.induct)
  case (create_linking db config sql lid user_code device_code device)
  then show ?case by (auto simp: codes_follow_def create_device_linking_code_def Let_def list_ex_iff)
qed (auto simp: codes_follow_def poll_codes get_request_codes verify_codes login_codes from_request_parts_def revoke_session_def
    revoke_all_sessions_def update_capabilities_def create_invitation_def revoke_invitation_def resend_invitation_def Let_def
    split: sum.splits option.splits dest: insert_overrides_fields)

text \<open>
  A decision on a device is final: no step of any request changes an approval or denial, who gave
  it, or how long the code is valid; a code is undecided when it is created, and after a decision
  all that can happen to it is that it goes.
\<close>

theorem linking_decision_final:
  assumes "auth_step sha v w" "distinct (map l_id (device_linking_codes (w_db v)))"
    and "l \<in> set (device_linking_codes (w_db v))" "l' \<in> set (device_linking_codes (w_db w))" "l_id l' = l_id l"
  shows "l_expires_at l' = l_expires_at l \<and> l_device_code l' = l_device_code l \<and> l_user_code l' = l_user_code l
    \<and> (if l_is_approved l \<or> l_is_denied l then decision l' = decision l else True)"
proof -
  have "codes_follow (device_linking_codes (w_db v)) (device_linking_codes (w_db w))"
    using assms(1,2) by cases (auto simp: codes_follow_def dest: advance_codes call_codes [unfolded codes_follow_def])
  then have "row_keeps l l'"
  proof (cases "codes_keep (device_linking_codes (w_db v)) (device_linking_codes (w_db w))")
    case True
    then show ?thesis using codes_keep_row assms(2-5) by blast
  next
    case False
    then obtain row where "device_linking_codes (w_db w) = device_linking_codes (w_db v) @ [row]" "l_id row \<notin> l_id ` set (device_linking_codes (w_db v))"
      using \<open>codes_follow _ _\<close> by (auto simp: codes_follow_def)
    then have "l' \<in> set (device_linking_codes (w_db v))" using assms(3-5) by auto
    then have "l' = l" using assms(2,3,5) by (metis distinct_map inj_onD)
    then show ?thesis by simp
  qed
  then show ?thesis by (simp add: row_keeps_def)
qed

section \<open>Concrete runs\<close>

datatype action = Reauth string | Invite string | Setup string | Advance nat nat

definition resume :: "auth_env \<Rightarrow> auth_task \<Rightarrow> auth_world \<Rightarrow> auth_world" where
  "resume env t w =
     (let (r, db') = advance env t (w_db w)
      in \<lparr>w_db = db', w_tasks = (case r of Inr (Some t') \<Rightarrow> [t'] | _ \<Rightarrow> []) @ remove1 t (w_tasks w)\<rparr>)"

definition begin_task :: "AuthError + auth_task \<Rightarrow> auth_world \<Rightarrow> auth_world" where
  "begin_task r w = (case r of Inl _ \<Rightarrow> w | Inr t \<Rightarrow> w\<lparr>w_tasks := t # w_tasks w\<rparr>)"

fun perform :: "action \<Rightarrow> auth_world \<Rightarrow> auth_world" where
  "perform (Reauth code) w = begin_task (reauth_check toy_sha 0 code no_device (w_db w)) w"
| "perform (Invite code) w = begin_task (invite_check toy_sha 0 code no_device (w_db w)) w"
| "perform (Setup name) w = begin_task (setup_check id name name None (w_db w)) w"
| "perform (Advance k n) w = (if k < length (w_tasks w) then resume (sample_env n) (w_tasks w ! k) w else w)"

lemma action_steps: "(auth_step toy_sha)\<^sup>*\<^sup>* w (perform a w)"
proof (cases a)
  case (Advance k n)
  have "auth_step toy_sha w (resume (sample_env n) (w_tasks w ! k) w)" if "k < length (w_tasks w)"
  proof -
    obtain r db' where "advance (sample_env n) (w_tasks w ! k) (w_db w) = (r, db')"
      by (cases "advance (sample_env n) (w_tasks w ! k) (w_db w)")
    then show ?thesis using auth_step.advance [of "w_tasks w ! k" w "sample_env n" r db' toy_sha] that
      by (simp add: resume_def sample_env_def)
  qed
  then show ?thesis by (auto simp: Advance)
qed (auto simp: begin_task_def split: sum.splits
  intro: auth_step.start_reauth auth_step.start_invite auth_step.start_setup)

lemma script_steps: "(auth_step toy_sha)\<^sup>*\<^sup>* w (fold perform as w)"
  by (induction as arbitrary: w) (simp, metis fold_simps(2) action_steps rtranclp_trans)

definition reauth_db :: tables where
  "reauth_db = one_user\<lparr>reauth_codes := [\<lparr>r_id = 60, r_user_id = 1, r_requested_by_user_id = 1, r_code_hash = sha256_hex toy_sha ''code'',
     r_code_prefix = ''code'', r_created_at = 0, r_expires_at = 10, r_is_used = False, r_resulting_session_id = None\<rparr>]\<rparr>"

definition reauth_script :: "action list" where
  "reauth_script = [Reauth ''code'', Reauth ''code'', Advance 0 1, Advance 0 1, Advance 1 2, Advance 0 2, Advance 0 2, Advance 0 2]"

definition invitation_row :: invitation where
  "invitation_row = \<lparr>i_id = 70, i_created_by_user_id = 1, i_user_id = Some 1, i_code_hash = sha256_hex toy_sha ''invite'',
     i_code_prefix = ''invi'', i_email = ''b@x'', i_display_name = None, i_role = ''member'', i_capabilities = JArray [],
     i_has_all_library_access = False, i_max_uses = 1, i_use_count = 0, i_expires_at = None, i_is_revoked = False\<rparr>"

definition invite_db :: tables where
  "invite_db = one_user\<lparr>invitations := [invitation_row]\<rparr>"

definition invite_script :: "action list" where
  "invite_script = [Invite ''invite'', Invite ''invite'', Advance 0 1, Advance 1 2, Advance 0 1, Advance 0 2]"

definition setup_script :: "action list" where
  "setup_script = [Setup ''eve'', Setup ''anna'', Advance 0 1, Advance 1 2]"

text \<open>
  C30. At once, codes are redeemed more often than they allow. Requests check a code, and setup checks
  that there is no user, in a statement of its own before the one that spends it, and nothing holds
  between them: two sign-ins with one unused code both end in a valid session; an invitation for one
  use is used twice; and two first setups create two owners.
\<close>

theorem concurrent_requests_exceed_limits:
  "(\<exists>w. (auth_step toy_sha)\<^sup>*\<^sup>* \<lparr>w_db = reauth_db, w_tasks = []\<rparr> w
      \<and> length (reauth_codes reauth_db) = 1 \<and> user_sessions reauth_db = [] \<and> w_tasks w = []
      \<and> length (user_sessions (w_db w)) = 2
      \<and> \<not> isl (validate_session toy_sha 0 ''t1'' (w_db w)) \<and> \<not> isl (validate_session toy_sha 0 ''t2'' (w_db w)))
   \<and> (\<exists>w. (auth_step toy_sha)\<^sup>*\<^sup>* \<lparr>w_db = invite_db, w_tasks = []\<rparr> w
      \<and> map i_max_uses (invitations (w_db w)) = [1] \<and> map i_use_count (invitations (w_db w)) = [2]
      \<and> length (user_sessions (w_db w)) = 2)
   \<and> (\<exists>w. (auth_step toy_sha)\<^sup>*\<^sup>* \<lparr>w_db = no_tables, w_tasks = []\<rparr> w
      \<and> map u_role (users (w_db w)) = [''owner'', ''owner''])"
proof (intro conjI)
  let ?r = "fold perform reauth_script \<lparr>w_db = reauth_db, w_tasks = []\<rparr>"
  have r: "w_tasks ?r = []" "length (user_sessions (w_db ?r)) = 2"
      "\<not> isl (validate_session toy_sha 0 ''t1'' (w_db ?r))" "\<not> isl (validate_session toy_sha 0 ''t2'' (w_db ?r))"
      "length (reauth_codes reauth_db) = 1" "user_sessions reauth_db = []"
    by code_simp+
  show "\<exists>w. (auth_step toy_sha)\<^sup>*\<^sup>* \<lparr>w_db = reauth_db, w_tasks = []\<rparr> w
      \<and> length (reauth_codes reauth_db) = 1 \<and> user_sessions reauth_db = [] \<and> w_tasks w = []
      \<and> length (user_sessions (w_db w)) = 2
      \<and> \<not> isl (validate_session toy_sha 0 ''t1'' (w_db w)) \<and> \<not> isl (validate_session toy_sha 0 ''t2'' (w_db w))"
    by (intro exI [of _ ?r] conjI script_steps r)
  let ?i = "fold perform invite_script \<lparr>w_db = invite_db, w_tasks = []\<rparr>"
  have i: "map i_max_uses (invitations (w_db ?i)) = [1]" "map i_use_count (invitations (w_db ?i)) = [2]"
      "length (user_sessions (w_db ?i)) = 2"
    by code_simp+
  show "\<exists>w. (auth_step toy_sha)\<^sup>*\<^sup>* \<lparr>w_db = invite_db, w_tasks = []\<rparr> w
      \<and> map i_max_uses (invitations (w_db w)) = [1] \<and> map i_use_count (invitations (w_db w)) = [2]
      \<and> length (user_sessions (w_db w)) = 2"
    by (intro exI [of _ ?i] conjI script_steps i)
  let ?s = "fold perform setup_script \<lparr>w_db = no_tables, w_tasks = []\<rparr>"
  have s: "map u_role (users (w_db ?s)) = [''owner'', ''owner'']" by code_simp
  show "\<exists>w. (auth_step toy_sha)\<^sup>*\<^sup>* \<lparr>w_db = no_tables, w_tasks = []\<rparr> w \<and> map u_role (users (w_db w)) = [''owner'', ''owner'']"
    by (intro exI [of _ ?s] conjI script_steps s)
qed

section \<open>An interrupted invitation\<close>





section \<open>Witnesses\<close>

lemma linked_ok: "tables_ok linked_codes"
  by code_simp

definition linked_world :: auth_world where
  "linked_world = \<lparr>w_db = snd (poll_device_linking_token toy_sha sample_config 0 0 0 (sample_fresh 1) ''secret'' linked_codes), w_tasks = []\<rparr>"

theorem sessions_belong_to_users_witness:
  "length (user_sessions (w_db linked_world)) = 1 \<and> distinct (map s_token_hash (user_sessions (w_db linked_world)))"
proof -
  have "auth_step toy_sha \<lparr>w_db = linked_codes, w_tasks = []\<rparr> linked_world"
    using auth_step.call [of toy_sha "\<lparr>w_db = linked_codes, w_tasks = []\<rparr>", OF call_step.poll] by (simp add: linked_world_def)
  then have "(auth_step toy_sha)\<^sup>*\<^sup>* \<lparr>w_db = linked_codes, w_tasks = []\<rparr> linked_world" by blast
  from sessions_belong_to_users [OF this linked_ok] show ?thesis
    using linked_poll by (auto simp: linked_world_def) code_simp
qed

theorem linking_decision_final_witness:
  "decision (hd (device_linking_codes (snd (verify_device_linking_code 0 1 ''BCDF'' False linked_codes)))) = (True, Some 1, False, None)"
proof -
  let ?w = "\<lparr>w_db = snd (verify_device_linking_code 0 1 ''BCDF'' False linked_codes), w_tasks = []\<rparr>"
  have step: "auth_step toy_sha \<lparr>w_db = linked_codes, w_tasks = []\<rparr> ?w"
    using auth_step.call [of toy_sha "\<lparr>w_db = linked_codes, w_tasks = []\<rparr>", OF call_step.verify] by simp
  have "distinct (map l_id (device_linking_codes linked_codes))" by code_simp
  moreover have "hd (device_linking_codes linked_codes) \<in> set (device_linking_codes linked_codes)" by code_simp
  moreover have "hd (device_linking_codes (w_db ?w)) \<in> set (device_linking_codes (w_db ?w))" by code_simp
  moreover have "l_id (hd (device_linking_codes (w_db ?w))) = l_id (hd (device_linking_codes linked_codes))" by code_simp
  moreover have "l_is_approved (hd (device_linking_codes linked_codes))" by code_simp
  moreover have "decision (hd (device_linking_codes linked_codes)) = (True, Some 1, False, None)" by code_simp
  ultimately show ?thesis using linking_decision_final [OF step] by simp
qed


end
