(* ===== verification/Household.thy ===== *)
theory Household
  imports Auth
begin

text \<open>
  domains/household_security: the proof that an account's owner is present, which protects the
  management of profiles. Tables, clocks and digests are as in \<open>Auth\<close>; the rows of profiles and sessions
  have more columns here. The triggers of the migration household_owner_security are part of the
  operations that fire them. Passkeys and their challenges belong to an external library and are left
  out, as is the audit log. A transaction that ends in an error leaves the tables as they are, unless it
  commits first.
\<close>

section \<open>Tables\<close>

datatype OwnerError =
    O_ContextChanged
  | O_Required
  | O_InvalidProof
  | O_Locked
  | O_LastFactor
  | O_InvalidRequest
  | O_Database
  | O_Unavailable

record ProfileRow = profile +
  avatar :: "string option"
  max_content_rating :: string
  allow_search :: bool
  allow_downloads :: bool
  allow_external_links :: bool
  allow_ambient_channels :: bool
  parent_pin_hash :: "string option"
  parent_pin_failed_attempts :: int
  parent_pin_locked_until :: "instant option"

record ProfileSession = UserSession +
  parent_unlock_profile_id :: "uuid option"
  parent_unlock_expires_at :: "instant option"
  profile_context_revision :: int

record owner_state =
  os_user_id :: uuid
  os_enabled :: bool
  os_revision :: int
  os_password_fingerprint :: "string option"
  os_failed_attempts :: int
  os_locked_until :: "instant option"

record owner_grant =
  og_session_id :: uuid
  og_credential_version :: int
  og_user_id :: uuid
  og_profile_id :: uuid
  og_revision :: int
  og_expires_at :: instant

record owner_handoff =
  oh_id :: uuid
  oh_user_id :: uuid
  oh_token_hash :: string
  oh_expires_at :: instant

record media_item =
  mi_id :: uuid
  mi_library_id :: uuid
  mi_content_rating :: "string option"

record AmbientChannelRow =
  ch_id :: uuid
  ch_owner_user_id :: uuid
  ch_name :: string
  ch_description :: "string option"
  ch_audience :: string
  ch_is_enabled :: bool
  ch_updated_at :: instant

record channel_item =
  ci_channel_id :: uuid
  ci_media_item_id :: uuid
  ci_position :: nat

text \<open>Libraries are listed with whether they are deleted, library access as pairs.\<close>

record household =
  h_users :: "user list"
  h_profiles :: "ProfileRow list"
  h_sessions :: "ProfileSession list"
  h_preferences :: "device_preference list"
  h_capabilities :: "capability list"
  h_libraries :: "(uuid \<times> bool) list"
  h_profile_libraries :: "(uuid \<times> uuid) list"
  h_user_libraries :: "(uuid \<times> uuid) list"
  h_media :: "media_item list"
  h_channels :: "AmbientChannelRow list"
  h_channel_items :: "channel_item list"
  h_owner_states :: "owner_state list"
  h_grants :: "owner_grant list"
  h_handoffs :: "owner_handoff list"

text \<open>Who acts, as the session extractor found it; \<open>binding\<close> is the context the client saw.\<close>

record scope =
  sc_version :: int
  sc_user :: uuid
  sc_session :: uuid
  sc_profile :: uuid
  sc_binding :: "string option"

definition find_profile :: "uuid \<Rightarrow> uuid \<Rightarrow> household \<Rightarrow> ProfileRow option" where
  "find_profile owner pid db = List.find (\<lambda>p. p_id p = pid \<and> p_owner_user_id p = owner) (h_profiles db)"

definition find_session :: "uuid \<Rightarrow> uuid \<Rightarrow> household \<Rightarrow> ProfileSession option" where
  "find_session uid sid db = List.find (\<lambda>s. s_id s = sid \<and> s_user_id s = uid) (h_sessions db)"

definition find_state :: "uuid \<Rightarrow> household \<Rightarrow> owner_state option" where
  "find_state uid db = List.find (\<lambda>o'. os_user_id o' = uid) (h_owner_states db)"

definition user_active :: "uuid \<Rightarrow> household \<Rightarrow> bool" where
  "user_active uid db \<longleftrightarrow>
     (case List.find (\<lambda>u. u_id u = uid) (h_users db) of
        None \<Rightarrow> False
      | Some u \<Rightarrow> u_status u = ''active'' \<and> u_deleted_at u = None)"

definition set_state :: "uuid \<Rightarrow> (owner_state \<Rightarrow> owner_state) \<Rightarrow> household \<Rightarrow> household" where
  "set_state uid f db = db\<lparr>h_owner_states := update_where (\<lambda>o'. os_user_id o' = uid) f (h_owner_states db)\<rparr>"

section \<open>Transactions\<close>

definition lock_accounts :: "uuid list \<Rightarrow> household \<Rightarrow> household" where
  "lock_accounts us db =
     db\<lparr>h_owner_states := h_owner_states db
       @ map (\<lambda>uid. \<lparr>os_user_id = uid, os_enabled = False, os_revision = 1, os_password_fingerprint = None,
                      os_failed_attempts = 0, os_locked_until = None\<rparr>)
           (filter (\<lambda>uid. uid \<in> set us \<and> uid \<notin> os_user_id ` set (h_owner_states db)) (map u_id (h_users db)))\<rparr>"

definition begin_owner :: "uuid \<Rightarrow> household \<Rightarrow> OwnerError + household" where
  "begin_owner uid db = (if user_active uid db then Inr (lock_accounts [uid] db) else Inl O_InvalidProof)"

text \<open>
  \<open>context_id\<close> is the digest of user, session, profile, credential version, context revision and
  whether a profile has to be selected.
\<close>

type_synonym digest = "uuid \<Rightarrow> uuid \<Rightarrow> uuid \<Rightarrow> int \<Rightarrow> int \<Rightarrow> bool \<Rightarrow> string"

definition context_read :: "digest \<Rightarrow> instant \<Rightarrow> scope \<Rightarrow> household \<Rightarrow> OwnerError + string" where
  "context_read context_id sql actor db =
     (case find_session (sc_user actor) (sc_session actor) db of
        None \<Rightarrow> Inl O_ContextChanged
      | Some s \<Rightarrow>
          if s_active_profile_id s = Some (sc_profile actor) \<and> s_credential_version s = sc_version actor
            \<and> s_expires_at s > sql \<and> user_active (sc_user actor) db
            \<and> find_profile (sc_user actor) (sc_profile actor) db \<noteq> None
          then Inr (context_id (sc_user actor) (sc_session actor) (sc_profile actor) (s_credential_version s)
                      (profile_context_revision s) (s_profile_selection_required s))
          else Inl O_ContextChanged)"

definition context_check :: "digest \<Rightarrow> instant \<Rightarrow> scope \<Rightarrow> household \<Rightarrow> OwnerError + unit" where
  "context_check context_id sql actor db =
     (case sc_binding actor of
        None \<Rightarrow> Inr ()
      | Some binding \<Rightarrow>
          bind_res (context_read context_id sql actor db) (\<lambda>context.
            if context \<noteq> binding then Inl O_ContextChanged else Inr ()))"

definition session_scope :: "digest \<Rightarrow> instant \<Rightarrow> scope \<Rightarrow> bool \<Rightarrow> household \<Rightarrow> OwnerError + unit" where
  "session_scope context_id sql actor strict db =
     (case find_profile (sc_user actor) (sc_profile actor) db of
        None \<Rightarrow> Inl O_Required
      | Some p \<Rightarrow>
          if strict \<and> p_type p \<noteq> ''standard'' then Inl O_Required
          else (case find_session (sc_user actor) (sc_session actor) db of
              None \<Rightarrow> Inl O_InvalidProof
            | Some s \<Rightarrow>
                if s_active_profile_id s = Some (sc_profile actor) \<and> (\<not> strict \<or> \<not> s_profile_selection_required s)
                  \<and> s_expires_at s > sql \<and> s_credential_version s = sc_version actor
                then context_check context_id sql actor db
                else Inl O_InvalidProof))"

definition unlocked_state :: "instant \<Rightarrow> owner_state \<Rightarrow> bool" where
  "unlocked_state sql o' \<longleftrightarrow> (case os_locked_until o' of None \<Rightarrow> True | Some t \<Rightarrow> t \<le> sql)"

definition grant_valid :: "instant \<Rightarrow> scope \<Rightarrow> owner_state \<Rightarrow> owner_grant \<Rightarrow> bool" where
  "grant_valid sql actor o' g \<longleftrightarrow>
     os_user_id o' = og_user_id g \<and> og_session_id g = sc_session actor \<and> og_user_id g = sc_user actor
     \<and> og_profile_id g = sc_profile actor \<and> og_revision g = os_revision o' \<and> og_credential_version g = sc_version actor
     \<and> os_enabled o' \<and> og_expires_at g > sql \<and> unlocked_state sql o'"

definition require :: "instant \<Rightarrow> scope \<Rightarrow> household \<Rightarrow> OwnerError + unit" where
  "require sql actor db =
     (if list_ex (\<lambda>g. list_ex (\<lambda>o'. grant_valid sql actor o' g) (h_owner_states db)) (h_grants db)
      then Inr () else Inl O_Required)"

definition authorize :: "digest \<Rightarrow> instant \<Rightarrow> uuid \<Rightarrow> scope option \<Rightarrow> household \<Rightarrow> OwnerError + bool" where
  "authorize context_id sql uid actor db =
     (case find_state uid db of
        None \<Rightarrow> Inl O_Database
      | Some o' \<Rightarrow>
          (case actor of
             None \<Rightarrow> if os_enabled o' then Inl O_Required else Inr (os_enabled o')
           | Some a \<Rightarrow>
               if sc_user a \<noteq> uid then Inl O_Required
               else bind_res (session_scope context_id sql a (os_enabled o') db) (\<lambda>_.
                 if os_enabled o' then bind_res (require sql a db) (\<lambda>_. Inr True) else Inr False)))"

definition available :: "instant \<Rightarrow> uuid \<Rightarrow> household \<Rightarrow> OwnerError + int" where
  "available sql uid db =
     (case find_state uid db of
        None \<Rightarrow> Inl O_Database
      | Some o' \<Rightarrow> if \<not> unlocked_state sql o' then Inl O_Locked else Inr (os_revision o'))"

definition invalidate :: "uuid \<Rightarrow> household \<Rightarrow> household" where
  "invalidate uid db =
     (set_state uid (\<lambda>o'. o'\<lparr>os_revision := os_revision o' + 1\<rparr>) db)
       \<lparr>h_grants := filter (\<lambda>g. og_user_id g \<noteq> uid) (h_grants db)\<rparr>"

definition next_attempts :: "instant \<Rightarrow> owner_state \<Rightarrow> int" where
  "next_attempts sql o' =
     (case os_locked_until o' of
        Some t \<Rightarrow> if t \<le> sql then 1 else os_failed_attempts o' + 1
      | None \<Rightarrow> os_failed_attempts o' + 1)"

text \<open>A refused proof is counted; the transaction commits before the error is returned.\<close>

definition count_failure :: "instant \<Rightarrow> uuid \<Rightarrow> household \<Rightarrow> household" where
  "count_failure sql uid =
     set_state uid (\<lambda>o'. o'\<lparr>os_failed_attempts := min 5 (next_attempts sql o'),
       os_locked_until := (if next_attempts sql o' \<ge> 5 then Some (sql + seconds (15 * 60)) else None)\<rparr>)"

definition failed :: "instant \<Rightarrow> scope \<Rightarrow> household \<Rightarrow> (OwnerError + 'a) \<times> household" where
  "failed sql actor db = (Inl O_InvalidProof, count_failure sql (sc_user actor) db)"

section \<open>Proofs and grants\<close>

text \<open>\<^verbatim>\<open>grants::rotate\<close>: the session gets the new token and, for five minutes at most, a grant.\<close>

definition rotate_grant ::
  "digest \<Rightarrow> (string \<Rightarrow> string) \<Rightarrow> instant \<Rightarrow> string \<Rightarrow> scope \<Rightarrow> household \<Rightarrow> OwnerError + instant \<times> household" where
  "rotate_grant context_id fingerprint sql token actor db =
     bind_res (session_scope context_id sql actor True db) (\<lambda>_.
       case (find_session (sc_user actor) (sc_session actor) db, find_state (sc_user actor) db) of
         (Some s, Some o') \<Rightarrow>
           (let expires_at = min (sql + seconds (5 * 60)) (s_expires_at s);
                db' = (set_state (sc_user actor) (\<lambda>o'. o'\<lparr>os_failed_attempts := 0, os_locked_until := None\<rparr>) db)
                  \<lparr>h_sessions := update_where (\<lambda>x. s_id x = sc_session actor)
                     (\<lambda>x. x\<lparr>s_token_hash := fingerprint token, s_credential_version := s_credential_version x + 1,
                            s_last_active_at := sql\<rparr>) (h_sessions db),
                   h_grants := filter (\<lambda>g. og_session_id g \<noteq> sc_session actor) (h_grants db)
                     @ [\<lparr>og_session_id = sc_session actor, og_credential_version = s_credential_version s + 1,
                         og_user_id = sc_user actor, og_profile_id = sc_profile actor,
                         og_revision = os_revision o', og_expires_at = expires_at\<rparr>]\<rparr>
            in if \<not> is_i64 (sc_version actor + 1) then Inl O_Unavailable
               else bind_res (context_read context_id sql
                   (actor\<lparr>sc_version := sc_version actor + 1, sc_binding := None\<rparr>) db') (\<lambda>_. Inr (expires_at, db')))
       | _ \<Rightarrow> Inl O_Database)"

definition password_hash_of :: "uuid \<Rightarrow> household \<Rightarrow> string option" where
  "password_hash_of uid db = Option.bind (List.find (\<lambda>u. u_id u = uid) (h_users db)) u_password_hash"

definition password_available :: "(string \<Rightarrow> string) \<Rightarrow> uuid \<Rightarrow> household \<Rightarrow> bool" where
  "password_available fingerprint uid db \<longleftrightarrow>
     (case (password_hash_of uid db, find_state uid db) of
        (Some hash, Some o') \<Rightarrow> os_password_fingerprint o' = Some (fingerprint hash)
      | _ \<Rightarrow> False)"

definition validate_handoff :: "(string \<Rightarrow> string) \<Rightarrow> instant \<Rightarrow> uuid \<Rightarrow> string \<Rightarrow> household \<Rightarrow> uuid option" where
  "validate_handoff fingerprint sql uid token db =
     (if length token \<noteq> 57 \<or> \<not> starts_with token ''duskcue-owner-'' then None
      else map_option oh_id (List.find (\<lambda>h. oh_user_id h = uid \<and> oh_token_hash h = fingerprint token \<and> oh_expires_at h > sql)
             (h_handoffs db)))"

definition consume_handoff :: "instant \<Rightarrow> uuid \<Rightarrow> uuid \<Rightarrow> household \<Rightarrow> OwnerError + household" where
  "consume_handoff sql uid hid db =
     (let gone = (\<lambda>h. oh_id h = hid \<and> oh_user_id h = uid \<and> oh_expires_at h > sql)
      in if length (filter gone (h_handoffs db)) \<noteq> 1 then Inl O_InvalidProof
         else Inr (db\<lparr>h_handoffs := filter (\<lambda>h. \<not> gone h) (h_handoffs db)\<rparr>))"

definition activate :: "uuid \<Rightarrow> household \<Rightarrow> household" where
  "activate uid db = set_state uid (\<lambda>o'. o'\<lparr>os_enabled := True\<rparr>) (invalidate uid db)"

definition adopt_password ::
  "(string \<Rightarrow> string) \<Rightarrow> instant \<Rightarrow> uuid \<Rightarrow> string \<Rightarrow> uuid option \<Rightarrow> household \<Rightarrow> OwnerError + household" where
  "adopt_password fingerprint sql uid hash handoff db =
     (case handoff of
        None \<Rightarrow> Inr db
      | Some hid \<Rightarrow>
          bind_res (consume_handoff sql uid hid db) (\<lambda>db1.
            Inr (activate uid (set_state uid (\<lambda>o'. o'\<lparr>os_password_fingerprint := Some (fingerprint hash)\<rparr>) db1))))"

text \<open>
  \<open>verify\<close> checks a password against a stored hash and \<open>slot\<close> says whether a slot for proofs is free.
\<close>

definition password_proof ::
  "digest \<Rightarrow> (string \<Rightarrow> string) \<Rightarrow> (string \<Rightarrow> string \<Rightarrow> bool) \<Rightarrow> instant \<Rightarrow> bool \<Rightarrow> string \<Rightarrow> scope \<Rightarrow> string \<Rightarrow> string option
     \<Rightarrow> household \<Rightarrow> (OwnerError + instant) \<times> household" where
  "password_proof context_id fingerprint verify sql slot token actor password handoff db =
     (let uid = sc_user actor in
      if password = [] \<or> length password > 1024 \<or> (case handoff of None \<Rightarrow> False | Some v \<Rightarrow> length v > 128)
      then (Inl O_InvalidRequest, db)
      else case bind_res (begin_owner uid db) (\<lambda>db1.
          bind_res (session_scope context_id sql actor True db1) (\<lambda>_.
            bind_res (available sql uid db1) (\<lambda>_. Inr db1))) of
        Inl e \<Rightarrow> (Inl e, db)
      | Inr db1 \<Rightarrow>
          (let hid = Option.bind handoff (\<lambda>t. validate_handoff fingerprint sql uid t db1) in
           if handoff \<noteq> None \<and> hid = None then failed sql actor db1
           else if hid = None \<and> \<not> password_available fingerprint uid db1 then failed sql actor db1
           else (case password_hash_of uid db1 of
               None \<Rightarrow> failed sql actor db1
             | Some hash \<Rightarrow>
                 if \<not> slot then (Inl O_Locked, db)
                 else if \<not> verify hash password then failed sql actor db1
                 else (case bind_res (adopt_password fingerprint sql uid hash hid db1)
                            (rotate_grant context_id fingerprint sql token actor) of
                     Inl e \<Rightarrow> (Inl e, db)
                   | Inr (expires_at, db2) \<Rightarrow> (Inr expires_at, db2)))))"

definition lock :: "digest \<Rightarrow> instant \<Rightarrow> scope \<Rightarrow> household \<Rightarrow> (OwnerError + unit) \<times> household" where
  "lock context_id sql actor db =
     (case bind_res (begin_owner (sc_user actor) db) (\<lambda>db1.
          bind_res (session_scope context_id sql actor True db1) (\<lambda>_. Inr db1)) of
        Inl e \<Rightarrow> (Inl e, db)
      | Inr db1 \<Rightarrow> (Inr (), db1\<lparr>h_grants :=
          filter (\<lambda>g. \<not> (og_session_id g = sc_session actor \<and> og_user_id g = sc_user actor)) (h_grants db1)\<rparr>))"

definition issue_handoff ::
  "(string \<Rightarrow> string) \<Rightarrow> instant \<Rightarrow> uuid \<Rightarrow> string \<Rightarrow> uuid \<Rightarrow> household \<Rightarrow> (OwnerError + string) \<times> household" where
  "issue_handoff fingerprint sql hid token uid db =
     (case begin_owner uid db of
        Inl e \<Rightarrow> (Inl e, db)
      | Inr db1 \<Rightarrow>
          (let db2 = set_state uid (\<lambda>o'. o'\<lparr>os_password_fingerprint := None, os_failed_attempts := 0, os_locked_until := None\<rparr>)
                       (invalidate uid db1)
           in (Inr token, db2\<lparr>h_handoffs := filter (\<lambda>h. oh_user_id h \<noteq> uid) (h_handoffs db2)
                 @ [\<lparr>oh_id = hid, oh_user_id = uid, oh_token_hash = fingerprint token,
                     oh_expires_at = sql + seconds (10 * 60)\<rparr>]\<rparr>)))"

text \<open>The capability check for sessions in \<^verbatim>\<open>access::allowed\<close>.\<close>

definition owner_allowed :: "digest \<Rightarrow> instant \<Rightarrow> scope \<Rightarrow> string \<Rightarrow> household \<Rightarrow> OwnerError + bool" where
  "owner_allowed context_id sql actor cap db =
     (case List.find (\<lambda>u. u_id u = sc_user actor \<and> u_status u = ''active'' \<and> u_deleted_at u = None) (h_users db) of
        None \<Rightarrow> Inl O_InvalidProof
      | Some u \<Rightarrow>
          bind_res (session_scope context_id sql actor True db) (\<lambda>_.
            Inr (u_role u = ''owner''
              \<or> (case List.find (\<lambda>c. c_user_id c = sc_user actor \<and> c_capability c = cap) (h_capabilities db) of
                   None \<Rightarrow> u_role u = ''admin''
                 | Some c \<Rightarrow> c_is_granted c))))"

text \<open>
  The trigger on accounts: when the password, the status or the deletion mark of an account changes,
  its grants end, and a changed password is no longer trusted.
\<close>

definition change_account :: "uuid \<Rightarrow> (user \<Rightarrow> user) \<Rightarrow> household \<Rightarrow> household" where
  "change_account uid f db =
     (case List.find (\<lambda>u. u_id u = uid) (h_users db) of
        None \<Rightarrow> db
      | Some u \<Rightarrow>
          (let db1 = db\<lparr>h_users := update_where (\<lambda>u. u_id u = uid) f (h_users db)\<rparr>
           in if u_password_hash (f u) \<noteq> u_password_hash u \<or> u_status (f u) \<noteq> u_status u \<or> u_deleted_at (f u) \<noteq> u_deleted_at u
              then set_state uid (\<lambda>o'. o'\<lparr>os_password_fingerprint :=
                     (if u_password_hash (f u) \<noteq> u_password_hash u then None else os_password_fingerprint o')\<rparr>)
                   (invalidate uid db1)
              else db1))"

end
