(* ===== verification/Profiles.thy ===== *)
theory Profiles
  imports Household
begin

text \<open>
  domains/profiles: service.rs, management.rs, access.rs and the guard of handlers.rs. Profiles of an
  account, the PIN with which a parent lets a child leave a Kids profile, what a profile may watch, and
  ambient channels. \<open>now\<close> is the clock of the process, \<open>sql\<close> that of the database; hashing and checking
  a PIN (Argon2) are arguments. Requests that read before they lock are split there: what was read is
  an argument of the rest.
\<close>

datatype ProfilesError =
    P_NotFound
  | P_AccessDenied
  | P_SelectionRequired
  | P_ActiveProfileChanged
  | P_InvalidViewingPreferences string
  | P_InvalidStoredViewingPreferences
  | P_InvalidProfileType string
  | P_InvalidContentRating string
  | P_CannotDelete
  | P_DeviceIdentityRequired
  | P_ParentPinRequired
  | P_ParentPinNotAllowed
  | P_ParentPinInvalid
  | P_ParentPinLocked
  | P_ParentUnlockRequired
  | P_ParentUnlockUnavailable
  | P_ParentPinHashingFailed
  | P_ContentNotAllowed
  | P_FeatureDisabled
  | P_ChannelNotFound
  | P_ChannelUnavailable
  | P_ChannelEmpty
  | P_Household OwnerError
  | P_Database

definition household_error :: "OwnerError + 'a \<Rightarrow> ProfilesError + 'a" where
  "household_error r = (case r of Inl e \<Rightarrow> Inl (P_Household e) | Inr x \<Rightarrow> Inr x)"

section \<open>Content ratings\<close>

definition PROFILE_TYPES :: "string list" where
  "PROFILE_TYPES = [''standard'', ''kids'']"

definition CONTENT_RATINGS :: "string list" where
  "CONTENT_RATINGS =
     [''TV-Y'', ''TV-Y7'', ''G'', ''TV-G'', ''PG'', ''TV-PG'', ''PG-13'', ''TV-14'', ''R'', ''TV-MA'', ''NC-17'']"

definition CHANNEL_AUDIENCES :: "string list" where
  "CHANNEL_AUDIENCES = [''standard'', ''kids'']"

definition ascii_upper_char :: "char \<Rightarrow> char" where
  "ascii_upper_char c = (let n = (of_char c :: nat) in if 97 \<le> n \<and> n \<le> 122 then char_of (n - 32) else c)"

definition to_ascii_uppercase :: "string \<Rightarrow> string" where
  "to_ascii_uppercase s = map ascii_upper_char s"

text \<open>The names each rating goes by.\<close>

definition rating_names :: "(string \<times> string) list" where
  "rating_names =
     [(''TVY'', ''TV-Y''), (''TV-Y'', ''TV-Y''), (''TVY7'', ''TV-Y7''), (''TV-Y7'', ''TV-Y7''), (''TV-Y7-FV'', ''TV-Y7''),
      (''G'', ''G''), (''TVG'', ''TV-G''), (''TV-G'', ''TV-G''), (''PG'', ''PG''), (''TVPG'', ''TV-PG''), (''TV-PG'', ''TV-PG''),
      (''PG13'', ''PG-13''), (''PG-13'', ''PG-13''), (''TV14'', ''TV-14''), (''TV-14'', ''TV-14''), (''R'', ''R''),
      (''TVMA'', ''TV-MA''), (''TV-MA'', ''TV-MA''), (''NC17'', ''NC-17''), (''NC-17'', ''NC-17'')]"

definition canonical_content_rating :: "string \<Rightarrow> ProfilesError + string" where
  "canonical_content_rating value =
     (case map_of rating_names (to_ascii_uppercase (trim value)) of
        Some rating \<Rightarrow> Inr rating
      | None \<Rightarrow> Inl (P_InvalidContentRating value))"

fun position :: "'a \<Rightarrow> 'a list \<Rightarrow> nat option" where
  "position x [] = None"
| "position x (y # ys) = (if x = y then Some 0 else map_option Suc (position x ys))"

definition content_rating_rank :: "string \<Rightarrow> nat option" where
  "content_rating_rank value =
     (let normalized = to_ascii_uppercase (trim value);
          base = takeWhile (\<lambda>c. c \<noteq> CHR '' '' \<and> c \<noteq> CHR '':'') normalized
      in case canonical_content_rating base of
           Inl _ \<Rightarrow> None
         | Inr rating \<Rightarrow> position rating CONTENT_RATINGS)"

section \<open>What a profile may watch\<close>

record ProfileScope =
  ps_profile_id :: uuid
  ps_owner_user_id :: uuid
  ps_profile_type :: string
  ps_max_content_rating :: string
  ps_allow_search :: bool
  ps_allow_downloads :: bool
  ps_allow_external_links :: bool
  ps_allow_ambient_channels :: bool
  ps_library_ids :: "uuid list"
  ps_user_library_ids :: "uuid list"
  ps_has_all_library_access :: bool

definition list_profile_library_ids :: "uuid \<Rightarrow> household \<Rightarrow> uuid list" where
  "list_profile_library_ids pid db = sort (map snd (filter (\<lambda>(p, _). p = pid) (h_profile_libraries db)))"

definition load_profile_scope :: "uuid \<Rightarrow> uuid \<Rightarrow> bool \<Rightarrow> household \<Rightarrow> ProfilesError + ProfileScope" where
  "load_profile_scope owner pid has_all db =
     (case find_profile owner pid db of
        None \<Rightarrow> Inl P_NotFound
      | Some p \<Rightarrow> Inr \<lparr>ps_profile_id = pid, ps_owner_user_id = owner, ps_profile_type = p_type p,
          ps_max_content_rating = max_content_rating p, ps_allow_search = allow_search p,
          ps_allow_downloads = allow_downloads p, ps_allow_external_links = allow_external_links p,
          ps_allow_ambient_channels = allow_ambient_channels p,
          ps_library_ids = list_profile_library_ids pid db,
          ps_user_library_ids =
            (if has_all then [] else map snd (filter (\<lambda>(u, _). u = owner) (h_user_libraries db))),
          ps_has_all_library_access = has_all\<rparr>)"

definition is_kids :: "ProfileScope \<Rightarrow> bool" where
  "is_kids scope \<longleftrightarrow> ps_profile_type scope = ''kids''"

definition is_media_allowed :: "ProfileScope \<Rightarrow> uuid \<Rightarrow> string option \<Rightarrow> bool" where
  "is_media_allowed scope library_id content_rating \<longleftrightarrow>
     (if \<not> (ps_has_all_library_access scope \<or> library_id \<in> set (ps_user_library_ids scope)) then False
      else if \<not> is_kids scope then True
      else if library_id \<notin> set (ps_library_ids scope) then False
      else case Option.bind content_rating content_rating_rank of
          None \<Rightarrow> False
        | Some actual_rank \<Rightarrow>
            (case content_rating_rank (ps_max_content_rating scope) of
               None \<Rightarrow> False
             | Some max_rank \<Rightarrow> actual_rank \<le> max_rank))"

definition assert_media_access :: "ProfileScope \<Rightarrow> uuid \<Rightarrow> household \<Rightarrow> ProfilesError + unit" where
  "assert_media_access scope media_item_id db =
     (case List.find (\<lambda>mi. mi_id mi = media_item_id \<and> (mi_library_id mi, False) \<in> set (h_libraries db)) (h_media db) of
        None \<Rightarrow> Inl P_ContentNotAllowed
      | Some mi \<Rightarrow>
          if is_media_allowed scope (mi_library_id mi) (mi_content_rating mi) then Inr () else Inl P_ContentNotAllowed)"

text \<open>The guard of the handlers for the management of profiles and channels.\<close>

definition assert_profile_management_allowed :: "uuid \<Rightarrow> uuid \<Rightarrow> household \<Rightarrow> ProfilesError + unit" where
  "assert_profile_management_allowed owner pid db =
     bind_res (load_profile_scope owner pid False db) (\<lambda>scope.
       if is_kids scope then Inl P_FeatureDisabled else Inr ())"

section \<open>The parent PIN\<close>

definition PARENT_PIN_MAX_ATTEMPTS :: int where
  "PARENT_PIN_MAX_ATTEMPTS = 5"

definition PARENT_PIN_LOCKOUT_MINUTES :: int where
  "PARENT_PIN_LOCKOUT_MINUTES = 15"

definition PARENT_UNLOCK_MINUTES :: int where
  "PARENT_UNLOCK_MINUTES = 10"

definition validate_parent_pin :: "string \<Rightarrow> ProfilesError + unit" where
  "validate_parent_pin pin =
     (if \<not> (4 \<le> length pin \<and> length pin \<le> 12) \<or> \<not> list_all is_digit pin then Inl P_ParentPinRequired else Inr ())"

definition hash_parent_pin :: "(string \<Rightarrow> string option) \<Rightarrow> string \<Rightarrow> ProfilesError + string" where
  "hash_parent_pin argon2 pin =
     bind_res (validate_parent_pin pin) (\<lambda>_. ok_or P_ParentPinHashingFailed (argon2 pin))"

definition lockout_end :: "int \<Rightarrow> instant \<Rightarrow> instant option" where
  "lockout_end failed_attempts now =
     (if failed_attempts \<ge> PARENT_PIN_MAX_ATTEMPTS then Some (now + seconds (60 * PARENT_PIN_LOCKOUT_MINUTES)) else None)"

definition current_session_profile_id :: "uuid \<Rightarrow> uuid \<Rightarrow> household \<Rightarrow> ProfilesError + uuid" where
  "current_session_profile_id owner sid db =
     (case find_session owner sid db of
        None \<Rightarrow> Inl P_AccessDenied
      | Some s \<Rightarrow> ok_or P_Database (s_active_profile_id s))"

definition lock_profile_session :: "uuid \<Rightarrow> uuid \<Rightarrow> uuid \<Rightarrow> household \<Rightarrow> ProfilesError + ProfileRow \<times> ProfileSession" where
  "lock_profile_session owner sid expected db =
     (case (find_profile owner expected db, find_session owner sid db) of
        (Some p, Some s) \<Rightarrow>
          if s_active_profile_id s \<noteq> Some expected then Inl P_ActiveProfileChanged else Inr (p, s)
      | _ \<Rightarrow> Inl P_AccessDenied)"

definition set_profile :: "uuid \<Rightarrow> (ProfileRow \<Rightarrow> ProfileRow) \<Rightarrow> household \<Rightarrow> household" where
  "set_profile pid f db = db\<lparr>h_profiles := update_where (\<lambda>p. p_id p = pid) f (h_profiles db)\<rparr>"

definition set_session :: "uuid \<Rightarrow> uuid \<Rightarrow> (ProfileSession \<Rightarrow> ProfileSession) \<Rightarrow> household \<Rightarrow> household" where
  "set_session owner sid f db = db\<lparr>h_sessions := update_where (\<lambda>s. s_id s = sid \<and> s_user_id s = owner) f (h_sessions db)\<rparr>"

definition parent_unlock ::
  "(string \<Rightarrow> string \<Rightarrow> bool) \<Rightarrow> instant \<Rightarrow> instant \<Rightarrow> uuid \<Rightarrow> uuid \<Rightarrow> string \<Rightarrow> uuid \<Rightarrow> household
     \<Rightarrow> (ProfilesError + instant) \<times> household" where
  "parent_unlock verify_pin now sql owner sid pin observed db =
     (case validate_parent_pin pin of
        Inl e \<Rightarrow> (Inl e, db)
      | Inr _ \<Rightarrow>
          (case lock_profile_session owner sid observed db of
             Inl e \<Rightarrow> (Inl (if e = P_ActiveProfileChanged then P_ParentUnlockUnavailable else e), db)
           | Inr (p, s) \<Rightarrow>
               if p_type p \<noteq> ''kids'' then (Inl P_ParentUnlockUnavailable, db)
               else (case parent_pin_hash p of
                   None \<Rightarrow> (Inl P_ParentUnlockUnavailable, db)
                 | Some hash \<Rightarrow>
                     if (case parent_pin_locked_until p of None \<Rightarrow> False | Some t \<Rightarrow> t > now)
                     then (Inl P_ParentPinLocked, db)
                     else if \<not> verify_pin hash pin then
                       (let next_failed_attempts = min 32767 (parent_pin_failed_attempts p + 1)
                        in (Inl P_ParentPinInvalid,
                            set_profile observed (\<lambda>p. p\<lparr>parent_pin_failed_attempts := next_failed_attempts,
                              parent_pin_locked_until := lockout_end next_failed_attempts now\<rparr>) db))
                     else
                       (let unlocked_until = now + seconds (60 * PARENT_UNLOCK_MINUTES)
                        in (Inr unlocked_until,
                            set_session owner sid (\<lambda>s. s\<lparr>parent_unlock_profile_id := Some observed,
                                parent_unlock_expires_at := Some unlocked_until, s_last_active_at := sql\<rparr>)
                              (set_profile observed (\<lambda>p. p\<lparr>parent_pin_failed_attempts := 0,
                                parent_pin_locked_until := None\<rparr>) db))))))"

definition parent_unlock_state :: "instant \<Rightarrow> uuid \<Rightarrow> uuid \<Rightarrow> uuid \<Rightarrow> household \<Rightarrow> ProfilesError + bool \<times> instant option" where
  "parent_unlock_state sql owner sid active_profile_id db =
     (case find_session owner sid db of
        None \<Rightarrow> Inl P_AccessDenied
      | Some s \<Rightarrow>
          if s_active_profile_id s \<noteq> Some active_profile_id then Inl P_AccessDenied
          else (case List.find (\<lambda>p. p_id p = active_profile_id) (h_profiles db) of
              None \<Rightarrow> Inl P_AccessDenied
            | Some p \<Rightarrow>
                (let unlocked = (parent_unlock_profile_id s = Some (p_id p)
                       \<and> (case parent_unlock_expires_at s of None \<Rightarrow> False | Some t \<Rightarrow> t > sql))
                 in Inr (p_type p = ''kids'' \<and> parent_pin_hash p \<noteq> None \<and> \<not> unlocked,
                         if unlocked then parent_unlock_expires_at s else None))))"

section \<open>Switching\<close>

definition remembered_profile_id :: "uuid \<Rightarrow> string option \<Rightarrow> household \<Rightarrow> uuid option" where
  "remembered_profile_id owner device db =
     (case normalized_device_id device of
        None \<Rightarrow> None
      | Some d \<Rightarrow>
          find_map (\<lambda>pref. if d_owner_user_id pref = owner \<and> d_device_id pref = d
                            then map_option p_id (find_profile owner (d_profile_id pref) db) else None) (h_preferences db))"

text \<open>
  The update of a session with its triggers: the context revision moves with the profile and the
  need to select one, and a change of profile ends the grant of the session.
\<close>

definition enter_profile :: "instant \<Rightarrow> uuid \<Rightarrow> ProfileSession \<Rightarrow> ProfileSession" where
  "enter_profile sql pid s =
     (let changed = (s_active_profile_id s \<noteq> Some pid)
      in s\<lparr>s_active_profile_id := Some pid, s_profile_selection_required := False, s_last_active_at := sql,
           parent_unlock_profile_id := (if changed then None else parent_unlock_profile_id s),
           parent_unlock_expires_at := (if changed then None else parent_unlock_expires_at s),
           profile_context_revision :=
             (if changed \<or> s_profile_selection_required s then profile_context_revision s + 1 else profile_context_revision s)\<rparr>)"

definition remember_device ::
  "uuid \<Rightarrow> string option \<Rightarrow> uuid \<Rightarrow> bool option \<Rightarrow> household \<Rightarrow> ProfilesError + household" where
  "remember_device owner device pid remember db =
     (case remember of
        None \<Rightarrow> Inr db
      | Some True \<Rightarrow>
          (case normalized_device_id device of
             None \<Rightarrow> Inl P_DeviceIdentityRequired
           | Some d \<Rightarrow>
               if find_profile owner pid db = None then Inl P_Database
               else Inr (db\<lparr>h_preferences :=
                   filter (\<lambda>x. \<not> (d_owner_user_id x = owner \<and> d_device_id x = d)) (h_preferences db)
                   @ [\<lparr>d_owner_user_id = owner, d_device_id = d, d_profile_id = pid\<rparr>]\<rparr>))
      | Some False \<Rightarrow>
          (case normalized_device_id device of
             None \<Rightarrow> Inr db
           | Some d \<Rightarrow> Inr (db\<lparr>h_preferences :=
                 filter (\<lambda>x. \<not> (d_owner_user_id x = owner \<and> d_device_id x = d)) (h_preferences db)\<rparr>)))"

definition must_unlock :: "instant \<Rightarrow> ProfileRow \<Rightarrow> ProfileSession \<Rightarrow> ProfileRow \<Rightarrow> bool" where
  "must_unlock now active s target \<longleftrightarrow>
     p_id active \<noteq> p_id target \<and> p_type active = ''kids'' \<and> p_type target = ''standard'' \<and> parent_pin_hash active \<noteq> None
     \<and> (parent_unlock_profile_id s \<noteq> Some (p_id active)
        \<or> (case parent_unlock_expires_at s of None \<Rightarrow> True | Some t \<Rightarrow> t \<le> now))"

text \<open>\<open>target\<close> is the row of the chosen profile and \<open>observed\<close> the active one, both read before the locks.\<close>

definition switch_profile ::
  "instant \<Rightarrow> instant \<Rightarrow> uuid \<Rightarrow> uuid \<Rightarrow> string option \<Rightarrow> ProfileRow \<Rightarrow> uuid \<Rightarrow> bool option \<Rightarrow> household
     \<Rightarrow> (ProfilesError + unit) \<times> household" where
  "switch_profile now sql owner sid device target observed remember db =
     (case lock_profile_session owner sid observed db of
        Inl e \<Rightarrow> (Inl e, db)
      | Inr (active, s) \<Rightarrow>
          if must_unlock now active s target then (Inl P_ParentUnlockRequired, db)
          else (case remember_device owner device (p_id target) remember db of
              Inl e \<Rightarrow> (Inl e, db)
            | Inr db1 \<Rightarrow>
                if observed \<noteq> p_id target \<and> p_id target \<notin> p_id ` set (h_profiles db) then (Inl P_Database, db)
                else
                  (let db2 = set_session owner sid (enter_profile sql (p_id target)) db1
                   in (Inr (), if observed = p_id target then db2
                               else db2\<lparr>h_grants := filter (\<lambda>g. og_session_id g \<noteq> sid) (h_grants db2)\<rparr>))))"

end
