(* ===== verification/Profile_Management.thy ===== *)
theory Profile_Management
  imports Profiles
begin

text \<open>
  domains/profiles/management.rs and the ambient channels of service.rs: profiles are created, changed
  and deleted by an owner present, and channels hold media items in an order.
\<close>

definition dedup :: "'a list \<Rightarrow> 'a list" where
  "dedup xs = rev (remdups (rev xs))"

definition nonempty_trim :: "string option \<Rightarrow> string option" where
  "nonempty_trim v = (case v of None \<Rightarrow> None | Some s \<Rightarrow> (let t = trim s in if t = [] then None else Some t))"

definition coalesce :: "'a option \<Rightarrow> 'a \<Rightarrow> 'a" where
  "coalesce v d = (case v of None \<Rightarrow> d | Some x \<Rightarrow> x)"

definition coalesce_opt :: "'a option \<Rightarrow> 'a option \<Rightarrow> 'a option" where
  "coalesce_opt v d = (case v of None \<Rightarrow> d | Some x \<Rightarrow> Some x)"

section \<open>Profiles\<close>

record profile_request =
  rq_name :: "string option"
  rq_avatar :: "string option"
  rq_profile_type :: "string option"
  rq_max_content_rating :: "string option"
  rq_library_ids :: "uuid list option"
  rq_allow_search :: "bool option"
  rq_allow_downloads :: "bool option"
  rq_allow_external_links :: "bool option"
  rq_allow_ambient_channels :: "bool option"
  rq_parent_pin :: "string option"

definition validate_profile_type :: "string \<Rightarrow> ProfilesError + unit" where
  "validate_profile_type value = (if value \<in> set PROFILE_TYPES then Inr () else Inl (P_InvalidProfileType value))"

definition replace_profile_libraries :: "uuid \<Rightarrow> uuid list \<Rightarrow> household \<Rightarrow> household" where
  "replace_profile_libraries pid library_ids db =
     db\<lparr>h_profile_libraries := filter (\<lambda>(p, _). p \<noteq> pid) (h_profile_libraries db)
       @ map (Pair pid) (filter (\<lambda>l. (l, False) \<in> set (h_libraries db)) (dedup library_ids))\<rparr>"

text \<open>Begin and authorize, as the three operations start; the result is the state inside the transaction.\<close>

definition begin_management :: "digest \<Rightarrow> instant \<Rightarrow> uuid \<Rightarrow> scope option \<Rightarrow> household \<Rightarrow> ProfilesError + household" where
  "begin_management context_id sql owner actor db =
     household_error (bind_res (begin_owner owner db) (\<lambda>db1.
       bind_res (authorize context_id sql owner actor db1) (\<lambda>_. Inr db1)))"

definition pin_for_new :: "(string \<Rightarrow> string option) \<Rightarrow> bool \<Rightarrow> string option \<Rightarrow> ProfilesError + string option" where
  "pin_for_new argon2 kids pin =
     (case pin of
        Some p \<Rightarrow> if kids then bind_res (hash_parent_pin argon2 p) (\<lambda>h. Inr (Some h)) else Inl P_ParentPinNotAllowed
      | None \<Rightarrow> if kids then Inl P_ParentPinRequired else Inr None)"

definition create_profile ::
  "digest \<Rightarrow> (string \<Rightarrow> string option) \<Rightarrow> instant \<Rightarrow> uuid \<Rightarrow> uuid \<Rightarrow> scope option \<Rightarrow> profile_request \<Rightarrow> household
     \<Rightarrow> (ProfilesError + ProfileRow) \<times> household" where
  "create_profile context_id argon2 sql pid owner actor req db =
     (let profile_type = coalesce (rq_profile_type req) ''standard'';
          kids = (profile_type = ''kids'');
          name = trim (coalesce (rq_name req) [])
      in case bind_res (begin_management context_id sql owner actor db) (\<lambda>db1.
           bind_res (validate_profile_type profile_type) (\<lambda>_.
           bind_res (canonical_content_rating (coalesce (rq_max_content_rating req) (if kids then ''TV-Y7'' else ''NC-17''))) (\<lambda>rating.
           if name = [] then Inl (P_InvalidProfileType ''name is required'')
           else bind_res (pin_for_new argon2 kids (rq_parent_pin req)) (\<lambda>pin_hash.
             if \<not> profile_name_ok name \<or> pid \<in> p_id ` set (h_profiles db1) then Inl P_Database
             else Inr (\<lparr>p_id = pid, p_owner_user_id = owner, p_name = name, p_type = profile_type, p_is_default = False,
                 avatar = nonempty_trim (rq_avatar req), max_content_rating = rating,
                 allow_search = coalesce (rq_allow_search req) (\<not> kids),
                 allow_downloads = coalesce (rq_allow_downloads req) (\<not> kids),
                 allow_external_links = coalesce (rq_allow_external_links req) (\<not> kids),
                 allow_ambient_channels = coalesce (rq_allow_ambient_channels req) True,
                 parent_pin_hash = pin_hash, parent_pin_failed_attempts = 0, parent_pin_locked_until = None\<rparr>, db1))))) of
         Inl e \<Rightarrow> (Inl e, db)
       | Inr (row, db1) \<Rightarrow>
           (Inr row, replace_profile_libraries pid (coalesce (rq_library_ids req) [])
              (db1\<lparr>h_profiles := h_profiles db1 @ [row]\<rparr>)))"

definition pin_for_update :: "(string \<Rightarrow> string option) \<Rightarrow> string \<Rightarrow> string option \<Rightarrow> ProfilesError + string option" where
  "pin_for_update argon2 profile_type pin =
     (case pin of
        Some p \<Rightarrow>
          if profile_type = ''kids'' then bind_res (hash_parent_pin argon2 p) (\<lambda>h. Inr (Some h)) else Inl P_ParentPinNotAllowed
      | None \<Rightarrow> Inr None)"

definition changed_profile :: "profile_request \<Rightarrow> string option \<Rightarrow> string option \<Rightarrow> ProfileRow \<Rightarrow> ProfileRow" where
  "changed_profile req rating pin_hash p =
     p\<lparr>p_name := coalesce (nonempty_trim (rq_name req)) (p_name p),
       avatar := coalesce_opt (nonempty_trim (rq_avatar req)) (avatar p),
       max_content_rating := coalesce rating (max_content_rating p),
       allow_search := coalesce (rq_allow_search req) (allow_search p),
       allow_downloads := coalesce (rq_allow_downloads req) (allow_downloads p),
       allow_external_links := coalesce (rq_allow_external_links req) (allow_external_links p),
       allow_ambient_channels := coalesce (rq_allow_ambient_channels req) (allow_ambient_channels p),
       parent_pin_hash := coalesce_opt pin_hash (parent_pin_hash p),
       parent_pin_failed_attempts := (if pin_hash = None then parent_pin_failed_attempts p else 0),
       parent_pin_locked_until := (if pin_hash = None then parent_pin_locked_until p else None)\<rparr>"

definition forget_unlocks :: "uuid \<Rightarrow> household \<Rightarrow> household" where
  "forget_unlocks pid db =
     db\<lparr>h_sessions := update_where (\<lambda>s. parent_unlock_profile_id s = Some pid)
         (\<lambda>s. s\<lparr>parent_unlock_profile_id := None, parent_unlock_expires_at := None\<rparr>) (h_sessions db)\<rparr>"

definition update_check ::
  "digest \<Rightarrow> (string \<Rightarrow> string option) \<Rightarrow> instant \<Rightarrow> uuid \<Rightarrow> uuid \<Rightarrow> scope \<Rightarrow> profile_request \<Rightarrow> household
     \<Rightarrow> ProfilesError + string option \<times> string option \<times> household" where
  "update_check context_id argon2 sql owner pid actor req db =
     bind_res (begin_management context_id sql owner (Some actor) db) (\<lambda>db1.
     bind_res (ok_or P_NotFound (find_profile owner pid db1)) (\<lambda>current.
     bind_res (case rq_max_content_rating req of
         None \<Rightarrow> Inr None
       | Some v \<Rightarrow> bind_res (canonical_content_rating v) (\<lambda>r. Inr (Some r))) (\<lambda>rating.
     if rq_name req \<noteq> None \<and> nonempty_trim (rq_name req) = None then Inl (P_InvalidProfileType ''name is required'')
     else bind_res (pin_for_update argon2 (p_type current) (rq_parent_pin req)) (\<lambda>pin_hash.
       if \<not> profile_name_ok (coalesce (nonempty_trim (rq_name req)) (p_name current)) then Inl P_Database
       else Inr (rating, pin_hash, db1)))))"

definition update_profile ::
  "digest \<Rightarrow> (string \<Rightarrow> string option) \<Rightarrow> instant \<Rightarrow> uuid \<Rightarrow> uuid \<Rightarrow> scope \<Rightarrow> profile_request \<Rightarrow> household
     \<Rightarrow> (ProfilesError + unit) \<times> household" where
  "update_profile context_id argon2 sql owner pid actor req db =
     (case update_check context_id argon2 sql owner pid actor req db of
        Inl e \<Rightarrow> (Inl e, db)
      | Inr (rating, pin_hash, db1) \<Rightarrow>
          (let db2 = set_profile pid (changed_profile req rating pin_hash) db1;
               db3 = (case rq_library_ids req of None \<Rightarrow> db2 | Some ls \<Rightarrow> replace_profile_libraries pid ls db2)
           in (Inr (), if pin_hash = None then db3 else forget_unlocks pid db3)))"

text \<open>The foreign keys on a profile: dependent rows go with it, other references become NULL.\<close>

definition drop_profile :: "uuid \<Rightarrow> uuid \<Rightarrow> household \<Rightarrow> household" where
  "drop_profile owner pid db =
     db\<lparr>h_profiles := filter (\<lambda>p. \<not> (p_id p = pid \<and> p_owner_user_id p = owner)) (h_profiles db),
        h_profile_libraries := filter (\<lambda>(p, _). p \<noteq> pid) (h_profile_libraries db),
        h_preferences := filter (\<lambda>x. \<not> (d_owner_user_id x = owner \<and> d_profile_id x = pid)) (h_preferences db),
        h_grants := filter (\<lambda>g. og_profile_id g \<noteq> pid) (h_grants db),
        h_sessions := map (\<lambda>s. s\<lparr>
            s_active_profile_id := (if s_active_profile_id s = Some pid then None else s_active_profile_id s),
            parent_unlock_profile_id := (if parent_unlock_profile_id s = Some pid then None else parent_unlock_profile_id s)\<rparr>)
          (h_sessions db)\<rparr>"

definition delete_profile ::
  "digest \<Rightarrow> instant \<Rightarrow> uuid \<Rightarrow> uuid \<Rightarrow> scope \<Rightarrow> household \<Rightarrow> (ProfilesError + unit) \<times> household" where
  "delete_profile context_id sql owner pid actor db =
     (case bind_res (begin_management context_id sql owner (Some actor) db) (\<lambda>db1.
         bind_res (ok_or P_NotFound (find_profile owner pid db1)) (\<lambda>p.
           if p_is_default p then Inl P_CannotDelete
           else if list_ex (\<lambda>s. s_user_id s = owner \<and> s_active_profile_id s = Some pid) (h_sessions db1)
           then Inl P_CannotDelete
           else Inr db1)) of
       Inl e \<Rightarrow> (Inl e, db)
     | Inr db1 \<Rightarrow> (Inr (), drop_profile owner pid db1))"

section \<open>Ambient channels\<close>

definition validate_channel_audience :: "string \<Rightarrow> ProfilesError + unit" where
  "validate_channel_audience value = (if value \<in> set CHANNEL_AUDIENCES then Inr () else Inl P_ChannelUnavailable)"

definition find_channel :: "uuid \<Rightarrow> uuid \<Rightarrow> household \<Rightarrow> AmbientChannelRow option" where
  "find_channel owner cid db = List.find (\<lambda>c. ch_id c = cid \<and> ch_owner_user_id c = owner) (h_channels db)"

definition channel_items :: "uuid \<Rightarrow> household \<Rightarrow> uuid list" where
  "channel_items cid db =
     map ci_media_item_id (sort_key ci_position (filter (\<lambda>i. ci_channel_id i = cid) (h_channel_items db)))"

text \<open>The rows of a channel with their items counted; the code orders them by name.\<close>

definition list_ambient_channels :: "ProfileScope \<Rightarrow> bool \<Rightarrow> household \<Rightarrow> (AmbientChannelRow \<times> nat) list" where
  "list_ambient_channels scope include_all db =
     (let audience = (if is_kids scope then ''kids'' else ''standard'')
      in map (\<lambda>c. (c, length (filter (\<lambda>i. ci_channel_id i = ch_id c) (h_channel_items db))))
           (filter (\<lambda>c. ch_owner_user_id c = ps_owner_user_id scope
              \<and> (include_all \<or> (ch_audience c = audience \<and> ch_is_enabled c))) (h_channels db)))"

definition store_items :: "uuid \<Rightarrow> uuid list \<Rightarrow> household \<Rightarrow> household" where
  "store_items cid ids db =
     db\<lparr>h_channel_items := filter (\<lambda>i. ci_channel_id i \<noteq> cid) (h_channel_items db)
       @ map (\<lambda>(n, m). \<lparr>ci_channel_id = cid, ci_media_item_id = m, ci_position = n\<rparr>) (enumerate 0 ids)\<rparr>"

definition replace_channel_items ::
  "instant \<Rightarrow> uuid \<Rightarrow> uuid \<Rightarrow> uuid list \<Rightarrow> household \<Rightarrow> (ProfilesError + AmbientChannelRow) \<times> household" where
  "replace_channel_items sql owner cid ids db =
     (let unique = dedup ids in
      case find_channel owner cid db of
        None \<Rightarrow> (Inl P_ChannelNotFound, db)
      | Some c \<Rightarrow>
          if channel_items cid db = unique then (Inr c, db)
          else if list_ex (\<lambda>m. m \<notin> mi_id ` set (h_media db)) unique then (Inl P_ContentNotAllowed, db)
          else (Inr (c\<lparr>ch_updated_at := sql\<rparr>),
                store_items cid unique
                  (db\<lparr>h_channels := update_where (\<lambda>x. ch_id x = cid \<and> ch_owner_user_id x = owner)
                        (\<lambda>x. x\<lparr>ch_updated_at := sql\<rparr>) (h_channels db)\<rparr>)))"

definition channel_name_ok :: "string \<Rightarrow> bool" where
  "channel_name_ok name =
     (let n = char_count (rev (dropWhile (\<lambda>c. c = CHR '' '') (rev (dropWhile (\<lambda>c. c = CHR '' '') name))))
      in 1 \<le> n \<and> n \<le> 120)"

text \<open>The channel is inserted outside a transaction, before its items are.\<close>

definition create_ambient_channel ::
  "instant \<Rightarrow> uuid \<Rightarrow> uuid \<Rightarrow> string \<Rightarrow> string option \<Rightarrow> string \<Rightarrow> bool option \<Rightarrow> uuid list option \<Rightarrow> household
     \<Rightarrow> (ProfilesError + AmbientChannelRow) \<times> household" where
  "create_ambient_channel sql cid owner name description audience is_enabled ids db =
     (case validate_channel_audience audience of
        Inl e \<Rightarrow> (Inl e, db)
      | Inr _ \<Rightarrow>
          if trim name = [] then (Inl P_ChannelUnavailable, db)
          else if \<not> channel_name_ok (trim name) \<or> owner \<notin> u_id ` set (h_users db) \<or> cid \<in> ch_id ` set (h_channels db)
          then (Inl P_Database, db)
          else replace_channel_items sql owner cid (coalesce ids [])
            (db\<lparr>h_channels := h_channels db @ [\<lparr>ch_id = cid, ch_owner_user_id = owner, ch_name = trim name,
                ch_description = nonempty_trim description, ch_audience = audience,
                ch_is_enabled = coalesce is_enabled True, ch_updated_at = sql\<rparr>]\<rparr>))"

definition update_ambient_channel ::
  "instant \<Rightarrow> uuid \<Rightarrow> uuid \<Rightarrow> string option \<Rightarrow> string option \<Rightarrow> string option \<Rightarrow> bool option \<Rightarrow> household
     \<Rightarrow> (ProfilesError + unit) \<times> household" where
  "update_ambient_channel sql owner cid name description audience is_enabled db =
     (case (case audience of None \<Rightarrow> Inr () | Some a \<Rightarrow> validate_channel_audience a) of
        Inl e \<Rightarrow> (Inl e, db)
      | Inr _ \<Rightarrow>
          if name \<noteq> None \<and> nonempty_trim name = None then (Inl P_ChannelUnavailable, db)
          else (case find_channel owner cid db of
              None \<Rightarrow> (Inl P_ChannelNotFound, db)
            | Some c \<Rightarrow>
                if \<not> channel_name_ok (coalesce (nonempty_trim name) (ch_name c)) then (Inl P_Database, db)
                else (Inr (), db\<lparr>h_channels := update_where (\<lambda>x. ch_id x = cid \<and> ch_owner_user_id x = owner)
                    (\<lambda>x. x\<lparr>ch_name := coalesce (nonempty_trim name) (ch_name x),
                           ch_description := coalesce_opt (nonempty_trim description) (ch_description x),
                           ch_audience := coalesce audience (ch_audience x),
                           ch_is_enabled := coalesce is_enabled (ch_is_enabled x), ch_updated_at := sql\<rparr>) (h_channels db)\<rparr>)))"

definition delete_ambient_channel :: "uuid \<Rightarrow> uuid \<Rightarrow> household \<Rightarrow> (ProfilesError + unit) \<times> household" where
  "delete_ambient_channel owner cid db =
     (if find_channel owner cid db = None then (Inl P_ChannelNotFound, db)
      else (Inr (), db\<lparr>h_channels := filter (\<lambda>c. \<not> (ch_id c = cid \<and> ch_owner_user_id c = owner)) (h_channels db),
                       h_channel_items := filter (\<lambda>i. ci_channel_id i \<noteq> cid) (h_channel_items db)\<rparr>))"

definition list_ambient_channel_items :: "uuid \<Rightarrow> uuid \<Rightarrow> household \<Rightarrow> ProfilesError + uuid list" where
  "list_ambient_channel_items owner cid db =
     (if find_channel owner cid db = None then Inl P_ChannelNotFound else Inr (channel_items cid db))"

definition get_available_channel :: "ProfileScope \<Rightarrow> uuid \<Rightarrow> household \<Rightarrow> ProfilesError + AmbientChannelRow" where
  "get_available_channel scope cid db =
     (if \<not> ps_allow_ambient_channels scope then Inl P_FeatureDisabled
      else (let audience = (if is_kids scope then ''kids'' else ''standard'')
            in ok_or P_ChannelUnavailable
                 (List.find (\<lambda>c. ch_id c = cid \<and> ch_owner_user_id c = ps_owner_user_id scope
                    \<and> ch_audience c = audience \<and> ch_is_enabled c) (h_channels db))))"

definition rotation :: "'a list \<Rightarrow> 'a option \<Rightarrow> 'a list" where
  "rotation items after =
     (let start = (case Option.bind after (\<lambda>x. position x items) of
                     None \<Rightarrow> 0
                   | Some i \<Rightarrow> (i + 1) mod length items)
      in map (\<lambda>offset. items ! ((start + offset) mod length items)) [0..<length items])"

definition next_ambient_channel_item ::
  "ProfileScope \<Rightarrow> uuid \<Rightarrow> uuid option \<Rightarrow> household \<Rightarrow> ProfilesError + AmbientChannelRow \<times> uuid" where
  "next_ambient_channel_item scope cid after db =
     bind_res (get_available_channel scope cid db) (\<lambda>c.
       case List.find (\<lambda>m. assert_media_access scope m db = Inr ()) (rotation (channel_items cid db) after) of
         None \<Rightarrow> Inl P_ChannelEmpty
       | Some m \<Rightarrow> Inr (c, m))"

definition assert_ambient_playback_allowed ::
  "ProfileScope \<Rightarrow> uuid \<Rightarrow> uuid \<Rightarrow> household \<Rightarrow> ProfilesError + AmbientChannelRow" where
  "assert_ambient_playback_allowed scope cid media_item_id db =
     bind_res (get_available_channel scope cid db) (\<lambda>c.
       if media_item_id \<notin> set (channel_items cid db) then Inl P_ChannelUnavailable
       else bind_res (assert_media_access scope media_item_id db) (\<lambda>_. Inr c))"

end
