(* ===== verification/Household_Props.thy ===== *)
theory Household_Props
  imports Profile_Management
begin

text \<open>
  What the protection of a household shows: the number of PINs a child can try, what a profile may watch,
  who may manage profiles and when that right ends, and the order of channels.
\<close>

section \<open>Trying PINs\<close>





lemma find_profile_set_session [simp]: "find_profile owner pid (set_session o' sid f db) = find_profile owner pid db"
  by (simp add: find_profile_def set_session_def)






section \<open>What a Kids profile may watch\<close>

text \<open>The specification: a recognised rating that is no higher than another.\<close>

definition rated_within :: "string \<Rightarrow> string option \<Rightarrow> bool" where
  "rated_within limit rating \<longleftrightarrow>
     (\<exists>r n m. rating = Some r \<and> content_rating_rank r = Some n \<and> content_rating_rank limit = Some m \<and> n \<le> m)"

lemma kids_media_allowed:
  "is_kids scope \<Longrightarrow> is_media_allowed scope l rating \<longleftrightarrow>
     (ps_has_all_library_access scope \<or> l \<in> set (ps_user_library_ids scope)) \<and> l \<in> set (ps_library_ids scope)
     \<and> rated_within (ps_max_content_rating scope) rating"
  by (auto simp: is_media_allowed_def rated_within_def bind_eq_Some_conv split: option.splits)

lemma find_media:
  assumes "distinct (map mi_id ms)" and "mi \<in> set ms" and "P mi" and "\<And>x. P x \<Longrightarrow> mi_id x = i"
  shows "List.find P ms = Some mi"
  using assms
proof (induction ms)
  case (Cons x ms)
  then show ?case by (cases "P x") (auto simp: rev_image_eqI)
qed simp

text \<open>
  C27. What a Kids profile may watch: access to an item is granted exactly when the item is in a library
  that is not deleted, that the account may use and that the parent has opened for the profile, and when
  its rating is recognised and no higher than the limit of the profile.
\<close>

theorem kids_media_contract:
  assumes "find_profile owner pid db = Some p" and "p_type p = ''kids''" and "distinct (map mi_id (h_media db))"
    and "load_profile_scope owner pid has_all db = Inr scope"
  shows "assert_media_access scope item db = Inr () \<longleftrightarrow>
    (\<exists>mi \<in> set (h_media db). mi_id mi = item \<and> (mi_library_id mi, False) \<in> set (h_libraries db)
      \<and> (has_all \<or> (owner, mi_library_id mi) \<in> set (h_user_libraries db)) \<and> (pid, mi_library_id mi) \<in> set (h_profile_libraries db)
      \<and> rated_within (max_content_rating p) (mi_content_rating mi))"
proof -
  let ?P = "\<lambda>mi. mi_id mi = item \<and> (mi_library_id mi, False) \<in> set (h_libraries db)"
  have scope: "is_kids scope" "ps_has_all_library_access scope = has_all" "ps_max_content_rating scope = max_content_rating p"
    "set (ps_library_ids scope) = {l. (pid, l) \<in> set (h_profile_libraries db)}"
    "\<not> has_all \<Longrightarrow> set (ps_user_library_ids scope) = {l. (owner, l) \<in> set (h_user_libraries db)}"
    using assms(1,2,4) by (force simp: load_profile_scope_def is_kids_def list_profile_library_ids_def)+
  have "assert_media_access scope item db = Inr () \<longleftrightarrow>
      (\<exists>mi \<in> set (h_media db). ?P mi \<and> is_media_allowed scope (mi_library_id mi) (mi_content_rating mi))"
  proof
    assume "assert_media_access scope item db = Inr ()"
    then obtain mi where "List.find ?P (h_media db) = Some mi" "is_media_allowed scope (mi_library_id mi) (mi_content_rating mi)"
      by (auto simp: assert_media_access_def split: option.splits if_splits)
    then show "\<exists>mi \<in> set (h_media db). ?P mi \<and> is_media_allowed scope (mi_library_id mi) (mi_content_rating mi)"
      by (auto simp: find_Some_iff)
  next
    assume "\<exists>mi \<in> set (h_media db). ?P mi \<and> is_media_allowed scope (mi_library_id mi) (mi_content_rating mi)"
    then obtain mi where mi: "mi \<in> set (h_media db)" "?P mi" "is_media_allowed scope (mi_library_id mi) (mi_content_rating mi)"
      by blast
    then have "List.find ?P (h_media db) = Some mi" using find_media [OF assms(3) mi(1), of ?P] by simp
    then show "assert_media_access scope item db = Inr ()" using mi(3) by (simp add: assert_media_access_def)
  qed
  then show ?thesis using scope by (auto simp: kids_media_allowed)
qed

section \<open>Management\<close>

text \<open>
  An operation guarded by the owner: it succeeds only behind \<open>begin_management\<close> and leaves the tables as
  they are when it fails.
\<close>

locale guarded =
  fixes op :: "household \<Rightarrow> (ProfilesError + 'a) \<times> household"
    and context_id :: digest and sql :: instant and owner :: uuid and actor :: "scope option"
  assumes behind: "fst (op db) = Inr x \<Longrightarrow> \<exists>db1. begin_management context_id sql owner actor db = Inr db1"
    and unchanged: "fst (op db) = Inl e \<Longrightarrow> snd (op db) = db"
begin

lemma refused_unchanged:
  assumes "begin_management context_id sql owner actor db = Inl e"
  shows "snd (op db) = db"
proof (cases "fst (op db)")
  case (Inr x)
  from behind [OF this] assms show ?thesis by auto
qed (rule unchanged)

lemma effect_needs_begin: "snd (op db) \<noteq> db \<Longrightarrow> \<exists>db1. begin_management context_id sql owner actor db = Inr db1"
  using refused_unchanged by (cases "begin_management context_id sql owner actor db") auto

end

interpretation creating: guarded "create_profile context_id argon2 sql pid owner actor req" context_id sql owner actor
  by unfold_locales
    (auto simp: create_profile_def Let_def bind_res_Inr split: sum.splits prod.splits)

interpretation updating: guarded "update_profile context_id argon2 sql owner pid a req" context_id sql owner "Some a"
  by unfold_locales
    (auto simp: update_profile_def update_check_def Let_def bind_res_Inr split: sum.splits prod.splits)

interpretation deleting: guarded "delete_profile context_id sql owner pid a" context_id sql owner "Some a"
  by unfold_locales (auto simp: delete_profile_def bind_res_Inr split: sum.splits)

text \<open>The specification: the session acts as the profile now, and a protected household has a fresh grant.\<close>

definition owner_present :: "instant \<Rightarrow> scope \<Rightarrow> household \<Rightarrow> bool" where
  "owner_present sql a db \<longleftrightarrow>
     user_active (sc_user a) db
     \<and> (\<exists>s \<in> set (h_sessions db). s_id s = sc_session a \<and> s_user_id s = sc_user a \<and> s_active_profile_id s = Some (sc_profile a)
          \<and> sql < s_expires_at s \<and> s_credential_version s = sc_version a)
     \<and> (\<forall>o' \<in> set (h_owner_states db). os_user_id o' = sc_user a \<and> os_enabled o' \<longrightarrow>
          (\<exists>p \<in> set (h_profiles db). p_id p = sc_profile a \<and> p_owner_user_id p = sc_user a \<and> p_type p = ''standard'')
          \<and> (\<exists>g \<in> set (h_grants db). grant_valid sql a o' g))"

lemma find_profile_lock [simp]: "find_profile owner pid (lock_accounts us db) = find_profile owner pid db"
  and find_session_lock [simp]: "find_session owner sid (lock_accounts us db) = find_session owner sid db"
  and grants_lock [simp]: "h_grants (lock_accounts us db) = h_grants db"
  by (simp_all add: find_profile_def find_session_def lock_accounts_def)

lemma find_unique:
  assumes "distinct (map f xs)" and "x \<in> set xs"
  shows "List.find (\<lambda>y. f y = f x) xs = Some x"
  using assms by (induction xs) (auto simp: image_iff)

lemma find_append: "List.find P xs = Some x \<Longrightarrow> List.find P (xs @ ys) = Some x"
  by (induction xs) (auto split: if_splits)

lemma find_state_lock:
  assumes "distinct (map os_user_id (h_owner_states db))" and "o' \<in> set (h_owner_states db)" and "os_user_id o' = uid"
  shows "find_state uid (lock_accounts us db) = Some o'"
proof -
  have "List.find (\<lambda>y. os_user_id y = uid) (h_owner_states db) = Some o'"
    using find_unique [OF assms(1,2)] assms(3) by simp
  then have "List.find (\<lambda>y. os_user_id y = uid) (h_owner_states db @ ys) = Some o'" for ys
    by (rule find_append)
  then show ?thesis by (simp add: find_state_def lock_accounts_def)
qed

lemma session_scope_Inr:
  assumes "session_scope context_id sql a strict db = Inr u"
  shows "\<exists>p s. find_profile (sc_user a) (sc_profile a) db = Some p \<and> (strict \<longrightarrow> p_type p = ''standard'')
    \<and> find_session (sc_user a) (sc_session a) db = Some s \<and> s_active_profile_id s = Some (sc_profile a)
    \<and> sql < s_expires_at s \<and> s_credential_version s = sc_version a"
  using assms by (auto simp: session_scope_def split: option.splits if_splits)

lemma authorize_Inr:
  assumes "authorize context_id sql uid (Some a) db = Inr b"
  shows "sc_user a = uid \<and> (\<exists>o'. find_state uid db = Some o' \<and> session_scope context_id sql a (os_enabled o') db = Inr ()
    \<and> (os_enabled o' \<longrightarrow> require sql a db = Inr ()))"
  using assms by (auto simp: authorize_def bind_res_Inr split: option.splits if_splits)

lemma require_Inr:
  "require sql a db = Inr () \<longleftrightarrow> (\<exists>g \<in> set (h_grants db). \<exists>o' \<in> set (h_owner_states db). grant_valid sql a o' g)"
  by (auto simp: require_def list_ex_iff)

lemma grant_state:
  assumes "distinct (map os_user_id xs)" and "o1 \<in> set xs" and "o2 \<in> set xs" and "os_user_id o1 = os_user_id o2"
  shows "o1 = o2"
  using assms by (auto simp: distinct_map dest: inj_onD)

lemma lock_state_origin:
  assumes "o2 \<in> set (h_owner_states (lock_accounts us db))" and "o1 \<in> set (h_owner_states db)"
    and "os_user_id o1 = os_user_id o2" and "distinct (map os_user_id (h_owner_states db))"
  shows "o2 = o1"
proof (cases "o2 \<in> set (h_owner_states db)")
  case False
  with assms(1) have "os_user_id o2 \<notin> os_user_id ` set (h_owner_states db)" by (auto simp: lock_accounts_def)
  moreover have "os_user_id o2 \<in> os_user_id ` set (h_owner_states db)" using assms(2,3) by (metis imageI)
  ultimately show ?thesis by blast
qed (use assms grant_state in blast)

lemma begin_management_owner_present:
  assumes "begin_management context_id sql owner (Some a) db = Inr db1"
    and "distinct (map os_user_id (h_owner_states db))"
  shows "sc_user a = owner \<and> owner_present sql a db"
proof -
  have db1: "db1 = lock_accounts [owner] db" "user_active owner db"
    and auth: "\<exists>b. authorize context_id sql owner (Some a) db1 = Inr b"
    using assms(1)
    by (auto simp: begin_management_def household_error_def begin_owner_def bind_res_def split: sum.splits if_splits)
  then obtain o' where o': "sc_user a = owner" "find_state owner db1 = Some o'"
      "session_scope context_id sql a (os_enabled o') db1 = Inr ()" "os_enabled o' \<longrightarrow> require sql a db1 = Inr ()"
    using authorize_Inr by blast
  obtain p s where ps: "find_profile owner (sc_profile a) db = Some p" "os_enabled o' \<longrightarrow> p_type p = ''standard''"
      "find_session owner (sc_session a) db = Some s" "s_active_profile_id s = Some (sc_profile a)"
      "sql < s_expires_at s" "s_credential_version s = sc_version a"
    using session_scope_Inr [OF o'(3)] o'(1) db1(1) by auto
  have p: "p \<in> set (h_profiles db)" "p_id p = sc_profile a" "p_owner_user_id p = owner"
    using find_Some_set [OF ps(1) [unfolded find_profile_def]] by simp_all
  have s: "s \<in> set (h_sessions db)" "s_id s = sc_session a" "s_user_id s = owner"
    using find_Some_set [OF ps(3) [unfolded find_session_def]] by simp_all
  have grant: "\<exists>g \<in> set (h_grants db). grant_valid sql a x g"
    if x: "x \<in> set (h_owner_states db)" "os_user_id x = owner" "os_enabled x" for x
  proof -
    have "o' = x" using find_state_lock [OF assms(2) x(1,2), of "[owner]"] o'(2) db1(1) by simp
    then obtain g y where "g \<in> set (h_grants db)" "y \<in> set (h_owner_states db1)" "grant_valid sql a y g"
      using o'(4) x(3) db1(1) by (auto simp: require_Inr)
    moreover have "os_user_id y = owner" if "grant_valid sql a y g" for y g
      using that o'(1) unfolding grant_valid_def by metis
    ultimately show ?thesis
      using lock_state_origin [of y "[owner]" db x] x(1,2) assms(2) unfolding db1(1) by metis
  qed
  have standard: "p_type p = ''standard''" if "x \<in> set (h_owner_states db)" "os_user_id x = owner" "os_enabled x" for x
    using find_state_lock [OF assms(2) that(1,2), of "[owner]"] o'(2) db1(1) ps(2) that(3) by simp
  have "\<forall>x \<in> set (h_owner_states db). os_user_id x = sc_user a \<and> os_enabled x \<longrightarrow>
      (\<exists>p \<in> set (h_profiles db). p_id p = sc_profile a \<and> p_owner_user_id p = sc_user a \<and> p_type p = ''standard'')
      \<and> (\<exists>g \<in> set (h_grants db). grant_valid sql a x g)"
    using o'(1) p standard grant by (intro ballI impI conjI bexI [of _ p]) simp_all
  moreover have "\<exists>s \<in> set (h_sessions db). s_id s = sc_session a \<and> s_user_id s = sc_user a
      \<and> s_active_profile_id s = Some (sc_profile a) \<and> sql < s_expires_at s \<and> s_credential_version s = sc_version a"
    using s ps(4-6) o'(1) by (intro bexI [of _ s]) simp_all
  ultimately show ?thesis using o'(1) db1(2) by (simp only: owner_present_def simp_thms)
qed

text \<open>
  C25. Only an owner who is present manages profiles: creating, changing or deleting a profile has an
  effect only for a session that acts as the claimed profile now, with its current credential, and in a
  protected household only as a standard profile with a grant that is fresh, of the current revision and
  not locked; in all other cases the tables stay as they are.
\<close>

theorem management_needs_owner:
  assumes "distinct (map os_user_id (h_owner_states db))"
    and "snd (create_profile context_id argon2 sql pid owner (Some a) req db) \<noteq> db
      \<or> snd (update_profile context_id argon2 sql owner pid a req db) \<noteq> db
      \<or> snd (delete_profile context_id sql owner pid a db) \<noteq> db"
  shows "sc_user a = owner \<and> owner_present sql a db"
proof -
  from assms(2) obtain db1 where "begin_management context_id sql owner (Some a) db = Inr db1"
  proof (elim disjE)
    assume "snd (create_profile context_id argon2 sql pid owner (Some a) req db) \<noteq> db"
    from creating.effect_needs_begin [OF this] that show thesis by blast
  next
    assume "snd (update_profile context_id argon2 sql owner pid a req db) \<noteq> db"
    from updating.effect_needs_begin [OF this] that show thesis by blast
  next
    assume "snd (delete_profile context_id sql owner pid a db) \<noteq> db"
    from deleting.effect_needs_begin [OF this] that show thesis by blast
  qed
  then show ?thesis by (rule begin_management_owner_present [OF _ assms(1)])
qed

section \<open>The end of a proof\<close>

lemma require_no_grant:
  assumes "\<And>g. g \<in> set (h_grants db) \<Longrightarrow> og_user_id g \<noteq> sc_user a \<or> og_session_id g \<noteq> sc_session a"
  shows "require now a db = Inl O_Required"
proof -
  have "require now a db \<noteq> Inr ()" using assms by (auto simp: require_Inr grant_valid_def)
  then show ?thesis by (simp add: require_def split: if_splits)
qed

lemma grants_set_state [simp]: "h_grants (set_state uid f db) = h_grants db"
  by (simp add: set_state_def)

lemma grants_invalidate [simp]: "h_grants (invalidate uid db) = filter (\<lambda>g. og_user_id g \<noteq> uid) (h_grants db)"
  by (simp add: invalidate_def)

text \<open>
  C28. A proof ends: whatever grants there were, none of the account is left once the operator has issued
  a handoff or the password has changed, and none of the session once the session is locked or has
  switched to another profile; protected operations are then refused at every later time.
\<close>

theorem proof_revoked:
  "(fst (issue_handoff fingerprint sql hid token (sc_user a) db) = Inr t \<longrightarrow>
      require now a (snd (issue_handoff fingerprint sql hid token (sc_user a) db)) = Inl O_Required)
   \<and> (List.find (\<lambda>u. u_id u = sc_user a) (h_users db) = Some u \<and> u_password_hash (f u) \<noteq> u_password_hash u \<longrightarrow>
      require now a (change_account (sc_user a) f db) = Inl O_Required)
   \<and> (fst (lock context_id sql a db) = Inr () \<longrightarrow> require now a (snd (lock context_id sql a db)) = Inl O_Required)
   \<and> (fst (switch_profile now' sql owner (sc_session a) device target observed remember db) = Inr () \<and> observed \<noteq> p_id target \<longrightarrow>
      require now a (snd (switch_profile now' sql owner (sc_session a) device target observed remember db)) = Inl O_Required)"
proof (intro conjI impI)
  assume "fst (issue_handoff fingerprint sql hid token (sc_user a) db) = Inr t"
  then show "require now a (snd (issue_handoff fingerprint sql hid token (sc_user a) db)) = Inl O_Required"
    by (intro require_no_grant) (auto simp: issue_handoff_def Let_def split: sum.splits)
next
  assume "List.find (\<lambda>u. u_id u = sc_user a) (h_users db) = Some u \<and> u_password_hash (f u) \<noteq> u_password_hash u"
  then show "require now a (change_account (sc_user a) f db) = Inl O_Required"
    by (intro require_no_grant) (auto simp: change_account_def Let_def)
next
  assume "fst (lock context_id sql a db) = Inr ()"
  then show "require now a (snd (lock context_id sql a db)) = Inl O_Required"
    by (intro require_no_grant) (auto simp: lock_def split: sum.splits)
next
  assume "fst (switch_profile now' sql owner (sc_session a) device target observed remember db) = Inr () \<and> observed \<noteq> p_id target"
  then show "require now a (snd (switch_profile now' sql owner (sc_session a) device target observed remember db)) = Inl O_Required"
    by (intro require_no_grant) (auto simp: switch_profile_def Let_def split: sum.splits prod.splits if_splits)
qed

section \<open>Channels\<close>

lemma channel_items_store [simp]: "channel_items cid (store_items cid ids db) = ids"
proof -
  let ?rows = "map (\<lambda>(n, m). \<lparr>ci_channel_id = cid, ci_media_item_id = m, ci_position = n\<rparr>) (enumerate 0 ids)"
  have "map ci_position ?rows = map fst (enumerate 0 ids)"
    unfolding map_map by (rule map_cong) auto
  then have "sorted (map ci_position ?rows)" by simp
  then have "sort_key ci_position ?rows = ?rows" by (rule sort_key_id_if_sorted)
  moreover have "filter (\<lambda>i. ci_channel_id i = cid) ?rows = ?rows" by (rule filter_True) auto
  moreover have "map ci_media_item_id ?rows = map snd (enumerate 0 ids)"
    unfolding map_map by (rule map_cong) auto
  ultimately show ?thesis by (simp add: channel_items_def store_items_def del: map_map)
qed

text \<open>What a channel was given is what it lists, the first of equal items kept, or nothing has changed.\<close>

lemma channel_items_roundtrip:
  "case replace_channel_items sql owner cid ids db of
     (Inr c, db') \<Rightarrow> list_ambient_channel_items owner cid db' = Inr (dedup ids)
   | (Inl e, db') \<Rightarrow> db' = db"
proof -
  have kept: "find_channel owner cid (store_items cid xs (db\<lparr>h_channels := update_where (\<lambda>x. ch_id x = cid \<and> ch_owner_user_id x = owner)
      (\<lambda>x. x\<lparr>ch_updated_at := sql\<rparr>) (h_channels db)\<rparr>)) = None \<longleftrightarrow> find_channel owner cid db = None" for xs
    by (simp add: find_channel_def store_items_def find_update_where)
  show ?thesis
    by (cases "find_channel owner cid db")
      (simp_all add: replace_channel_items_def list_ambient_channel_items_def Let_def kept)
qed

lemma position_Some: "position x xs = Some i \<Longrightarrow> xs = take i xs @ x # drop (Suc i) xs \<and> i < length xs"
  by (induction xs arbitrary: i) (auto split: if_splits)

lemma position_distinct: "distinct (pre @ x # post) \<Longrightarrow> position x (pre @ x # post) = Some (length pre)"
  by (induction pre) auto

lemma rotation_rotate:
  "rotation items after = rotate (case Option.bind after (\<lambda>x. position x items) of None \<Rightarrow> 0 | Some i \<Rightarrow> Suc i) items"
proof -
  have "map (\<lambda>k. items ! ((n mod length items + k) mod length items)) [0..<length items] = rotate n items" for n
    by (rule nth_equalityI) (simp_all add: nth_rotate mod_add_left_eq)
  from this [of 0] this show ?thesis by (auto simp: rotation_def Let_def split: option.splits)
qed

lemma rotation_after:
  assumes "distinct (pre @ x # post)"
  shows "rotation (pre @ x # post) (Some x) = post @ pre @ [x]"
proof -
  have "rotate (Suc (length pre)) ((pre @ [x]) @ post) = post @ pre @ [x]"
    using rotate_append [of "pre @ [x]" post] by simp
  then show ?thesis by (simp add: rotation_rotate position_distinct [OF assms])
qed

lemma find_filter: "List.find P xs = (case filter P xs of [] \<Rightarrow> None | x # _ \<Rightarrow> Some x)"
  by (induction xs) auto

text \<open>
  C29. A channel plays in turn what the profile may watch: for an available channel, the item after the
  \<open>k\<close>-th of the playable items is the next of them, the first following the last, so that asking again and
  again visits every playable item; a channel with nothing playable reports that it is empty.
\<close>

theorem channel_plays_in_turn:
  assumes "get_available_channel scope cid db = Inr c" and "distinct (channel_items cid db)"
    and "playable = filter (\<lambda>m. assert_media_access scope m db = Inr ()) (channel_items cid db)"
  shows "(playable = [] \<longrightarrow> next_ambient_channel_item scope cid after db = Inl P_ChannelEmpty)
    \<and> (k < length playable \<longrightarrow>
        next_ambient_channel_item scope cid (Some (playable ! k)) db = Inr (c, playable ! (Suc k mod length playable)))"
proof (intro conjI impI)
  assume "playable = []"
  then have "filter (\<lambda>m. assert_media_access scope m db = Inr ()) (rotation (channel_items cid db) after) = []"
    using assms(3) by (auto simp: rotation_rotate filter_empty_conv)
  then show "next_ambient_channel_item scope cid after db = Inl P_ChannelEmpty"
    by (simp add: next_ambient_channel_item_def assms(1) find_filter)
next
  assume k: "k < length playable"
  let ?P = "\<lambda>m. assert_media_access scope m db = Inr ()"
  have "playable ! k \<in> set (channel_items cid db)" "?P (playable ! k)"
    using nth_mem [OF k] assms(3) by auto
  then obtain pre post where items: "channel_items cid db = pre @ playable ! k # post" by (meson split_list)
  have dist: "distinct (pre @ playable ! k # post)" using assms(2) items by simp
  have split: "playable = filter ?P pre @ playable ! k # filter ?P post"
    using assms(3) items \<open>?P (playable ! k)\<close> by simp
  moreover have "distinct playable" using assms(2,3) by simp
  ultimately have len: "k = length (filter ?P pre)"
    by (metis k nth_append_length nth_eq_iff_index_eq length_append length_Cons add_Suc_right less_add_Suc1)
  have "filter ?P (rotation (channel_items cid db) (Some (playable ! k))) = filter ?P post @ filter ?P pre @ [playable ! k]"
    using \<open>?P (playable ! k)\<close> by (simp add: items rotation_after [OF dist])
  also have "\<dots> = rotate (Suc k) playable"
    using rotate_append [of "filter ?P pre @ [playable ! k]" "filter ?P post"] split len by simp
  finally have "List.find ?P (rotation (channel_items cid db) (Some (playable ! k))) = Some (rotate (Suc k) playable ! 0)"
    using k by (cases "rotate (Suc k) playable") (auto simp: find_filter)
  then show "next_ambient_channel_item scope cid (Some (playable ! k)) db = Inr (c, playable ! (Suc k mod length playable))"
    using k nth_rotate [of 0 playable "Suc k"]
    by (cases "playable = []") (simp_all add: next_ambient_channel_item_def assms(1) del: rotate_Suc)
qed

text \<open>A channel that is created with an unknown item is refused and stays behind, empty.\<close>

lemma refused_channel_remains:
  assumes "audience \<in> set CHANNEL_AUDIENCES" and "trim name \<noteq> []" and "channel_name_ok (trim name)"
    and "owner \<in> u_id ` set (h_users db)" and "cid \<notin> ch_id ` set (h_channels db)" and "item \<notin> mi_id ` set (h_media db)"
    and "\<forall>i \<in> set (h_channel_items db). ci_channel_id i \<noteq> cid"
  shows "fst (create_ambient_channel sql cid owner name description audience enabled (Some [item]) db) = Inl P_ContentNotAllowed
    \<and> list_ambient_channel_items owner cid (snd (create_ambient_channel sql cid owner name description audience enabled (Some [item]) db)) = Inr []"
proof -
  have none: "List.find (\<lambda>c. ch_id c = cid \<and> ch_owner_user_id c = owner) (h_channels db) = None"
    using assms(5) by (auto simp: find_None_iff)
  have new: "List.find P (xs @ [x]) = Some x" if "List.find P xs = None" "P x" for P xs and x :: AmbientChannelRow
    using that by (induction xs) (auto split: if_splits)
  have items: "channel_items cid (db\<lparr>h_channels := cs\<rparr>) = []" for cs
    using assms(7) by (simp add: channel_items_def)
  show ?thesis
    using assms(1-6) none
    by (simp add: create_ambient_channel_def validate_channel_audience_def coalesce_def replace_channel_items_def
        find_channel_def new items dedup_def list_ambient_channel_items_def)
qed

section \<open>A sample household\<close>

definition sample_profile :: "uuid \<Rightarrow> string \<Rightarrow> string option \<Rightarrow> ProfileRow" where
  "sample_profile pid type pin =
     \<lparr>p_id = pid, p_owner_user_id = 1, p_name = ''Ann'', p_type = type, p_is_default = (type = ''standard''), avatar = None,
      max_content_rating = ''PG'', allow_search = True, allow_downloads = True, allow_external_links = True,
      allow_ambient_channels = True, parent_pin_hash = pin, parent_pin_failed_attempts = 0, parent_pin_locked_until = None\<rparr>"

definition sample_session :: "uuid \<Rightarrow> uuid \<Rightarrow> ProfileSession" where
  "sample_session sid pid =
     \<lparr>s_id = sid, s_user_id = 1, s_active_profile_id = Some pid, s_profile_selection_required = False, s_token_hash = ''t'',
      s_credential_version = 1,
      s_device = \<lparr>device_id = None, device_name = None, client_name = None, client_version = None, client_platform = None,
        ip_address = None, user_agent = None, is_secure = True\<rparr>,
      s_expires_at = 1000, s_last_active_at = 0, parent_unlock_profile_id = None, parent_unlock_expires_at = None,
      profile_context_revision = 1\<rparr>"

definition sample_household :: household where
  "sample_household =
     \<lparr>h_users = [\<lparr>u_id = 1, u_username = ''ann'', u_display_name = ''Ann'', u_email = None, u_password_hash = Some ''h'',
        u_role = ''owner'', u_status = ''active'', u_deleted_at = None, u_has_all_library_access = False,
        u_failed_login_attempts = 0, u_locked_until = None\<rparr>],
      h_profiles = [sample_profile 10 ''standard'' None, sample_profile 11 ''kids'' (Some ''1234'')],
      h_sessions = [sample_session 20 11, sample_session 21 10], h_preferences = [], h_capabilities = [],
      h_libraries = [(30, False)], h_profile_libraries = [(11, 30)], h_user_libraries = [(1, 30)],
      h_media = [\<lparr>mi_id = 40, mi_library_id = 30, mi_content_rating = Some ''TV-G''\<rparr>,
        \<lparr>mi_id = 41, mi_library_id = 30, mi_content_rating = Some ''R''\<rparr>],
      h_channels = [\<lparr>ch_id = 50, ch_owner_user_id = 1, ch_name = ''All'', ch_description = None, ch_audience = ''kids'',
        ch_is_enabled = True, ch_updated_at = 0\<rparr>],
      h_channel_items = [\<lparr>ci_channel_id = 50, ci_media_item_id = 41, ci_position = 0\<rparr>,
        \<lparr>ci_channel_id = 50, ci_media_item_id = 40, ci_position = 1\<rparr>],
      h_owner_states = [\<lparr>os_user_id = 1, os_enabled = True, os_revision = 1, os_password_fingerprint = None,
        os_failed_attempts = 0, os_locked_until = None\<rparr>],
      h_grants = [\<lparr>og_session_id = 21, og_credential_version = 1, og_user_id = 1, og_profile_id = 10, og_revision = 1,
        og_expires_at = 500\<rparr>], h_handoffs = []\<rparr>"

definition sample_actor :: scope where
  "sample_actor = \<lparr>sc_version = 1, sc_user = 1, sc_session = 21, sc_profile = 10, sc_binding = None\<rparr>"

lemmas sample_defs = sample_household_def sample_profile_def sample_session_def sample_actor_def

lemma sample_rows:
  "user_active 1 sample_household" "find_profile 1 10 sample_household = Some (sample_profile 10 ''standard'' None)"
  "find_profile 1 11 sample_household = Some (sample_profile 11 ''kids'' (Some ''1234''))"
  "find_session 1 21 sample_household = Some (sample_session 21 10)" "find_session 1 20 sample_household = Some (sample_session 20 11)"
  by (simp_all add: sample_defs user_active_def find_profile_def find_session_def)

lemma sample_scope: "session_scope context_id 0 sample_actor strict (lock_accounts us sample_household) = Inr ()"
  by (simp add: session_scope_def context_check_def sample_actor_def sample_rows) (simp add: sample_profile_def sample_session_def)

lemma sample_ranks:
  "content_rating_rank ''TV-G'' = Some 3" "content_rating_rank ''R'' = Some 8" "content_rating_rank ''PG'' = Some 4"
  by (simp_all add: content_rating_rank_def canonical_content_rating_def to_ascii_uppercase_def ascii_upper_char_def
      rating_names_def CONTENT_RATINGS_def dusk_eval)


theorem kids_media_contract_witness:
  "\<exists>scope. load_profile_scope 1 11 False sample_household = Inr scope
     \<and> assert_media_access scope 40 sample_household = Inr () \<and> assert_media_access scope 41 sample_household \<noteq> Inr ()"
proof -
  obtain scope where scope: "load_profile_scope 1 11 False sample_household = Inr scope"
    by (simp add: load_profile_scope_def sample_rows)
  note contract = kids_media_contract [OF sample_rows(3) _ _ scope]
  have "assert_media_access scope 40 sample_household = Inr ()" "assert_media_access scope 41 sample_household \<noteq> Inr ()"
    using contract [of 40] contract [of 41] by (simp_all add: sample_defs rated_within_def sample_ranks)
  with scope show ?thesis by blast
qed

theorem proof_revoked_witness:
  "require 0 sample_actor sample_household = Inr ()
   \<and> require 0 sample_actor (snd (lock (\<lambda>_ _ _ _ _ _. []) 0 sample_actor sample_household)) = Inl O_Required"
proof -
  have "begin_owner (sc_user sample_actor) sample_household = Inr (lock_accounts [1] sample_household)"
    by (simp add: begin_owner_def sample_actor_def sample_rows)
  then have "fst (lock (\<lambda>_ _ _ _ _ _. []) 0 sample_actor sample_household) = Inr ()"
    by (simp add: lock_def sample_scope)
  moreover have "require 0 sample_actor sample_household = Inr ()"
    by (simp add: sample_defs require_def grant_valid_def unlocked_state_def)
  ultimately show ?thesis using proof_revoked by blast
qed

definition quiet_request :: profile_request where
  "quiet_request = \<lparr>rq_name = None, rq_avatar = None, rq_profile_type = None, rq_max_content_rating = None,
     rq_library_ids = None, rq_allow_search = Some False, rq_allow_downloads = None, rq_allow_external_links = None,
     rq_allow_ambient_channels = None, rq_parent_pin = None\<rparr>"

theorem management_needs_owner_witness:
  "snd (update_profile (\<lambda>_ _ _ _ _ _. []) (\<lambda>_. None) 0 1 11 sample_actor quiet_request sample_household) \<noteq> sample_household
   \<and> owner_present 0 sample_actor sample_household"
proof -
  let ?db = "lock_accounts [1] sample_household"
  have state: "find_state 1 ?db = Some (hd (h_owner_states sample_household))"
    by (simp add: find_state_lock sample_household_def)
  have "require 0 sample_actor ?db = Inr ()"
    by (simp add: sample_defs require_def grant_valid_def unlocked_state_def lock_accounts_def)
  moreover have "os_enabled (hd (h_owner_states sample_household))" by (simp add: sample_household_def)
  ultimately have "authorize (\<lambda>_ _ _ _ _ _. []) 0 1 (Some sample_actor) ?db = Inr True"
    using sample_scope by (simp add: authorize_def state) (simp add: sample_actor_def)
  then have "begin_management (\<lambda>_ _ _ _ _ _. []) 0 1 (Some sample_actor) sample_household = Inr ?db"
    by (simp add: begin_management_def begin_owner_def sample_rows household_error_def)
  moreover have "profile_name_ok ''Ann''" by (simp add: profile_name_ok_def char_count_def)
  ultimately have "update_check (\<lambda>_ _ _ _ _ _. []) (\<lambda>_. None) 0 1 11 sample_actor quiet_request sample_household = Inr (None, None, ?db)"
    by (simp add: update_check_def sample_rows quiet_request_def pin_for_update_def nonempty_trim_def coalesce_def sample_profile_def)
  then have "snd (update_profile (\<lambda>_ _ _ _ _ _. []) (\<lambda>_. None) 0 1 11 sample_actor quiet_request sample_household)
      = set_profile 11 (changed_profile quiet_request None None) ?db"
    by (simp add: update_profile_def quiet_request_def)
  moreover have "map allow_search (h_profiles (set_profile 11 (changed_profile quiet_request None None) ?db)) = [True, False]"
    by (simp add: set_profile_def lock_accounts_def sample_household_def sample_profile_def update_where_def
        changed_profile_def quiet_request_def coalesce_def)
  moreover have "map allow_search (h_profiles sample_household) = [True, True]" by (simp add: sample_defs)
  ultimately have changed: "snd (update_profile (\<lambda>_ _ _ _ _ _. []) (\<lambda>_. None) 0 1 11 sample_actor quiet_request sample_household)
      \<noteq> sample_household" by force
  have "distinct (map os_user_id (h_owner_states sample_household))" by (simp add: sample_household_def)
  then show ?thesis using management_needs_owner changed by blast
qed

theorem channel_plays_in_turn_witness:
  "\<exists>scope c. load_profile_scope 1 11 False sample_household = Inr scope
     \<and> next_ambient_channel_item scope 50 (Some 40) sample_household = Inr (c, 40)"
proof -
  obtain scope where scope: "load_profile_scope 1 11 False sample_household = Inr scope"
    and allow: "ps_allow_ambient_channels scope" "is_kids scope" "ps_owner_user_id scope = 1"
    by (simp add: load_profile_scope_def sample_rows is_kids_def) (simp add: sample_profile_def)
  have access: "(assert_media_access scope 40 sample_household = Inr ()) = True" "(assert_media_access scope 41 sample_household = Inr ()) = False"
    using scope by (auto simp: load_profile_scope_def sample_rows assert_media_access_def is_media_allowed_def
        is_kids_def list_profile_library_ids_def sample_ranks) (simp_all add: sample_defs sample_ranks is_media_allowed_def is_kids_def)
  obtain c where c: "get_available_channel scope 50 sample_household = Inr c"
    using allow by (simp add: get_available_channel_def sample_household_def)
  have items: "channel_items 50 sample_household = [41, 40]" by (simp add: channel_items_def sample_household_def)
  have "next_ambient_channel_item scope 50 (Some 40) sample_household = Inr (c, 40)"
    using channel_plays_in_turn [OF c _ refl, of None 0] by (simp add: items access)
  with scope show ?thesis by blast
qed

end
