(* ===== verification/Spec2Isabelle.thy ===== *)
theory Spec2Isabelle
  imports Byte_Range Stream_Plan Conditions Scheduler_Props Owner_Props Event_Bus Storyboards Segment_Props Subtitle_Props Auth_Flow Household_Flow
begin

text \<open>
  \<^bold>\<open>Duskcue: the media server's core logic.\<close>

  Duskcue is a self-hosted media server in Rust. People sign in by password, invitation or a linked
  device and act as a profile of their account (domains/auth, extractors.rs, domains/profiles), some of
  them a child's, which an owner manages (domains/household_security). A client asks to play
  an item; the server admits the stream against the household's limits (services/playback_admission), decides how the file
  can be played on the device (services/decision_engine.rs, its submodule compatibility.rs),
  compiles that decision into a plan for the encoder (services/transcoding/plan.rs, with the ladder
  of services/transcoding.rs), and serves bytes (domains/playback/range.rs, file_delivery.rs,
  domains/downloads/service.rs), seek-bar previews (services/storyboards.rs) and events
  (services/event_bus.rs). In the background a scheduler (services/scheduler.rs) runs maintenance
  tasks, looks for intros and credits to skip (services/segments.rs) and prepares subtitles
  (services/subtitles.rs), and overlays and collections
  select items by stored conditions (services/conditions.rs).
  All paths are below server/src.

  \<^bold>\<open>Theories.\<close>

  \<^item> \<open>Prelude\<close>: Rust's integers as words, strings as byte sequences, decimal printing and parsing,
    trimming, results. \<open>F64\<close>: binary64 arithmetic with rounding. \<open>Json\<close>: values of serde_json.
  \<^item> \<open>Byte_Range\<close>: the two range parsers and the response head of the file delivery. The contract
    of a parser (locale \<open>byte_ranges\<close>) is stated once; both parsers are instances. Shown:
    accepted ranges lie inside the file, the printed header parses back, the parsers agree, and
    status, headers and body slice on every branch.
  \<^item> \<open>Codec_Compat\<close>: the alias tables; locale \<open>canonical_names\<close> with an instance for codecs,
    containers and dynamic ranges. \<open>Rendition_Ladder\<close>: the encoding ladder, non-empty, sorted,
    bounded. \<open>Decision_Engine\<close>: the whole of \<^verbatim>\<open>decide\<close>, in the order of the code;
    \<open>Decision_Props\<close>: when a file plays directly, as an equivalence with an independent
    specification, monotonicity, target bounds, tone mapping. \<open>Stream_Plan\<close>: compilation of a
    decision and the choice of encoders.
  \<^item> \<open>Conditions\<close>: validation and evaluation of condition trees; a validated tree denotes a rule of
    an abstract syntax, and evaluation computes the truth value of that rule.
  \<^item> \<open>Scheduler\<close>: the task runner over its two tables, each database statement failing or not.
    \<open>Scheduler_Props\<close>: the runner as a step relation in which calls interleave between their
    statements; exclusion of runs, its failure under cancellation, due tasks, history, retries.
  \<^item> \<open>Admission\<close>: the reservation ledger: registration, claim, check and renewal, retirement,
    pruning, fencing and reconciliation as transactions over a store, with rollback and lost
    commits. \<open>Admission_Props\<close>: locale \<open>shrinking\<close>, the contract of every operation but \<open>claim\<close>;
    limits, uniqueness and progress of reservations for all sequences of transactions.
  \<^item> \<open>Admission_Owner\<close>: the process side of admission (playback_admission/owner): the gate with its
    entries, commands, the monitor, running streams, maintenance and shutdown, split into steps at
    their database calls. \<open>Owner_Props\<close>: the step relation in which the tasks of one process and the
    transactions of others interleave; every running stream is backed by a reservation of its own,
    so the limits hold for streams too, unless a client reuses a request identifier, where a run
    beyond the limit is exhibited; shutdown.
  \<^item> \<open>Event_Bus\<close>: per-user replay rings, connection counting in two atomic halves, type filters.
  \<^item> \<open>Storyboards\<close>: sprite layout, cue index, file names.
  \<^item> \<open>Text_Scan\<close>: lines, words and numbers of program output, and binary32 arithmetic.
    \<open>Segments\<close>: chapters, comparison of audio fingerprints, black frames, silence, credits and
    outros. \<open>Segment_Props\<close>: bounds of what is reported, clusters, skip targets, agreement of
    detectors, and the misplacement of recurring audio.
  \<^item> \<open>Subtitles\<close>: conversion between the text formats, shifting and rescaling of times, alignment
    with speech, the hash of a file. \<open>Subtitle_Props\<close>: well-formed documents survive conversion and are
    shifted cue by cue, the alignment is the best candidate, and the inputs that are damaged.
  \<^item> \<open>Auth\<close>: accounts, passwords, capabilities, sessions and the session extractor. \<open>Auth_Codes\<close>: setup,
    invitations, codes for signing in again and device linking; requests that are not one
    transaction are tasks with a stage per statement. \<open>Auth_Props\<close>: passwords, overrides, revocation,
    setup, and locale \<open>single_use\<close>, the contract of redeeming a code, with instances for linking and
    signing in again. \<open>Auth_Flow\<close>: all requests as one step relation; sessions belong to their users,
    decisions are final, requests end; runs in which codes are redeemed too often.
  \<^item> \<open>Household\<close>: the proof that an owner is present: password proofs, grants, handoffs and the triggers
    that end grants. \<open>Profiles\<close>: content ratings, media access, the parent PIN and switching.
    \<open>Profile_Management\<close>: creating, changing and deleting profiles, ambient channels. \<open>Household_Props\<close>:
    locale \<open>guarded\<close>, the contract of a managing operation, with an instance for each; PIN attempts,
    media access, the end of grants, channels. \<open>Household_Flow\<close>: all requests as one step relation with
    the gaps between reading and locking; a child's session stays on Kids profiles.

  \<^bold>\<open>Modelling choices.\<close> A struct is a record, an enum a datatype, \<^verbatim>\<open>Result\<close> a sum with the error
  on the left. Unsigned integers are words of their width. A database table is the list of its
  rows and a transaction a function on the tables; what other crates or the database compute
  (cron expressions, regular expressions, SHA-256, PBKDF2, serde, generated identifiers, the clock, triggers)
  are arguments. A property that assumes documented behaviour of such an argument names it as a
  hypothesis. All functions are total: loops of the source run over finite lists and are structural
  or have a termination measure, so there is no fuel. Log output and metrics are left out.

  \<^bold>\<open>Not modelled.\<close> Process and network I/O (FFmpeg, HTTP clients, the sandbox, tuners), image
  composition, cryptographic primitives and passkeys, routing and configuration glue, and the client programs.
\<close>

end
